theory Spec2Isabelle
  imports Complex_Main "HOL-Library.AList" "HOL-Library.Char_ord" "HOL-Library.List_Lexorder"
    "HOL-Library.Multiset" "HOL-Library.Option_ord"
begin

section \<open>Data model of \<open>SpiritIslandTracker.tsx\<close>\<close>

text \<open>
  The interfaces of the component, field by field. A field that is optional in the
  source (\<open>adversary?\<close>, \<open>level?\<close>) or nullable (\<open>lastPlayed: string | null\<close>) is an
  \<open>option\<close>. Record fields are global names in HOL, so the fields of \<open>Spirit\<close> carry the
  prefix \<open>sp_\<close> (\<open>Player\<close> already has a field \<open>spirit\<close>) and the fields of a
  recommendation the prefix \<open>rec_\<close>; the field \<open>spirit\<close> of \<open>PlayStats\<close> is \<open>ps_spirit\<close>.
\<close>

record Player =
  player :: string
  spirit :: string

record Play =
  date :: string
  players :: "Player list"
  adversary :: "string option"
  level :: "int option"

record Spirit =
  sp_spirit :: string
  sp_complexity :: string
  sp_source :: string
  sp_image_url :: string

record AdversaryLevel =
  Level :: int
  Difficulty :: int
  Fear_Cards :: string
  Game_Effects :: string

record Adversary =
  Adversary :: string
  Base_Difficulty :: int
  Additional_Loss_Condition :: string
  URL :: string
  Escalation :: string
  Levels :: "AdversaryLevel list"

record PlayerStats =
  plays :: nat
  lastPlayed :: "string option"

record AdversaryLevelStats = PlayerStats +
  difficulty :: int

record PlayStats =
  ps_spirit :: Spirit
  playerStats :: "(string \<times> PlayerStats) list"

text \<open>
  An object used as a dictionary (\<open>Record<string, T>\<close>) is the list of the keys that
  have been assigned to it, in the order of their first assignment, each with its
  value: \<open>AList.update\<close> overwrites a key where it stands and appends a new key at the
  end, as an assignment \<open>stats[k] = v\<close> does, and \<open>map_of\<close> reads an assigned key. The
  key \<open>__proto__\<close> is special in the language: assigning an object to it creates no
  property but makes that object the prototype of the dictionary, and reading it gives
  the prototype back. The entry of the list under \<open>__proto__\<close> therefore stands for the
  prototype: it is read like any other, it is not enumerated, and the property names
  of its value are inherited by the dictionary. A dictionary to which \<open>__proto__\<close> has
  not been assigned has the prototype \<open>Object.prototype\<close>, which every function is
  taken to find as the host provides it when it starts.
\<close>

type_synonym 'v dict = "(string \<times> 'v) list"

subsection \<open>Enumeration: \<open>Object.values\<close>\<close>

text \<open>
  The own properties of an object are enumerated with the array indices first, in
  ascending numeric order, and then the other string keys in the order of their
  creation. An array index is the canonical decimal numeral of an integer from 0 to
  4294967294.
\<close>

definition digit :: "char \<Rightarrow> nat option" where
  "digit c = (let n = (of_char c :: nat) in if 48 \<le> n \<and> n \<le> 57 then Some (n - 48) else None)"

fun digits :: "nat \<Rightarrow> string \<Rightarrow> nat option" where
  "digits acc [] = Some acc"
| "digits acc (c # cs) = (case digit c of None \<Rightarrow> None | Some d \<Rightarrow> digits (10 * acc + d) cs)"

definition arrayIndex :: "string \<Rightarrow> int option" where
  "arrayIndex k =
     (case digits 0 k of
        None \<Rightarrow> None
      | Some n \<Rightarrow>
          if k \<noteq> [] \<and> (k = ''0'' \<or> hd k \<noteq> CHR ''0'') \<and> int n < 4294967295
          then Some (int n) else None)"

definition objectEntries :: "'v dict \<Rightarrow> 'v dict" where
  "objectEntries d =
     sort_key (\<lambda>kv. arrayIndex (fst kv)) (filter (\<lambda>kv. arrayIndex (fst kv) \<noteq> None) d)
     @ filter (\<lambda>kv. arrayIndex (fst kv) = None \<and> fst kv \<noteq> ''__proto__'') d"

definition objectValues :: "'v dict \<Rightarrow> 'v list" where
  "objectValues d = map snd (objectEntries d)"

subsection \<open>Dates\<close>

text \<open>
  \<open>new Date(s)\<close> is read through its time value only. The parser of the host is the
  parameter \<open>ts\<close>: \<open>ts s\<close> is \<open>new Date(s).getTime()\<close>, with \<open>None\<close> for \<open>NaN\<close> (an invalid
  date). A relational comparison of two \<open>Date\<close> objects compares the time values, and
  is false as soon as one of them is \<open>NaN\<close>.
\<close>

type_synonym clock = "string \<Rightarrow> int option"

definition date_gt :: "int option \<Rightarrow> int option \<Rightarrow> bool" where
  "date_gt a b = (case a of None \<Rightarrow> False | Some x \<Rightarrow> (case b of None \<Rightarrow> False | Some y \<Rightarrow> y < x))"

text \<open>Truthiness of a \<open>string | null\<close>: \<open>null\<close> and the empty string are falsy.\<close>

definition truthy :: "string option \<Rightarrow> bool" where
  "truthy v = (case v of None \<Rightarrow> False | Some s \<Rightarrow> s \<noteq> [])"

text \<open>
  A concrete host parser for date-only ISO strings \<open>YYYY-MM-DD\<close>, which the language
  standard reads as midnight UTC: the milliseconds since 1970-01-01. Anything else is
  an invalid date here.
\<close>

definition daysInMonth :: "nat \<Rightarrow> nat \<Rightarrow> nat" where
  "daysInMonth y m =
     (if m = 2 then (if y mod 4 = 0 \<and> (y mod 100 \<noteq> 0 \<or> y mod 400 = 0) then 29 else 28)
      else if m = 4 \<or> m = 6 \<or> m = 9 \<or> m = 11 then 30 else 31)"

definition daysFromCivil :: "int \<Rightarrow> int \<Rightarrow> int \<Rightarrow> int" where
  "daysFromCivil y m d =
     (let y' = (if m \<le> 2 then y - 1 else y);
          era = y' div 400;
          yoe = y' - era * 400;
          doy = (153 * (if 2 < m then m - 3 else m + 9) + 2) div 5 + d - 1;
          doe = yoe * 365 + yoe div 4 - yoe div 100 + doy
      in era * 146097 + doe - 719468)"

definition isoDate :: clock where
  "isoDate s =
     (if length s = 10 \<and> s ! 4 = CHR ''-'' \<and> s ! 7 = CHR ''-'' then
        (case (digits 0 (take 4 s), digits 0 (take 2 (drop 5 s)), digits 0 (drop 8 s)) of
           (Some y, Some m, Some d) \<Rightarrow>
             (if 1 \<le> m \<and> m \<le> 12 \<and> 1 \<le> d \<and> d \<le> daysInMonth y m
              then Some (daysFromCivil (int y) (int m) (int d) * 86400000) else None)
         | _ \<Rightarrow> None)
      else None)"

text \<open>A date string is well formed for a host when it is non-empty and parses.\<close>

definition validDate :: "clock \<Rightarrow> string \<Rightarrow> bool" where
  "validDate ts d = (d \<noteq> [] \<and> ts d \<noteq> None)"

definition validDates :: "clock \<Rightarrow> Play list \<Rightarrow> bool" where
  "validDates ts ps = list_all (\<lambda>p. validDate ts (date p)) ps"

section \<open>The recognized participants\<close>

text \<open>
  \<open>Array.from(new Set(plays.flatMap(play => play.players.map(p => p.player))))
     .filter(player => player === "A" || player === "E").sort()\<close>.
  A \<open>Set\<close> keeps the first occurrence of each element, in insertion order; the
  default \<open>sort\<close> orders strings by code unit.
\<close>

fun dedup :: "'a list \<Rightarrow> 'a list \<Rightarrow> 'a list" where
  "dedup seen [] = rev seen"
| "dedup seen (x # xs) = (if x \<in> set seen then dedup seen xs else dedup (x # seen) xs)"

definition uniquePlayers :: "Play list \<Rightarrow> string list" where
  "uniquePlayers ps =
     sort (filter (\<lambda>p. p = ''A'' \<or> p = ''E'')
       (dedup [] (concat (map (\<lambda>play. map player (players play)) ps))))"

section \<open>Play aggregation: \<open>buildPlayStats\<close>\<close>

text \<open>The exception that the component can throw.\<close>

datatype error = TypeError

text \<open>
  The first loop: \<open>stats[spirit.spirit] = {spirit, playerStats: {}}\<close>, then a cell for
  each recognized participant. A name that occurs again in the catalog gets a fresh
  entry at the place of the first.
\<close>

definition initPlayerStats :: "string list \<Rightarrow> PlayerStats dict" where
  "initPlayerStats ups =
     fold (\<lambda>p st. AList.update p \<lparr>plays = 0, lastPlayed = None\<rparr> st) ups []"

definition initSpirit :: "string list \<Rightarrow> Spirit \<Rightarrow> PlayStats dict \<Rightarrow> PlayStats dict" where
  "initSpirit ups s stats =
     AList.update (sp_spirit s) \<lparr>ps_spirit = s, playerStats = initPlayerStats ups\<rparr> stats"

text \<open>
  One pass of the inner loop body: \<open>plays += 1\<close>, then the last-played date is
  replaced when the current one is falsy or strictly older than the play's date. The
  adversary aggregation repeats the same statements on a level's statistics, so the
  step is stated once, for any record that extends \<open>PlayerStats\<close>.
\<close>

definition bump :: "clock \<Rightarrow> string \<Rightarrow> 'a PlayerStats_scheme \<Rightarrow> 'a PlayerStats_scheme" where
  "bump ts d c =
     (let c1 = c\<lparr>plays := plays c + 1\<rparr> in
      case lastPlayed c1 of
        None \<Rightarrow> c1\<lparr>lastPlayed := Some d\<rparr>
      | Some currentLastPlayed \<Rightarrow>
          if currentLastPlayed = [] \<or> date_gt (ts d) (ts currentLastPlayed)
          then c1\<lparr>lastPlayed := Some d\<rparr> else c1)"

text \<open>
  The guard of the loop body is \<open>stats[spirit] && stats[spirit].playerStats[player]\<close>.
  Under a name that has not been assigned, \<open>stats[spirit]\<close> is what the dictionary
  inherits. That is \<open>undefined\<close>, and the guard fails, for every name but these:
  \<^item> a property name of \<open>Object.prototype\<close>, which gives a function (for \<open>__proto__\<close>,
    the prototype object itself);
  \<^item> \<open>spirit\<close> and \<open>playerStats\<close>, the property names of the entry that an assignment
    to \<open>__proto__\<close> has made the prototype of \<open>stats\<close>, which give a \<open>Spirit\<close> and a
    dictionary of cells;
  \<^item> \<open>lastPlayed\<close>, once the loop has written such a property to \<open>Object.prototype\<close> (see
    below), which gives a date string, truthy unless empty. (The property \<open>plays\<close>
    written with it is \<open>NaN\<close>, which is falsy.)

  Each of these values is truthy and has no property \<open>playerStats\<close>, so that reading
  \<open>[player]\<close> of \<open>undefined\<close> throws a \<open>TypeError\<close>.
\<close>

definition inheritedKeys :: "string list" where
  "inheritedKeys =
     [''constructor'', ''__defineGetter__'', ''__defineSetter__'', ''hasOwnProperty'',
      ''__lookupGetter__'', ''__lookupSetter__'', ''isPrototypeOf'', ''propertyIsEnumerable'',
      ''toString'', ''valueOf'', ''__proto__'', ''toLocaleString'']"

definition throwingName :: "PlayStats dict \<Rightarrow> string option \<Rightarrow> string \<Rightarrow> bool" where
  "throwingName stats polluted k =
     (k \<in> set inheritedKeys
      \<or> (map_of stats ''__proto__'' \<noteq> None \<and> (k = ''spirit'' \<or> k = ''playerStats''))
      \<or> (k = ''lastPlayed'' \<and> truthy polluted))"

text \<open>
  The dictionary of cells of an entry has the keys of the recognized participants,
  which are among \<open>A\<close> and \<open>E\<close>, and the prototype \<open>Object.prototype\<close>. Under another
  participant name, \<open>playerStats[player]\<close> is \<open>undefined\<close> and the guard fails, but for:
  \<^item> a property name of \<open>Object.prototype\<close> other than \<open>__proto__\<close>, which gives a function:
    the body then writes \<open>plays\<close> and \<open>lastPlayed\<close> to that function, and changes
    nothing that the component reads;
  \<^item> \<open>__proto__\<close>, which gives \<open>Object.prototype\<close> itself: the body then runs on it as on a
    cell, so that \<open>Object.prototype\<close> gets the property \<open>plays\<close>, which is \<open>NaN\<close>, and
    the property \<open>lastPlayed\<close>, which is updated like that of a cell;
  \<^item> \<open>lastPlayed\<close>, once that property exists and is truthy: the body then assigns to
    a property of a string, which throws a \<open>TypeError\<close> in the strict mode of a module.

  The state of the loop is the dictionary with the property \<open>lastPlayed\<close> of
  \<open>Object.prototype\<close>, \<open>None\<close> as long as the loop has not written it.
\<close>

fun recordPlay ::
  "clock \<Rightarrow> string \<Rightarrow> Player \<Rightarrow> PlayStats dict \<times> string option
     \<Rightarrow> error + PlayStats dict \<times> string option" where
  "recordPlay ts d pl (stats, polluted) =
     (case map_of stats (spirit pl) of
        None \<Rightarrow> if throwingName stats polluted (spirit pl) then Inl TypeError else Inr (stats, polluted)
      | Some e \<Rightarrow>
          (case map_of (playerStats e) (player pl) of
             Some c \<Rightarrow>
               Inr (AList.update (spirit pl)
                      (e\<lparr>playerStats := AList.update (player pl) (bump ts d c) (playerStats e)\<rparr>)
                      stats, polluted)
           | None \<Rightarrow>
               if player pl = ''__proto__'' then
                 Inr (stats,
                      (case polluted of
                         None \<Rightarrow> Some d
                       | Some currentLastPlayed \<Rightarrow>
                           if currentLastPlayed = [] \<or> date_gt (ts d) (ts currentLastPlayed)
                           then Some d else Some currentLastPlayed))
               else if player pl = ''lastPlayed'' \<and> truthy polluted then Inl TypeError
               else Inr (stats, polluted)))"

text \<open>A \<open>forEach\<close> whose body may throw: the first exception ends the loop.\<close>

fun forEach :: "('a \<Rightarrow> 's \<Rightarrow> error + 's) \<Rightarrow> 'a list \<Rightarrow> 's \<Rightarrow> error + 's" where
  "forEach f [] s = Inr s"
| "forEach f (x # xs) s = (case f x s of Inl e \<Rightarrow> Inl e | Inr s' \<Rightarrow> forEach f xs s')"

text \<open>
  \<open>buildPlayStats\<close>; \<open>ups\<close> is the value of \<open>uniquePlayers\<close>, which the function reads
  from its closure. The function returns the dictionary \<open>stats\<close>.
\<close>

definition buildPlayStats ::
  "clock \<Rightarrow> Spirit list \<Rightarrow> string list \<Rightarrow> Play list \<Rightarrow> error + PlayStats dict" where
  "buildPlayStats ts spirits ups ps =
     (case forEach (\<lambda>play st. forEach (recordPlay ts (date play)) (players play) st) ps
             (fold (initSpirit ups) spirits [], None) of
        Inl e \<Rightarrow> Inl e
      | Inr (stats, polluted) \<Rightarrow> Inr stats)"

definition playStats :: "clock \<Rightarrow> Spirit list \<Rightarrow> Play list \<Rightarrow> error + PlayStats dict" where
  "playStats ts spirits ps = buildPlayStats ts spirits (uniquePlayers ps) ps"

text \<open>The cell \<open>stats[c].playerStats[p]\<close>, when both keys are present.\<close>

definition cellAt :: "PlayStats dict \<Rightarrow> string \<Rightarrow> string \<Rightarrow> PlayerStats option" where
  "cellAt stats c p =
     (case map_of stats c of None \<Rightarrow> None | Some e \<Rightarrow> map_of (playerStats e) p)"

section \<open>Adversary aggregation: \<open>buildAdversaryStats\<close>\<close>

text \<open>\<open>Record<number, AdversaryLevelStats>\<close>: the statistics of one adversary by level.\<close>

type_synonym levelStats = "(int \<times> AdversaryLevelStats) list"

definition initLevels :: "Adversary \<Rightarrow> levelStats" where
  "initLevels a =
     fold (\<lambda>l m. AList.update (Level l) \<lparr>plays = 0, lastPlayed = None, difficulty = Difficulty l\<rparr> m)
       (Levels a)
       [(0, \<lparr>plays = 0, lastPlayed = None, difficulty = Base_Difficulty a\<rparr>)]"

definition initAdversary :: "Adversary \<Rightarrow> levelStats dict \<Rightarrow> levelStats dict" where
  "initAdversary a stats = AList.update (Adversary a) (initLevels a) stats"

text \<open>
  The loop body over the plays. \<open>play.adversary && stats[play.adversary]\<close> fails for a
  missing and for an empty adversary name; the level is
  \<open>play.level !== undefined ? Number(play.level) : 0\<close>, an integer here. Under a name
  that has not been assigned, \<open>stats[play.adversary]\<close> is what the dictionary inherits:
  \<open>undefined\<close>, a function, the object \<open>Object.prototype\<close>, or the statistics of one
  level (under the number of a level, when an adversary named \<open>__proto__\<close> has made its
  levels the prototype of \<open>stats\<close>). None of these has a property at a numeric level,
  so that the second guard fails and no branch of this loop throws.
\<close>

definition playLevel :: "Play \<Rightarrow> int" where
  "playLevel play = (case level play of None \<Rightarrow> 0 | Some l \<Rightarrow> l)"

definition recordAdversaryPlay :: "clock \<Rightarrow> Play \<Rightarrow> levelStats dict \<Rightarrow> levelStats dict" where
  "recordAdversaryPlay ts play stats =
     (case adversary play of
        None \<Rightarrow> stats
      | Some a \<Rightarrow>
          if a = [] then stats
          else (case map_of stats a of
             None \<Rightarrow> stats
           | Some m \<Rightarrow>
               (let lvl = playLevel play in
                case map_of m lvl of
                  None \<Rightarrow> stats
                | Some c \<Rightarrow> AList.update a (AList.update lvl (bump ts (date play) c) m) stats)))"

definition buildAdversaryStats :: "clock \<Rightarrow> Adversary list \<Rightarrow> Play list \<Rightarrow> levelStats dict" where
  "buildAdversaryStats ts adversaries ps =
     fold (recordAdversaryPlay ts) ps (fold initAdversary adversaries [])"

section \<open>\<open>Array.prototype.sort\<close> with a comparator\<close>

text \<open>
  The host sort is stable, and a comparator result of \<open>NaN\<close> (here \<open>None\<close>) counts as 0.
  For a comparator that is a consistent ordering the result is thereby determined; it
  is computed here by stable insertion.
\<close>

definition cmp_le :: "('a \<Rightarrow> 'a \<Rightarrow> int option) \<Rightarrow> 'a \<Rightarrow> 'a \<Rightarrow> bool" where
  "cmp_le cmp x y = (case cmp x y of None \<Rightarrow> True | Some v \<Rightarrow> v \<le> 0)"

fun insertBy :: "('a \<Rightarrow> 'a \<Rightarrow> int option) \<Rightarrow> 'a \<Rightarrow> 'a list \<Rightarrow> 'a list" where
  "insertBy cmp x [] = [x]"
| "insertBy cmp x (y # ys) = (if cmp_le cmp x y then x # y # ys else y # insertBy cmp x ys)"

definition sortBy :: "('a \<Rightarrow> 'a \<Rightarrow> int option) \<Rightarrow> 'a list \<Rightarrow> 'a list" where
  "sortBy cmp xs = foldr (insertBy cmp) xs []"

section \<open>Adversary recommendation: \<open>getAdversaryRecommendation\<close>\<close>

record AdversaryRecommendation =
  rec_adversary :: string
  rec_level :: int
  rec_difficulty :: int
  rec_lastPlayed :: "string option"
  rec_reason :: string

text \<open>
  \<open>formatDate\<close>; \<open>toLocaleDateString\<close> of the host is the parameter \<open>fmt\<close>, applied to the
  time value.
\<close>

definition formatDate :: "clock \<Rightarrow> (int option \<Rightarrow> string) \<Rightarrow> string option \<Rightarrow> string" where
  "formatDate ts fmt dateString =
     (case dateString of
        None \<Rightarrow> ''Never''
      | Some d \<Rightarrow> if d = [] then ''Never'' else fmt (ts d))"

text \<open>
  One iteration of \<open>for (let i = 0; i <= 6; i++)\<close> on the pair
  \<open>(highestLevelPlayed, mostRecentDate)\<close>.
\<close>

definition scanLevel ::
  "clock \<Rightarrow> levelStats option \<Rightarrow> int \<Rightarrow> int \<times> string option \<Rightarrow> int \<times> string option" where
  "scanLevel ts m i acc =
     (case (case m of None \<Rightarrow> None | Some lm \<Rightarrow> map_of lm i) of
        None \<Rightarrow> acc
      | Some levelStat \<Rightarrow>
          if 0 < plays levelStat then
            (max (fst acc) i,
             (case lastPlayed levelStat of
                None \<Rightarrow> snd acc
              | Some lp \<Rightarrow>
                  if lp = [] then snd acc
                  else (case snd acc of
                     None \<Rightarrow> Some lp
                   | Some mostRecentDate \<Rightarrow>
                       if mostRecentDate = [] \<or> date_gt (ts lp) (ts mostRecentDate)
                       then Some lp else Some mostRecentDate)))
          else acc)"

definition scanLevels :: "clock \<Rightarrow> levelStats option \<Rightarrow> int \<times> string option" where
  "scanLevels ts m = fold (scanLevel ts m) [0..6] (- 1, None)"

definition recommendAdversary ::
  "clock \<Rightarrow> (int option \<Rightarrow> string) \<Rightarrow> levelStats dict \<Rightarrow> Adversary \<Rightarrow> AdversaryRecommendation" where
  "recommendAdversary ts fmt adversaryStats a =
     (let (highestLevelPlayed, mostRecentDate) = scanLevels ts (map_of adversaryStats (Adversary a));
          nextLevel = min (highestLevelPlayed + 1) 6;
          difficulty =
            (if nextLevel = 0 then Base_Difficulty a
             else (case find (\<lambda>lvl. Level lvl = nextLevel) (Levels a) of
                Some levelData \<Rightarrow> Difficulty levelData
              | None \<Rightarrow> Base_Difficulty a))
      in \<lparr>rec_adversary = Adversary a, rec_level = nextLevel, rec_difficulty = difficulty,
          rec_lastPlayed = mostRecentDate,
          rec_reason = (if truthy mostRecentDate
                        then ''Last played '' @ formatDate ts fmt mostRecentDate
                        else ''Never played'')\<rparr>)"

text \<open>The comparator of the final \<open>sort\<close>; a difference with an invalid date is \<open>NaN\<close>.\<close>

definition compareRecs :: "clock \<Rightarrow> AdversaryRecommendation \<Rightarrow> AdversaryRecommendation \<Rightarrow> int option" where
  "compareRecs ts a b =
     (case rec_lastPlayed a of
        None \<Rightarrow> (case rec_lastPlayed b of None \<Rightarrow> Some 0 | Some _ \<Rightarrow> Some (- 1))
      | Some da \<Rightarrow>
          (case rec_lastPlayed b of
             None \<Rightarrow> Some 1
           | Some db \<Rightarrow>
               (case ts da of
                  None \<Rightarrow> None
                | Some x \<Rightarrow> (case ts db of None \<Rightarrow> None | Some y \<Rightarrow> Some (x - y)))))"

definition getAdversaryRecommendation ::
  "clock \<Rightarrow> (int option \<Rightarrow> string) \<Rightarrow> Adversary list \<Rightarrow> levelStats dict \<Rightarrow> AdversaryRecommendation list" where
  "getAdversaryRecommendation ts fmt adversaries adversaryStats =
     sortBy (compareRecs ts) (map (recommendAdversary ts fmt adversaryStats) adversaries)"

section \<open>Spirit recommendation: \<open>getRecommendations\<close>\<close>

text \<open>
  A recommendation holds \<open>unplayedSpirits[randomIndex]\<close>, which is \<open>undefined\<close> (\<open>None\<close>)
  for an index outside the array.
\<close>

record SpiritRecommendation =
  rec_spirit :: "Spirit option"
  reason :: string

definition complexityLevels :: "string list" where
  "complexityLevels = [''LOW'', ''MODERATE'', ''HIGH'', ''VERY HIGH'']"

text \<open>
  \<open>playStats[s.spirit].playerStats[player]\<close> for each spirit of the tier, in order; the
  first missing entry throws.
\<close>

fun lookupAll :: "PlayStats dict \<Rightarrow> string \<Rightarrow> Spirit list \<Rightarrow> error + (Spirit \<times> PlayerStats) list" where
  "lookupAll stats p [] = Inr []"
| "lookupAll stats p (s # ss) =
     (case cellAt stats (sp_spirit s) p of
        None \<Rightarrow> Inl TypeError
      | Some c \<Rightarrow> (case lookupAll stats p ss of Inl e \<Rightarrow> Inl e | Inr cs \<Rightarrow> Inr ((s, c) # cs)))"

text \<open>
  \<open>Math.floor(Math.random() * unplayedSpirits.length)\<close>, for the draw \<open>u\<close> of
  \<open>Math.random()\<close>, taken as an exact rational.
\<close>

definition randomIndex :: "rat \<Rightarrow> nat \<Rightarrow> int" where
  "randomIndex u n = \<lfloor>u * of_nat n\<rfloor>"

definition nthOpt :: "'a list \<Rightarrow> int \<Rightarrow> 'a option" where
  "nthOpt xs i = (if 0 \<le> i \<and> i < int (length xs) then Some (xs ! nat i) else None)"

text \<open>
  The search of the fully played tier on the pair \<open>(oldestPlayedSpirit, oldestDate)\<close>;
  it starts from \<open>(null, new Date())\<close>, the current time. The test
  \<open>lastPlayed && new Date(lastPlayed) < oldestDate\<close> fails for a falsy and for an
  invalid date.
\<close>

definition oldestStep :: "clock \<Rightarrow> Spirit \<times> PlayerStats \<Rightarrow> Spirit option \<times> int \<Rightarrow> Spirit option \<times> int" where
  "oldestStep ts sc acc =
     (case lastPlayed (snd sc) of
        None \<Rightarrow> acc
      | Some lp \<Rightarrow>
          if lp = [] then acc
          else (case ts lp of
             None \<Rightarrow> acc
           | Some t \<Rightarrow> if t < snd acc then (Some (fst sc), t) else acc))"

definition recommendFor ::
  "clock \<Rightarrow> (int option \<Rightarrow> string) \<Rightarrow> int \<Rightarrow> rat \<Rightarrow> Spirit list \<Rightarrow> PlayStats dict
     \<Rightarrow> string \<Rightarrow> string \<Rightarrow> error + SpiritRecommendation option" where
  "recommendFor ts fmt now u spirits stats p complexity =
     (let complexitySpirits = filter (\<lambda>s. sp_complexity s = complexity) spirits in
      case lookupAll stats p complexitySpirits of
        Inl e \<Rightarrow> Inl e
      | Inr cells \<Rightarrow>
          (let unplayedSpirits = map fst (filter (\<lambda>sc. plays (snd sc) = 0) cells) in
           if 0 < length unplayedSpirits then
             Inr (Some \<lparr>rec_spirit = nthOpt unplayedSpirits (randomIndex u (length unplayedSpirits)),
                        reason = ''Never played''\<rparr>)
           else
             (let (oldestPlayedSpirit, oldestDate) = fold (oldestStep ts) cells (None, now) in
              case oldestPlayedSpirit of
                None \<Rightarrow> Inr None
              | Some s \<Rightarrow>
                  Inr (Some \<lparr>rec_spirit = Some s,
                             reason = ''Last played '' @ fmt (Some oldestDate)\<rparr>))))"

text \<open>
  The two nested \<open>forEach\<close> loops; \<open>rnd player complexity\<close> is the draw of
  \<open>Math.random()\<close> made for that player and tier.
\<close>

fun tierRecommendations ::
  "(string \<Rightarrow> error + SpiritRecommendation option) \<Rightarrow> string list \<Rightarrow> SpiritRecommendation dict
     \<Rightarrow> error + SpiritRecommendation dict" where
  "tierRecommendations f [] m = Inr m"
| "tierRecommendations f (complexity # cs) m =
     (case f complexity of
        Inl e \<Rightarrow> Inl e
      | Inr None \<Rightarrow> tierRecommendations f cs m
      | Inr (Some r) \<Rightarrow> tierRecommendations f cs (AList.update complexity r m))"

fun playerRecommendations ::
  "(string \<Rightarrow> string \<Rightarrow> error + SpiritRecommendation option) \<Rightarrow> string list
     \<Rightarrow> SpiritRecommendation dict dict \<Rightarrow> error + SpiritRecommendation dict dict" where
  "playerRecommendations f [] recs = Inr recs"
| "playerRecommendations f (p # ps) recs =
     (case tierRecommendations (f p) complexityLevels [] of
        Inl e \<Rightarrow> Inl e
      | Inr m \<Rightarrow> playerRecommendations f ps (AList.update p m recs))"

definition getRecommendations ::
  "clock \<Rightarrow> (int option \<Rightarrow> string) \<Rightarrow> int \<Rightarrow> (string \<Rightarrow> string \<Rightarrow> rat) \<Rightarrow> Spirit list
     \<Rightarrow> string list \<Rightarrow> PlayStats dict \<Rightarrow> error + SpiritRecommendation dict dict" where
  "getRecommendations ts fmt now rnd spirits ups stats =
     playerRecommendations
       (\<lambda>p complexity. recommendFor ts fmt now (rnd p complexity) spirits stats p complexity)
       ups []"

text \<open>
  The body of the component up to \<open>const recommendations = getRecommendations()\<close>: the
  statistics are built first, and an exception ends the rendering.
\<close>

definition recommendations ::
  "clock \<Rightarrow> (int option \<Rightarrow> string) \<Rightarrow> int \<Rightarrow> (string \<Rightarrow> string \<Rightarrow> rat) \<Rightarrow> Spirit list
     \<Rightarrow> Play list \<Rightarrow> error + SpiritRecommendation dict dict" where
  "recommendations ts fmt now rnd spirits ps =
     (case playStats ts spirits ps of
        Inl e \<Rightarrow> Inl e
      | Inr stats \<Rightarrow> getRecommendations ts fmt now rnd spirits (uniquePlayers ps) stats)"

section \<open>Sorting the table: \<open>handleSort\<close> and \<open>sortedPlayStats\<close>\<close>

datatype direction = Asc | Desc

record SortConfig =
  key :: string
  direction :: direction

definition handleSort :: "string \<Rightarrow> SortConfig option \<Rightarrow> SortConfig option" where
  "handleSort k sortConfig =
     Some \<lparr>key = k,
           direction =
             (case sortConfig of
                None \<Rightarrow> Asc
              | Some sc \<Rightarrow> if key sc = k \<and> direction sc = Asc then Desc else Asc)\<rparr>"

text \<open>
  The keys that the column headers of a participant pass to \<open>handleSort\<close>:
  \<open>`player-${player}-plays`\<close> and \<open>`player-${player}-lastPlayed`\<close>.
\<close>

definition headerKey :: "string \<Rightarrow> string \<Rightarrow> string" where
  "headerKey p stat = ''player-'' @ p @ ''-'' @ stat"

text \<open>\<open>String.prototype.split\<close> on a one-character separator.\<close>

fun split :: "char \<Rightarrow> string \<Rightarrow> string list" where
  "split c [] = [[]]"
| "split c (x # xs) =
     (let r = split c xs in if x = c then [] # r else (x # hd r) # tl r)"

definition nthStr :: "string list \<Rightarrow> nat \<Rightarrow> string option" where
  "nthStr xs i = (if i < length xs then Some (xs ! i) else None)"

text \<open>\<open>a.spirit[key as keyof Spirit]\<close>: a field of the spirit, \<open>undefined\<close> for any other key.\<close>

definition spiritField :: "string \<Rightarrow> Spirit \<Rightarrow> string option" where
  "spiritField k s =
     (if k = ''spirit'' then Some (sp_spirit s)
      else if k = ''complexity'' then Some (sp_complexity s)
      else if k = ''source'' then Some (sp_source s)
      else if k = ''image_url'' then Some (sp_image_url s)
      else None)"

text \<open>
  The values compared for a key \<open>player-<p>-<stat>\<close>:
  \<open>a.playerStats[playerKey]?.[statKey] || (statKey === "plays" ? 0 : "")\<close>. For
  \<open>plays\<close> they are numbers, a missing cell and a count of 0 both giving 0; for any
  other \<open>statKey\<close> they are strings, a missing cell, \<open>null\<close> and a property that the
  cell does not have all giving the empty string. The headers pass the names of the
  recognized participants only; an inherited name in place of the participant is
  read here as a missing cell.
\<close>

definition playsValue :: "string option \<Rightarrow> PlayStats \<Rightarrow> nat" where
  "playsValue playerKey a =
     (case (case playerKey of None \<Rightarrow> None | Some p \<Rightarrow> map_of (playerStats a) p) of
        None \<Rightarrow> 0
      | Some c \<Rightarrow> plays c)"

definition stringValue :: "string option \<Rightarrow> string option \<Rightarrow> PlayStats \<Rightarrow> string" where
  "stringValue playerKey statKey a =
     (case (case playerKey of None \<Rightarrow> None | Some p \<Rightarrow> map_of (playerStats a) p) of
        None \<Rightarrow> []
      | Some c \<Rightarrow>
          if statKey = Some ''lastPlayed'' then (case lastPlayed c of None \<Rightarrow> [] | Some d \<Rightarrow> d)
          else [])"

definition ordered :: "direction \<Rightarrow> bool \<Rightarrow> bool \<Rightarrow> int" where
  "ordered dir lt gt =
     (if lt then (if dir = Asc then - 1 else 1)
      else if gt then (if dir = Asc then 1 else - 1)
      else 0)"

definition comparePlayStats :: "SortConfig \<Rightarrow> PlayStats \<Rightarrow> PlayStats \<Rightarrow> int option" where
  "comparePlayStats sc a b =
     (if take 7 (key sc) = ''player-'' then
        (let playerKey = nthStr (split CHR ''-'' (key sc)) 1;
             statKey = nthStr (split CHR ''-'' (key sc)) 2
         in if statKey = Some ''plays''
            then Some (ordered (direction sc) (playsValue playerKey a < playsValue playerKey b)
                                              (playsValue playerKey b < playsValue playerKey a))
            else Some (ordered (direction sc)
                         (stringValue playerKey statKey a < stringValue playerKey statKey b)
                         (stringValue playerKey statKey b < stringValue playerKey statKey a)))
      else
        (case (spiritField (key sc) (ps_spirit a), spiritField (key sc) (ps_spirit b)) of
           (Some x, Some y) \<Rightarrow> Some (ordered (direction sc) (x < y) (y < x))
         | _ \<Rightarrow> Some 0))"

definition sortedPlayStats :: "SortConfig option \<Rightarrow> PlayStats dict \<Rightarrow> PlayStats list" where
  "sortedPlayStats sortConfig stats =
     (case sortConfig of
        None \<Rightarrow> objectValues stats
      | Some sc \<Rightarrow> sortBy (comparePlayStats sc) (objectValues stats))"

section \<open>Summary\<close>







section \<open>Notions of the specification\<close>

text \<open>
  The pair \<open>(p, c)\<close> of a participant and a character as it stands in a play record, the
  records whose participant list contains it, and the number of times it is listed.
\<close>

definition pair :: "string \<Rightarrow> string \<Rightarrow> Player" where
  "pair p c = \<lparr>player = p, spirit = c\<rparr>"

definition contributing :: "Play list \<Rightarrow> string \<Rightarrow> string \<Rightarrow> Play list" where
  "contributing ps p c = filter (\<lambda>play. pair p c \<in> set (players play)) ps"

definition occurrences :: "Play list \<Rightarrow> string \<Rightarrow> string \<Rightarrow> nat" where
  "occurrences ps p c = sum_list (map (\<lambda>play. count_list (players play) (pair p c)) ps)"

text \<open>
  \<open>isLatest ts ds v\<close>: the optional date \<open>v\<close> is the maximum of the dates \<open>ds\<close>, by
  time value: absent exactly when there is no date, and otherwise one of the dates,
  with no date of \<open>ds\<close> later than it.
\<close>

definition isLatest :: "clock \<Rightarrow> string list \<Rightarrow> string option \<Rightarrow> bool" where
  "isLatest ts ds v =
     (case v of
        None \<Rightarrow> ds = []
      | Some d \<Rightarrow>
          d \<in> set ds \<and> (\<exists>t. ts d = Some t \<and> (\<forall>d' \<in> set ds. \<exists>t'. ts d' = Some t' \<and> t' \<le> t)))"

text \<open>
  The two nested loops of the aggregation visit the participant entries of the log in
  order, each with the date of its record.
\<close>

definition entries :: "Play list \<Rightarrow> (string \<times> Player) list" where
  "entries ps = concat (map (\<lambda>play. map (Pair (date play)) (players play)) ps)"

definition datesOf :: "Play list \<Rightarrow> string \<Rightarrow> string \<Rightarrow> string list" where
  "datesOf ps p c =
     map fst (filter (\<lambda>e. spirit (snd e) = c \<and> player (snd e) = p) (entries ps))"

text \<open>
  The aggregation when no lookup throws: the loop body without its failing branches,
  iterated over the log.
\<close>

definition tally :: "clock \<Rightarrow> string \<Rightarrow> Player \<Rightarrow> PlayStats dict \<Rightarrow> PlayStats dict" where
  "tally ts d pl stats =
     (case map_of stats (spirit pl) of
        None \<Rightarrow> stats
      | Some e \<Rightarrow>
          (case map_of (playerStats e) (player pl) of
             None \<Rightarrow> stats
           | Some c \<Rightarrow>
               AList.update (spirit pl)
                 (e\<lparr>playerStats := AList.update (player pl) (bump ts d c) (playerStats e)\<rparr>)
                 stats))"

definition tallyAll :: "clock \<Rightarrow> Spirit list \<Rightarrow> string list \<Rightarrow> Play list \<Rightarrow> PlayStats dict" where
  "tallyAll ts spirits ups ps =
     fold (\<lambda>play stats. fold (tally ts (date play)) (players play) stats) ps
       (fold (initSpirit ups) spirits [])"

text \<open>
  A sufficient condition for the aggregation to return. A participant entry is safe for
  a catalog when its participant is not \<open>__proto__\<close> and its character is in the
  catalog, or else is none of the names that make the guard throw: a property name of
  \<open>Object.prototype\<close>, or \<open>spirit\<close> or \<open>playerStats\<close> when the catalog holds a character
  named \<open>__proto__\<close>. A log is safe when all its participant entries are.
\<close>

definition safeEntry :: "Spirit list \<Rightarrow> Player \<Rightarrow> bool" where
  "safeEntry spirits pl =
     (player pl \<noteq> ''__proto__''
      \<and> (spirit pl \<in> sp_spirit ` set spirits
         \<or> (spirit pl \<notin> set inheritedKeys
            \<and> (''__proto__'' \<notin> sp_spirit ` set spirits
               \<or> (spirit pl \<noteq> ''spirit'' \<and> spirit pl \<noteq> ''playerStats'')))))"

definition safeSpirits :: "Spirit list \<Rightarrow> Play list \<Rightarrow> bool" where
  "safeSpirits spirits ps = list_all (\<lambda>play. list_all (safeEntry spirits) (players play)) ps"





text \<open>
  The keys of the statistics: the play statistics have one entry per character name and
  in it one cell per recognized participant; the adversary statistics have one entry
  per adversary name, whose levels are 0 and the levels a catalog entry of that name
  declares.
\<close>

definition statsKeys :: "string set \<Rightarrow> string set \<Rightarrow> PlayStats dict \<Rightarrow> bool" where
  "statsKeys names ups stats =
     (dom (map_of stats) = names \<and>
      (\<forall>c e. map_of stats c = Some e \<longrightarrow> dom (map_of (playerStats e)) = ups))"

definition advKeys :: "Adversary list \<Rightarrow> levelStats dict \<Rightarrow> bool" where
  "advKeys adversaries stats =
     (dom (map_of stats) = Adversary ` set adversaries \<and>
      (\<forall>a m. map_of stats a = Some m \<longrightarrow>
         (\<exists>adv \<in> set adversaries. Adversary adv = a \<and>
            dom (map_of m) = insert 0 (Level ` set (Levels adv)))))"

text \<open>
  The levels of an adversary that count as played: those of 0 to 6 that are present in
  its statistics with at least one play. The highest of them, or \<open>-1\<close> when there is
  none.
\<close>

definition levelAt :: "levelStats option \<Rightarrow> int \<Rightarrow> AdversaryLevelStats option" where
  "levelAt m i = (case m of None \<Rightarrow> None | Some lm \<Rightarrow> map_of lm i)"

definition levelPlayed :: "levelStats option \<Rightarrow> int \<Rightarrow> bool" where
  "levelPlayed m i = (case levelAt m i of None \<Rightarrow> False | Some st \<Rightarrow> 0 < plays st)"

definition highestPlayedLevel :: "levelStats option \<Rightarrow> int" where
  "highestPlayedLevel m = Max (insert (- 1) (set (filter (levelPlayed m) [0..6])))"

text \<open>
  The plays that the aggregation counts for an adversary at one level, and the plays that
  the recommendation looks at: those counted at a level of 0 to 6 present in the
  statistics of the adversary.
\<close>

definition playsAt :: "Play list \<Rightarrow> string \<Rightarrow> int \<Rightarrow> Play list" where
  "playsAt ps a l = filter (\<lambda>play. a \<noteq> [] \<and> adversary play = Some a \<and> playLevel play = l) ps"

definition countedPlays :: "Play list \<Rightarrow> levelStats option \<Rightarrow> string \<Rightarrow> Play list" where
  "countedPlays ps m a =
     filter (\<lambda>play. a \<noteq> [] \<and> adversary play = Some a \<and> 0 \<le> playLevel play \<and> playLevel play \<le> 6
               \<and> levelAt m (playLevel play) \<noteq> None) ps"

text \<open>
  The update of \<open>mostRecentDate\<close> by the last-played date \<open>lp\<close> of a played level.
\<close>

definition mergeLatest :: "clock \<Rightarrow> string option \<Rightarrow> string \<Rightarrow> string option" where
  "mergeLatest ts v lp =
     (case v of None \<Rightarrow> Some lp
      | Some mr \<Rightarrow> if mr = [] \<or> date_gt (ts lp) (ts mr) then Some lp else Some mr)"

text \<open>
  The sort key of a recommendation: never played before every date, dates by time.
\<close>

definition recKey :: "clock \<Rightarrow> AdversaryRecommendation \<Rightarrow> int option" where
  "recKey ts r = (case rec_lastPlayed r of None \<Rightarrow> None | Some d \<Rightarrow> ts d)"


text \<open>
  The members of a complexity tier, those of them with zero plays by a participant, and
  the time of the last play of a character by a participant: the maximum over the
  records containing the pair, absent when there is none (an absent time is below
  every time).
\<close>

definition tierOf :: "Spirit list \<Rightarrow> string \<Rightarrow> Spirit list" where
  "tierOf spirits complexity = filter (\<lambda>s. sp_complexity s = complexity) spirits"

definition unplayedOf :: "Play list \<Rightarrow> string \<Rightarrow> Spirit list \<Rightarrow> Spirit list" where
  "unplayedOf ps p tier = filter (\<lambda>s. occurrences ps p (sp_spirit s) = 0) tier"

definition lastTime :: "clock \<Rightarrow> Play list \<Rightarrow> string \<Rightarrow> string \<Rightarrow> int option" where
  "lastTime ts ps p c = fold max (map (\<lambda>play. ts (date play)) (contributing ps p c)) None"

text \<open>The time that the search of the oldest spirit reads from a cell.\<close>

definition cellTime :: "clock \<Rightarrow> PlayerStats \<Rightarrow> int option" where
  "cellTime ts c = (case lastPlayed c of None \<Rightarrow> None | Some lp \<Rightarrow> if lp = [] then None else ts lp)"

text \<open>
  The cells that the recommendation reads for the members of a tier, as the aggregation
  leaves them.
\<close>

definition tierCells :: "clock \<Rightarrow> Play list \<Rightarrow> string \<Rightarrow> Spirit list \<Rightarrow> (Spirit \<times> PlayerStats) list" where
  "tierCells ts ps p tier =
     map (\<lambda>s. (s, fold (bump ts) (datesOf ps p (sp_spirit s)) \<lparr>plays = 0, lastPlayed = None\<rparr>)) tier"

section \<open>Example inputs\<close>

definition ex_River :: Spirit where
  "ex_River = \<lparr>sp_spirit = ''River'', sp_complexity = ''LOW'', sp_source = ''Base'', sp_image_url = []\<rparr>"

definition ex_Fangs :: Spirit where
  "ex_Fangs = \<lparr>sp_spirit = ''Fangs'', sp_complexity = ''LOW'', sp_source = ''Branch'', sp_image_url = []\<rparr>"

definition ex_play :: "string \<Rightarrow> (string \<times> string) list \<Rightarrow> Play" where
  "ex_play d pcs =
     \<lparr>date = d, players = map (\<lambda>(p, c). pair p c) pcs, adversary = None, level = None\<rparr>"

definition ex_log3 :: "Play list" where
  "ex_log3 = [ex_play ''2024-01-01'' [(''A'', ''River'')],
              ex_play ''2024-03-15'' [(''A'', ''River''), (''E'', ''Fangs'')],
              ex_play ''2024-02-10'' [(''A'', ''River'')]]"

definition ex_twice :: "Play list" where
  "ex_twice = [ex_play ''2024-01-01'' [(''A'', ''River''), (''A'', ''River'')]]"

definition ex_level :: "int \<Rightarrow> int \<Rightarrow> AdversaryLevel" where
  "ex_level n d = \<lparr>Level = n, Difficulty = d, Fear_Cards = [], Game_Effects = []\<rparr>"

definition ex_adversary :: "string \<Rightarrow> int \<Rightarrow> AdversaryLevel list \<Rightarrow> Adversary" where
  "ex_adversary a b ls =
     \<lparr>Adversary = a, Base_Difficulty = b, Additional_Loss_Condition = [], URL = [],
      Escalation = [], Levels = ls\<rparr>"

definition ex_Prussia :: Adversary where
  "ex_Prussia = ex_adversary ''Prussia'' 1 [ex_level 1 2, ex_level 2 4, ex_level 3 6]"

definition ex_Sweden :: Adversary where
  "ex_Sweden = ex_adversary ''Sweden'' 1 [ex_level 1 2, ex_level 3 5]"

definition ex_against :: "string \<Rightarrow> string \<Rightarrow> int option \<Rightarrow> Play" where
  "ex_against d a l = \<lparr>date = d, players = [pair ''A'' ''River''], adversary = Some a, level = l\<rparr>"

definition ex_advlog :: "Play list" where
  "ex_advlog = [ex_against ''2024-01-01'' ''Prussia'' None,
                ex_against ''2024-02-10'' ''Prussia'' (Some 1),
                ex_against ''2024-01-20'' ''Sweden'' (Some 1),
                ex_against ''2024-01-05'' ''Sweden'' None]"

text \<open>
  A host date format for the examples: the day number since 1970-01-01, in five digits.
\<close>

definition ex_fmt :: "int option \<Rightarrow> string" where
  "ex_fmt t =
     (case t of
        None \<Rightarrow> ''Invalid Date''
      | Some ms \<Rightarrow>
          ''day '' @ map (\<lambda>i. ''0123456789'' ! nat ((ms div 86400000 div 10 ^ i) mod 10))
                      [4, 3, 2, 1, 0 :: nat])"

definition ex_France :: Adversary where
  "ex_France = ex_adversary ''France'' 2 [ex_level 1 3]"

definition ex_advs :: "Adversary list" where
  "ex_advs = [ex_Prussia, ex_France, ex_Sweden]"


definition ex_Ocean :: Spirit where
  "ex_Ocean = \<lparr>sp_spirit = ''Ocean'', sp_complexity = ''HIGH'', sp_source = ''Base'', sp_image_url = []\<rparr>"

definition ex_log021 :: "Play list" where
  "ex_log021 = [ex_play ''2024-01-01'' [(''A'', ''Fangs'')],
                ex_play ''2024-03-01'' [(''A'', ''Ocean'')],
                ex_play ''2024-02-01'' [(''A'', ''Fangs'')]]"

definition ex_cat3 :: "Spirit list" where
  "ex_cat3 = [ex_River, ex_Fangs, ex_Ocean]"

text \<open>Two current times: 2025-01-01 and 2024-02-29, 23:00 UTC.\<close>

definition ex_now :: int where
  "ex_now = 1735689600000"

definition ex_early :: int where
  "ex_early = 1709247600000"

definition ex_once :: "Play list" where
  "ex_once = [ex_play ''2024-03-01'' [(''A'', ''Ocean'')]]"

text \<open>Random draws for the examples: every draw is one half.\<close>

definition ex_rnd :: "string \<Rightarrow> string \<Rightarrow> rat" where
  "ex_rnd p complexity = 1 / 2"

text \<open>
  A log in which \<open>A\<close> has played both characters of the tier \<open>LOW\<close>, one of them before
  and one after the earlier of the two current times.
\<close>

definition ex_mixed :: "Play list" where
  "ex_mixed = [ex_play ''2024-01-01'' [(''A'', ''River'')],
               ex_play ''2024-03-01'' [(''A'', ''Fangs'')]]"





section \<open>Properties of the play aggregation\<close>

subsection \<open>One cell of the statistics\<close>

lemma cellAt_tally:
  "cellAt (tally ts d pl stats) c p =
     (if c = spirit pl \<and> p = player pl then map_option (bump ts d) (cellAt stats c p)
      else cellAt stats c p)"
  by (auto simp: cellAt_def tally_def AList.update_conv' split: option.splits)

lemma map_of_initPlayerStats_aux:
  "map_of (fold (\<lambda>p st. AList.update p z st) ups st0) p =
     (if p \<in> set ups then Some z else map_of st0 p)"
  by (induction ups arbitrary: st0) (auto simp: AList.update_conv')

lemma map_of_initPlayerStats:
  "map_of (initPlayerStats ups) p =
     (if p \<in> set ups then Some \<lparr>plays = 0, lastPlayed = None\<rparr> else None)"
  by (simp add: initPlayerStats_def map_of_initPlayerStats_aux)

lemma cellAt_init_aux:
  "cellAt (fold (initSpirit ups) spirits st0) c p =
     (if c \<in> sp_spirit ` set spirits
      then (if p \<in> set ups then Some \<lparr>plays = 0, lastPlayed = None\<rparr> else None)
      else cellAt st0 c p)"
  by (induction spirits arbitrary: st0)
     (auto simp: cellAt_def initSpirit_def AList.update_conv' map_of_initPlayerStats)

lemma fold_players_entries:
  "fold (\<lambda>play stats. fold (tally ts (date play)) (players play) stats) ps stats =
   fold (\<lambda>e. tally ts (fst e) (snd e)) (entries ps) stats"
proof (induction ps arbitrary: stats)
  case Nil
  show ?case by (simp add: entries_def)
next
  case (Cons play ps)
  have "fold (tally ts (date play)) pls st =
        fold (\<lambda>e. tally ts (fst e) (snd e)) (map (Pair (date play)) pls) st" for pls st
    by (induction pls arbitrary: st) simp_all
  with Cons show ?case by (simp add: entries_def)
qed

lemma cellAt_fold_entries:
  "cellAt (fold (\<lambda>e. tally ts (fst e) (snd e)) es stats) c p =
   map_option (fold (bump ts) (map fst (filter (\<lambda>e. spirit (snd e) = c \<and> player (snd e) = p) es)))
     (cellAt stats c p)"
proof (induction es arbitrary: stats)
  case Nil
  show ?case by (simp add: option.map_ident)
next
  case (Cons e es)
  show ?case
    by (cases "cellAt stats c p") (auto simp: Cons cellAt_tally)
qed

lemma cellAt_tallyAll:
  "cellAt (tallyAll ts spirits ups ps) c p =
     (if c \<in> sp_spirit ` set spirits \<and> p \<in> set ups
      then Some (fold (bump ts) (datesOf ps p c) \<lparr>plays = 0, lastPlayed = None\<rparr>)
      else None)"
  unfolding tallyAll_def fold_players_entries cellAt_fold_entries cellAt_init_aux datesOf_def
  by (simp add: cellAt_def)

lemma plays_fold_bump: "plays (fold (bump ts) ds c) = plays c + length ds"
  by (induction ds arbitrary: c) (simp_all add: bump_def Let_def split: option.splits)

lemma isLatest_bump:
  assumes "isLatest ts ds0 (lastPlayed c)" "list_all (validDate ts) ds0" "validDate ts d"
  shows "isLatest ts (ds0 @ [d]) (lastPlayed (bump ts d c))"
proof (cases "lastPlayed c")
  case None
  with assms show ?thesis
    by (auto simp: isLatest_def bump_def validDate_def)
next
  case (Some cur)
  with assms(1) obtain tc where cur: "cur \<in> set ds0" "ts cur = Some tc"
    and mx: "\<forall>d' \<in> set ds0. \<exists>t'. ts d' = Some t' \<and> t' \<le> tc"
    by (auto simp: isLatest_def)
  from cur assms(2) have ne: "cur \<noteq> []" by (auto simp: list_all_iff validDate_def)
  from assms(3) obtain td where td: "ts d = Some td" by (auto simp: validDate_def)
  show ?thesis
  proof (cases "tc < td")
    case True
    then have "lastPlayed (bump ts d c) = Some d"
      using Some ne cur td by (simp add: bump_def date_gt_def)
    moreover have "\<forall>d' \<in> set (ds0 @ [d]). \<exists>t'. ts d' = Some t' \<and> t' \<le> td"
      using mx td True by fastforce
    ultimately show ?thesis using td by (simp add: isLatest_def)
  next
    case False
    then have "lastPlayed (bump ts d c) = Some cur"
      using Some ne cur td by (simp add: bump_def date_gt_def)
    moreover have "\<forall>d' \<in> set (ds0 @ [d]). \<exists>t'. ts d' = Some t' \<and> t' \<le> tc"
      using mx td False by fastforce
    ultimately show ?thesis using cur by (simp add: isLatest_def)
  qed
qed

lemma lastPlayed_fold_bump:
  assumes "list_all (validDate ts) ds" "isLatest ts ds0 (lastPlayed c)" "list_all (validDate ts) ds0"
  shows "isLatest ts (ds0 @ ds) (lastPlayed (fold (bump ts) ds c))"
  using assms
proof (induction ds arbitrary: c ds0)
  case Nil
  then show ?case by simp
next
  case (Cons d ds)
  have "isLatest ts (ds0 @ [d]) (lastPlayed (bump ts d c))"
    using Cons.prems by (intro isLatest_bump) simp_all
  moreover have "list_all (validDate ts) (ds0 @ [d])" using Cons.prems by simp
  moreover have "list_all (validDate ts) ds" using Cons.prems by simp
  ultimately have "isLatest ts ((ds0 @ [d]) @ ds) (lastPlayed (fold (bump ts) ds (bump ts d c)))"
    by (rule Cons.IH[rotated])
  then show ?case by simp
qed

lemma isLatest_fold_bump:
  assumes "list_all (validDate ts) ds"
  shows "isLatest ts ds (lastPlayed (fold (bump ts) ds \<lparr>plays = 0, lastPlayed = None\<rparr>))"
  using lastPlayed_fold_bump[OF assms, of "[]" "\<lparr>plays = 0, lastPlayed = None\<rparr>"]
  by (simp add: isLatest_def)

lemma pair_eq: "(pl = pair p c) = (spirit pl = c \<and> player pl = p)"
  by (cases pl) (auto simp: pair_def)

lemma set_datesOf: "set (datesOf ps p c) = date ` set (contributing ps p c)"
proof -
  have "set (datesOf ps p c) = {date play | play pl. play \<in> set ps \<and> pl \<in> set (players play) \<and> pl = pair p c}"
    unfolding datesOf_def entries_def pair_eq by (auto simp: image_iff) blast+
  also have "\<dots> = date ` set (contributing ps p c)"
    unfolding contributing_def by auto
  finally show ?thesis .
qed

lemma length_filter_pair:
  "length (filter (\<lambda>e. spirit (snd e) = c \<and> player (snd e) = p) (map (Pair d) pls))
     = count_list pls (pair p c)"
  by (induction pls) (auto simp: pair_eq)

lemma length_datesOf: "length (datesOf ps p c) = occurrences ps p c"
  unfolding datesOf_def entries_def occurrences_def
  by (induction ps) (simp_all add: length_filter_pair del: length_filter_map)

lemma mset_entries: "mset ps' = mset ps \<Longrightarrow> mset (entries ps') = mset (entries ps)"
proof -
  have "mset (entries qs) = (\<Sum>x\<in>#mset qs. mset (map (Pair (date x)) (players x)))" for qs
    by (induction qs) (simp_all add: entries_def)
  then show "mset ps' = mset ps \<Longrightarrow> mset (entries ps') = mset (entries ps)"
    by simp
qed

lemma mset_datesOf: "mset ps' = mset ps \<Longrightarrow> mset (datesOf ps' p c) = mset (datesOf ps p c)"
  using mset_entries[of ps' ps] unfolding datesOf_def by simp

lemma valid_datesOf: "validDates ts ps \<Longrightarrow> list_all (validDate ts) (datesOf ps p c)"
  by (auto simp: validDates_def list_all_iff set_datesOf contributing_def)

lemma set_dedup: "set (dedup seen xs) = set seen \<union> set xs"
  by (induction seen xs rule: dedup.induct) auto

lemma distinct_dedup: "distinct seen \<Longrightarrow> distinct (dedup seen xs)"
  by (induction seen xs rule: dedup.induct) auto

lemma set_uniquePlayers:
  "set (uniquePlayers ps) = {p. (p = ''A'' \<or> p = ''E'') \<and> (\<exists>play \<in> set ps. p \<in> player ` set (players play))}"
  by (auto simp: uniquePlayers_def set_dedup)

lemma distinct_uniquePlayers: "distinct (uniquePlayers ps)"
  by (simp add: uniquePlayers_def distinct_dedup)

lemma sorted_uniquePlayers: "sorted (uniquePlayers ps)"
  by (simp add: uniquePlayers_def)

lemma uniquePlayers_perm: "mset ps' = mset ps \<Longrightarrow> uniquePlayers ps' = uniquePlayers ps"
proof -
  assume "mset ps' = mset ps"
  then have "set ps' = set ps" by (rule mset_eq_setD)
  then have "set (uniquePlayers ps') = set (uniquePlayers ps)"
    by (simp add: set_uniquePlayers)
  then show ?thesis
    by (intro sorted_distinct_set_unique sorted_uniquePlayers distinct_uniquePlayers)
qed

lemma isLatest_unique:
  assumes "isLatest ts ds v" "isLatest ts ds' v'" "set ds = set ds'"
  shows "map_option ts v = map_option ts v'"
proof (cases v)
  case None
  with assms show ?thesis by (cases v') (auto simp: isLatest_def)
next
  case (Some d)
  with assms(1) obtain t where d: "d \<in> set ds" "ts d = Some t"
    and mx: "\<forall>d' \<in> set ds. \<exists>t'. ts d' = Some t' \<and> t' \<le> t"
    by (auto simp: isLatest_def)
  from d assms(2,3) obtain e where v': "v' = Some e" by (cases v') (auto simp: isLatest_def)
  with assms(2) obtain u where e: "e \<in> set ds'" "ts e = Some u"
    and mx': "\<forall>d' \<in> set ds'. \<exists>t'. ts d' = Some t' \<and> t' \<le> u"
    by (auto simp: isLatest_def)
  from mx e assms(3) have "u \<le> t" by fastforce
  moreover from mx' d assms(3) have "t \<le> u" by fastforce
  ultimately show ?thesis using Some v' d e by simp
qed

lemma count_list_distinct: "distinct xs \<Longrightarrow> count_list xs y = (if y \<in> set xs then 1 else 0)"
  by (induction xs) auto

lemma occurrences_distinct:
  "list_all (\<lambda>play. distinct (players play)) ps \<Longrightarrow> occurrences ps p c = length (contributing ps p c)"
  unfolding occurrences_def contributing_def
  by (induction ps) (simp_all add: count_list_distinct)

lemma lastPlayed_bump: "lastPlayed (bump ts d c) \<noteq> None"
  by (simp add: bump_def Let_def split: option.splits)

lemma lastPlayed_fold_bump_None:
  "(lastPlayed (fold (bump ts) ds c) = None) = (ds = [] \<and> lastPlayed c = None)"
proof (induction ds arbitrary: c)
  case Nil
  show ?case by simp
next
  case (Cons d ds)
  then show ?case by (simp add: lastPlayed_bump)
qed

subsection \<open>The keys of the statistics\<close>

lemma dom_initPlayerStats: "dom (map_of (initPlayerStats ups)) = set ups"
  by (auto simp: map_of_initPlayerStats dom_def)

lemma statsKeys_init_aux:
  "statsKeys names (set ups) st0 \<Longrightarrow>
   statsKeys (names \<union> sp_spirit ` set spirits) (set ups) (fold (initSpirit ups) spirits st0)"
proof (induction spirits arbitrary: st0 names)
  case Nil
  then show ?case by simp
next
  case (Cons s spirits)
  have "statsKeys (insert (sp_spirit s) names) (set ups) (initSpirit ups s st0)"
    using Cons.prems
    by (auto simp: statsKeys_def initSpirit_def AList.update_conv' dom_initPlayerStats)
  from Cons.IH[OF this] show ?case by simp
qed

lemma statsKeys_init:
  "statsKeys (sp_spirit ` set spirits) (set ups) (fold (initSpirit ups) spirits [])"
  using statsKeys_init_aux[of "{}" ups "[]" spirits] by (simp add: statsKeys_def)

lemma statsKeys_tally:
  "statsKeys names ups stats \<Longrightarrow> statsKeys names ups (tally ts d pl stats)"
  unfolding statsKeys_def tally_def
  by (auto simp: AList.update_conv' split: option.splits if_splits)

lemma statsKeys_fold_tally:
  "statsKeys names ups stats \<Longrightarrow> statsKeys names ups (fold (tally ts d) pls stats)"
  by (induction pls arbitrary: stats) (simp_all add: statsKeys_tally)

lemma statsKeys_fold_plays:
  "statsKeys names ups stats \<Longrightarrow>
   statsKeys names ups (fold (\<lambda>play stats. fold (tally ts (date play)) (players play) stats) ps stats)"
  by (induction ps arbitrary: stats) (simp_all add: statsKeys_fold_tally)

lemma tally_unknown:
  assumes "statsKeys names ups stats" "spirit pl \<notin> names \<or> player pl \<notin> ups"
  shows "tally ts d pl stats = stats"
  using assms unfolding statsKeys_def tally_def
  by (auto split: option.splits)

lemma fold_tally_unknown:
  assumes "statsKeys names ups stats" "\<forall>pl \<in> set pls. spirit pl \<notin> names \<or> player pl \<notin> ups"
  shows "fold (tally ts d) pls stats = stats"
  using assms by (induction pls) (simp_all add: tally_unknown)

lemma tallyAll_unknown:
  assumes "\<forall>pl \<in> set (players r). spirit pl \<notin> sp_spirit ` set spirits \<or> player pl \<notin> set ups"
  shows "tallyAll ts spirits ups (xs @ r # ys) = tallyAll ts spirits ups (xs @ ys)"
proof -
  let ?step = "\<lambda>play stats. fold (tally ts (date play)) (players play) stats"
  let ?S = "fold ?step xs (fold (initSpirit ups) spirits [])"
  have "statsKeys (sp_spirit ` set spirits) (set ups) ?S"
    by (intro statsKeys_fold_plays statsKeys_init)
  then have "?step r ?S = ?S" using assms by (rule fold_tally_unknown)
  then show ?thesis by (simp add: tallyAll_def)
qed

lemma tallyAll_no_spirits: "tallyAll ts [] ups ps = []"
proof -
  have "fold (tally ts d) pls [] = []" for d pls
    by (induction pls) (simp_all add: tally_def)
  then have "fold (\<lambda>play stats. fold (tally ts (date play)) (players play) stats) ps [] = []"
    by (induction ps) simp_all
  then show ?thesis by (simp add: tallyAll_def)
qed

lemma dom_initLevels_aux:
  "dom (map_of (fold (\<lambda>l m. AList.update (Level l) (f l) m) ls m0)) = dom (map_of m0) \<union> Level ` set ls"
  by (induction ls arbitrary: m0) (auto simp: AList.update_conv')

lemma dom_initLevels: "dom (map_of (initLevels a)) = insert 0 (Level ` set (Levels a))"
  unfolding initLevels_def dom_initLevels_aux by auto

lemma advKeys_init_aux:
  "advKeys as0 st0 \<Longrightarrow> advKeys (as0 @ as) (fold initAdversary as st0)"
proof (induction as arbitrary: as0 st0)
  case Nil
  then show ?case by simp
next
  case (Cons a as)
  have "advKeys (as0 @ [a]) (initAdversary a st0)"
    using Cons.prems unfolding advKeys_def initAdversary_def
    by (auto simp: AList.update_conv' dom_initLevels)
  from Cons.IH[OF this] show ?case by simp
qed

lemma advKeys_init: "advKeys adversaries (fold initAdversary adversaries [])"
  using advKeys_init_aux[of "[]" "[]" adversaries] by (simp add: advKeys_def)

lemma advKeys_record:
  "advKeys adversaries stats \<Longrightarrow> advKeys adversaries (recordAdversaryPlay ts play stats)"
  unfolding advKeys_def recordAdversaryPlay_def
  by (auto simp: AList.update_conv' Let_def insert_absorb domI split: option.splits if_splits)

lemma advKeys_fold:
  "advKeys adversaries stats \<Longrightarrow> advKeys adversaries (fold (recordAdversaryPlay ts) ps stats)"
  by (induction ps arbitrary: stats) (simp_all add: advKeys_record)

lemma advKeys_build: "advKeys adversaries (buildAdversaryStats ts adversaries ps)"
  unfolding buildAdversaryStats_def by (intro advKeys_fold advKeys_init)

lemma recordAdversaryPlay_unknown:
  assumes "advKeys adversaries stats"
    "case adversary r of None \<Rightarrow> True | Some a \<Rightarrow> a \<notin> Adversary ` set adversaries"
  shows "recordAdversaryPlay ts r stats = stats"
  using assms unfolding advKeys_def recordAdversaryPlay_def
  by (auto split: option.splits)

lemma recordAdversaryPlay_undeclared:
  assumes "advKeys adversaries stats" "adversary r = Some a"
    "playLevel r \<noteq> 0"
    "\<forall>adv \<in> set adversaries. Adversary adv = a \<longrightarrow>
       playLevel r \<notin> Level ` set (Levels adv)"
  shows "recordAdversaryPlay ts r stats = stats"
proof (cases "map_of stats a")
  case None
  with assms(2) show ?thesis by (simp add: recordAdversaryPlay_def)
next
  case (Some m)
  with assms(1) obtain adv where adv: "adv \<in> set adversaries" "Adversary adv = a"
    "dom (map_of m) = insert 0 (Level ` set (Levels adv))"
    unfolding advKeys_def by blast
  with assms(3,4) have "playLevel r \<notin> dom (map_of m)" by auto
  then have "map_of m (playLevel r) = None" by blast
  with Some assms(2) show ?thesis by (simp add: recordAdversaryPlay_def)
qed

lemma buildAdversaryStats_skip:
  assumes "\<And>stats. advKeys adversaries stats \<Longrightarrow> recordAdversaryPlay ts r stats = stats"
  shows "buildAdversaryStats ts adversaries (xs @ r # ys) = buildAdversaryStats ts adversaries (xs @ ys)"
proof -
  let ?S = "fold (recordAdversaryPlay ts) xs (fold initAdversary adversaries [])"
  have "advKeys adversaries ?S" by (intro advKeys_fold advKeys_init)
  then have "recordAdversaryPlay ts r ?S = ?S" by (rule assms)
  then show ?thesis by (simp add: buildAdversaryStats_def)
qed

lemma buildAdversaryStats_no_adversaries: "buildAdversaryStats ts [] ps = []"
proof -
  have "fold (recordAdversaryPlay ts) ps [] = []"
    by (induction ps) (simp_all add: recordAdversaryPlay_def split: option.splits)
  then show ?thesis by (simp add: buildAdversaryStats_def)
qed

lemma initLevels_zero:
  "map_of (initLevels a) l = Some st \<Longrightarrow> plays st = 0 \<and> lastPlayed st = None"
proof -
  have "map_of (fold (\<lambda>l m. AList.update (Level l) \<lparr>plays = 0, lastPlayed = None, difficulty = Difficulty l\<rparr> m) ls m0) l = Some st
        \<Longrightarrow> (\<forall>st. map_of m0 l = Some st \<longrightarrow> plays st = 0 \<and> lastPlayed st = None)
        \<Longrightarrow> plays st = 0 \<and> lastPlayed st = None" for ls :: "AdversaryLevel list" and m0 :: levelStats
    by (induction ls arbitrary: m0) (auto simp: AList.update_conv' split: if_splits)
  from this[of "Levels a" _] show "map_of (initLevels a) l = Some st \<Longrightarrow> plays st = 0 \<and> lastPlayed st = None"
    unfolding initLevels_def by (auto split: if_splits)
qed

lemma init_adversaries_zero:
  "map_of (fold initAdversary adversaries st0) a = Some m \<Longrightarrow> map_of m l = Some st \<Longrightarrow>
   (\<forall>m st. map_of st0 a = Some m \<longrightarrow> map_of m l = Some st \<longrightarrow> plays st = 0 \<and> lastPlayed st = None) \<Longrightarrow>
   plays st = 0 \<and> lastPlayed st = None"
proof (induction adversaries arbitrary: st0)
  case Nil
  then show ?case by simp
next
  case (Cons x xs)
  show ?case
  proof (rule Cons.IH[OF _ Cons.prems(2)])
    show "map_of (fold initAdversary xs (initAdversary x st0)) a = Some m" using Cons.prems(1) by simp
    show "\<forall>m st. map_of (initAdversary x st0) a = Some m \<longrightarrow> map_of m l = Some st \<longrightarrow> plays st = 0 \<and> lastPlayed st = None"
      using Cons.prems(3) by (auto simp: initAdversary_def AList.update_conv' dest: initLevels_zero split: if_splits)
  qed
qed
subsection \<open>When the aggregation throws\<close>

lemma recordPlay_Inr:
  "recordPlay ts d pl (stats, g) = Inr (stats', g') \<Longrightarrow> stats' = tally ts d pl stats"
  by (auto simp: tally_def split: option.splits if_splits)

lemma forEach_players_Inr:
  "forEach (recordPlay ts d) pls (stats, g) = Inr (stats', g') \<Longrightarrow>
   stats' = fold (tally ts d) pls stats"
proof (induction pls arbitrary: stats g)
  case Nil
  then show ?case by simp
next
  case (Cons pl pls)
  from Cons.prems obtain s1 g1 where step: "recordPlay ts d pl (stats, g) = Inr (s1, g1)"
    and rest: "forEach (recordPlay ts d) pls (s1, g1) = Inr (stats', g')"
    by (cases "recordPlay ts d pl (stats, g)") auto
  from step have "s1 = tally ts d pl stats" by (rule recordPlay_Inr)
  with Cons.IH[OF rest] show ?case by simp
qed

lemma forEach_plays_Inr:
  "forEach (\<lambda>play st. forEach (recordPlay ts (date play)) (players play) st) ps (stats, g)
     = Inr (stats', g') \<Longrightarrow>
   stats' = fold (\<lambda>play stats. fold (tally ts (date play)) (players play) stats) ps stats"
proof (induction ps arbitrary: stats g)
  case Nil
  then show ?case by simp
next
  case (Cons play ps)
  from Cons.prems obtain s1 g1 where
    step: "forEach (recordPlay ts (date play)) (players play) (stats, g) = Inr (s1, g1)"
    and rest: "forEach (\<lambda>play st. forEach (recordPlay ts (date play)) (players play) st) ps (s1, g1)
                 = Inr (stats', g')"
    by (cases "forEach (recordPlay ts (date play)) (players play) (stats, g)") auto
  from step have "s1 = fold (tally ts (date play)) (players play) stats"
    by (rule forEach_players_Inr)
  with Cons.IH[OF rest] show ?case by simp
qed

lemma buildPlayStats_Inr:
  "buildPlayStats ts spirits ups ps = Inr stats \<Longrightarrow> stats = tallyAll ts spirits ups ps"
  unfolding buildPlayStats_def tallyAll_def
  by (auto split: sum.splits dest: forEach_plays_Inr)

lemma playStats_Inr:
  "playStats ts spirits ps = Inr stats \<Longrightarrow> stats = tallyAll ts spirits (uniquePlayers ps) ps"
  unfolding playStats_def by (rule buildPlayStats_Inr)

subsection \<open>Safe logs\<close>

lemma recordPlay_safe:
  assumes keys: "statsKeys (sp_spirit ` set spirits) ups stats" and safe: "safeEntry spirits pl"
  shows "recordPlay ts d pl (stats, None) = Inr (tally ts d pl stats, None)"
proof (cases "map_of stats (spirit pl)")
  case None
  with keys have out: "spirit pl \<notin> sp_spirit ` set spirits"
    unfolding statsKeys_def by (metis domIff)
  from keys have "''__proto__'' \<notin> sp_spirit ` set spirits \<Longrightarrow> map_of stats ''__proto__'' = None"
    unfolding statsKeys_def by (metis domIff)
  with safe out have "\<not> throwingName stats None (spirit pl)"
    by (auto simp: safeEntry_def throwingName_def truthy_def)
  with None show ?thesis by (simp add: tally_def)
next
  case (Some e)
  from safe have "player pl \<noteq> ''__proto__''" by (simp add: safeEntry_def)
  with Some show ?thesis by (simp add: tally_def truthy_def split: option.splits)
qed

lemma forEach_players_safe:
  assumes "statsKeys (sp_spirit ` set spirits) ups stats" "list_all (safeEntry spirits) pls"
  shows "forEach (recordPlay ts d) pls (stats, None) = Inr (fold (tally ts d) pls stats, None)"
  using assms
proof (induction pls arbitrary: stats)
  case Nil
  show ?case by simp
next
  case (Cons pl pls)
  from Cons.prems(2) have safe: "safeEntry spirits pl" "list_all (safeEntry spirits) pls"
    by simp_all
  from Cons.prems(1) safe(1)
  have step: "recordPlay ts d pl (stats, None) = Inr (tally ts d pl stats, None)"
    by (rule recordPlay_safe)
  have "statsKeys (sp_spirit ` set spirits) ups (tally ts d pl stats)"
    using Cons.prems(1) by (rule statsKeys_tally)
  from Cons.IH[OF this safe(2)] step show ?case by simp
qed

lemma forEach_plays_safe:
  assumes "statsKeys (sp_spirit ` set spirits) ups stats" "safeSpirits spirits ps"
  shows "forEach (\<lambda>play st. forEach (recordPlay ts (date play)) (players play) st) ps (stats, None)
     = Inr (fold (\<lambda>play stats. fold (tally ts (date play)) (players play) stats) ps stats, None)"
  using assms
proof (induction ps arbitrary: stats)
  case Nil
  show ?case by simp
next
  case (Cons play ps)
  from Cons.prems have safe: "list_all (safeEntry spirits) (players play)" "safeSpirits spirits ps"
    by (simp_all add: safeSpirits_def)
  have "statsKeys (sp_spirit ` set spirits) ups (fold (tally ts (date play)) (players play) stats)"
    using Cons.prems(1) by (rule statsKeys_fold_tally)
  from Cons.IH[OF this safe(2)] forEach_players_safe[OF Cons.prems(1) safe(1)]
  show ?case by simp
qed

lemma buildPlayStats_safe:
  "safeSpirits spirits ps \<Longrightarrow> buildPlayStats ts spirits ups ps = Inr (tallyAll ts spirits ups ps)"
  unfolding buildPlayStats_def tallyAll_def
  by (simp add: forEach_plays_safe[OF statsKeys_init])

lemma playStats_safe:
  "safeSpirits spirits ps \<Longrightarrow> playStats ts spirits ps = Inr (tallyAll ts spirits (uniquePlayers ps) ps)"
  by (simp add: playStats_def buildPlayStats_safe)

lemma safeSpirits_insert:
  "safeSpirits spirits (xs @ r # ys) =
     (safeSpirits spirits (xs @ ys) \<and> list_all (safeEntry spirits) (players r))"
  by (auto simp: safeSpirits_def)

subsection \<open>Enumeration\<close>







lemma datesOf_append: "datesOf (xs @ ys) p c = datesOf xs p c @ datesOf ys p c"
  by (simp add: datesOf_def entries_def)

lemma datesOf_Cons: "datesOf (r # ys) p c = datesOf [r] p c @ datesOf ys p c"
  using datesOf_append[of "[r]" ys] by simp

lemma datesOf_single_empty:
  "pair p c \<notin> set (players r) \<Longrightarrow> datesOf [r] p c = []"
  using set_datesOf[of "[r]" p c] by (simp add: contributing_def)

lemma uniquePlayers_mono:
  "p \<in> set (uniquePlayers (xs @ ys)) \<Longrightarrow> p \<in> set (uniquePlayers (xs @ r # ys))"
  by (auto simp: set_uniquePlayers)

section \<open>Properties of the spirit recommendation\<close>

lemma lookupAll_Inr:
  "\<forall>s \<in> set ss. cellAt stats (sp_spirit s) p = Some (f s) \<Longrightarrow>
   lookupAll stats p ss = Inr (map (\<lambda>s. (s, f s)) ss)"
  by (induction ss) simp_all

lemma randomIndex_range:
  assumes "0 \<le> u" "u < 1" "0 < n"
  shows "0 \<le> randomIndex u n \<and> randomIndex u n < int n"
proof -
  have "0 \<le> u * of_nat n" using assms by simp
  then have lo: "0 \<le> randomIndex u n" by (simp add: randomIndex_def)
  have "u * of_nat n < 1 * of_nat n" using assms by (intro mult_strict_right_mono) simp_all
  then have "u * of_nat n < of_int (int n)" by simp
  then have "randomIndex u n < int n" unfolding randomIndex_def by (simp only: floor_less_iff)
  with lo show ?thesis by simp
qed

lemma nthOpt_random:
  assumes "0 \<le> u" "u < 1" "xs \<noteq> []"
  shows "\<exists>x \<in> set xs. nthOpt xs (randomIndex u (length xs)) = Some x"
proof -
  from assms have "0 \<le> randomIndex u (length xs) \<and> randomIndex u (length xs) < int (length xs)"
    by (intro randomIndex_range) simp_all
  then show ?thesis by (auto simp: nthOpt_def)
qed

lemma oldestStep_cellTime:
  "oldestStep ts sc acc =
     (case cellTime ts (snd sc) of None \<Rightarrow> acc
      | Some t \<Rightarrow> if t < snd acc then (Some (fst sc), t) else acc)"
  by (simp add: oldestStep_def cellTime_def split: option.splits)

lemma fold_oldestStep:
  assumes "\<forall>sc \<in> set cells. cellTime ts (snd sc) \<noteq> None"
  shows "(fold (oldestStep ts) cells acc = acc \<and> (\<forall>sc \<in> set cells. Some (snd acc) \<le> cellTime ts (snd sc)))
   \<or> (\<exists>ys sc zs t. cells = ys @ sc # zs \<and> cellTime ts (snd sc) = Some t
         \<and> fold (oldestStep ts) cells acc = (Some (fst sc), t) \<and> t < snd acc
         \<and> (\<forall>y \<in> set ys. Some t < cellTime ts (snd y))
         \<and> (\<forall>z \<in> set zs. Some t \<le> cellTime ts (snd z)))"
  using assms
proof (induction cells arbitrary: acc)
  case Nil
  show ?case by simp
next
  case (Cons x cells)
  from Cons.prems obtain tx where tx: "cellTime ts (snd x) = Some tx" by auto
  from Cons.prems have rest: "\<forall>sc \<in> set cells. cellTime ts (snd sc) \<noteq> None" by simp
  show ?case
  proof (cases "tx < snd acc")
    case True
    then have step: "fold (oldestStep ts) (x # cells) acc = fold (oldestStep ts) cells (Some (fst x), tx)"
      by (simp add: oldestStep_cellTime tx)
    from Cons.IH[OF rest, of "(Some (fst x), tx)"] show ?thesis
    proof (elim disjE conjE exE)
      assume "fold (oldestStep ts) cells (Some (fst x), tx) = (Some (fst x), tx)"
        "\<forall>sc \<in> set cells. Some (snd (Some (fst x), tx)) \<le> cellTime ts (snd sc)"
      then have "x # cells = [] @ x # cells \<and> cellTime ts (snd x) = Some tx
          \<and> fold (oldestStep ts) (x # cells) acc = (Some (fst x), tx) \<and> tx < snd acc
          \<and> (\<forall>y \<in> set []. Some tx < cellTime ts (snd y))
          \<and> (\<forall>z \<in> set cells. Some tx \<le> cellTime ts (snd z))"
        using True step tx by simp
      then show ?thesis by blast
    next
      fix ys sc zs t
      assume "cells = ys @ sc # zs" "cellTime ts (snd sc) = Some t"
        "fold (oldestStep ts) cells (Some (fst x), tx) = (Some (fst sc), t)"
        "t < snd (Some (fst x), tx)" "\<forall>y \<in> set ys. Some t < cellTime ts (snd y)"
        "\<forall>z \<in> set zs. Some t \<le> cellTime ts (snd z)"
      then have "x # cells = (x # ys) @ sc # zs \<and> cellTime ts (snd sc) = Some t
          \<and> fold (oldestStep ts) (x # cells) acc = (Some (fst sc), t) \<and> t < snd acc
          \<and> (\<forall>y \<in> set (x # ys). Some t < cellTime ts (snd y))
          \<and> (\<forall>z \<in> set zs. Some t \<le> cellTime ts (snd z))"
        using True step tx by simp
      then show ?thesis by blast
    qed
  next
    case False
    then have step: "fold (oldestStep ts) (x # cells) acc = fold (oldestStep ts) cells acc"
      by (simp add: oldestStep_cellTime tx)
    from Cons.IH[OF rest, of acc] show ?thesis
    proof (elim disjE conjE exE)
      assume "fold (oldestStep ts) cells acc = acc"
        "\<forall>sc \<in> set cells. Some (snd acc) \<le> cellTime ts (snd sc)"
      then show ?thesis using False step tx by simp
    next
      fix ys sc zs t
      assume "cells = ys @ sc # zs" "cellTime ts (snd sc) = Some t"
        "fold (oldestStep ts) cells acc = (Some (fst sc), t)"
        "t < snd acc" "\<forall>y \<in> set ys. Some t < cellTime ts (snd y)"
        "\<forall>z \<in> set zs. Some t \<le> cellTime ts (snd z)"
      then have "x # cells = (x # ys) @ sc # zs \<and> cellTime ts (snd sc) = Some t
          \<and> fold (oldestStep ts) (x # cells) acc = (Some (fst sc), t) \<and> t < snd acc
          \<and> (\<forall>y \<in> set (x # ys). Some t < cellTime ts (snd y))
          \<and> (\<forall>z \<in> set zs. Some t \<le> cellTime ts (snd z))"
        using False step tx by simp
      then show ?thesis by blast
    qed
  qed
qed

lemma fold_max_set: "fold max xs (a :: 'a :: linorder) = Max (insert a (set xs))"
  using Max.set_eq_fold[of a xs] by simp

lemma isLatest_time:
  assumes "isLatest ts ds v" "list_all (validDate ts) ds"
  shows "(case v of None \<Rightarrow> None | Some d \<Rightarrow> if d = [] then None else ts d) = fold max (map ts ds) None"
proof (cases v)
  case None
  with assms(1) show ?thesis by (simp add: isLatest_def)
next
  case (Some d)
  with assms(1) obtain t where d: "d \<in> set ds" "ts d = Some t"
    and mx: "\<forall>d' \<in> set ds. \<exists>t'. ts d' = Some t' \<and> t' \<le> t"
    by (auto simp: isLatest_def)
  from d assms(2) have ne: "d \<noteq> []" by (auto simp: list_all_iff validDate_def)
  have "Max (insert None (set (map ts ds))) = Some t"
  proof (rule Max_eqI)
    show "finite (insert None (set (map ts ds)))" by simp
    show "Some t \<in> insert None (set (map ts ds))" using d by force
    fix y assume "y \<in> insert None (set (map ts ds))"
    then show "y \<le> Some t" using mx by auto
  qed
  then show ?thesis using Some ne d by (simp add: fold_max_set)
qed

lemma cellTime_lastTime:
  assumes "validDates ts ps"
  shows "cellTime ts (fold (bump ts) (datesOf ps p c) \<lparr>plays = 0, lastPlayed = None\<rparr>) = lastTime ts ps p c"
proof -
  let ?cell = "fold (bump ts) (datesOf ps p c) \<lparr>plays = 0, lastPlayed = None\<rparr>"
  have v: "list_all (validDate ts) (datesOf ps p c)" using assms by (rule valid_datesOf)
  then have "isLatest ts (datesOf ps p c) (lastPlayed ?cell)" by (rule isLatest_fold_bump)
  from isLatest_time[OF this v] have "cellTime ts ?cell = fold max (map ts (datesOf ps p c)) None"
    by (simp add: cellTime_def)
  also have "\<dots> = Max (insert None (set (map ts (datesOf ps p c))))" by (rule fold_max_set)
  also have "set (map ts (datesOf ps p c)) = set (map (\<lambda>play. ts (date play)) (contributing ps p c))"
    by (simp add: set_datesOf image_image)
  also have "Max (insert None \<dots>) = lastTime ts ps p c"
    unfolding lastTime_def by (rule fold_max_set[symmetric])
  finally show ?thesis .
qed

lemma recommendFor_cases:
  assumes p: "p \<in> set (uniquePlayers ps)"
  shows "recommendFor ts fmt now u spirits (tallyAll ts spirits (uniquePlayers ps) ps) p cx =
     (if unplayedOf ps p (tierOf spirits cx) \<noteq> [] then
        Inr (Some \<lparr>rec_spirit = nthOpt (unplayedOf ps p (tierOf spirits cx))
                      (randomIndex u (length (unplayedOf ps p (tierOf spirits cx)))),
                   reason = ''Never played''\<rparr>)
      else (case fst (fold (oldestStep ts) (tierCells ts ps p (tierOf spirits cx)) (None, now)) of
              None \<Rightarrow> Inr None
            | Some s \<Rightarrow> Inr (Some \<lparr>rec_spirit = Some s,
                 reason = ''Last played '' @
                   fmt (Some (snd (fold (oldestStep ts) (tierCells ts ps p (tierOf spirits cx)) (None, now))))\<rparr>)))"
proof -
  let ?tier = "tierOf spirits cx"
  let ?f = "\<lambda>s. fold (bump ts) (datesOf ps p (sp_spirit s)) \<lparr>plays = 0, lastPlayed = None\<rparr>"
  have "\<forall>s \<in> set ?tier. cellAt (tallyAll ts spirits (uniquePlayers ps) ps) (sp_spirit s) p = Some (?f s)"
    using p by (auto simp: tierOf_def  cellAt_tallyAll)
  then have look: "lookupAll (tallyAll ts spirits (uniquePlayers ps) ps) p ?tier = Inr (tierCells ts ps p ?tier)"
    unfolding tierCells_def by (rule lookupAll_Inr)
  have un: "map fst (filter (\<lambda>sc. plays (snd sc) = 0) (tierCells ts ps p ?tier)) = unplayedOf ps p ?tier"
    unfolding tierCells_def unplayedOf_def
    by (simp add: filter_map comp_def plays_fold_bump length_datesOf)
  have "recommendFor ts fmt now u spirits (tallyAll ts spirits (uniquePlayers ps) ps) p cx =
     (case lookupAll (tallyAll ts spirits (uniquePlayers ps) ps) p ?tier of
        Inl e \<Rightarrow> Inl e
      | Inr cells \<Rightarrow>
          (let unplayedSpirits = map fst (filter (\<lambda>sc. plays (snd sc) = 0) cells) in
           if 0 < length unplayedSpirits then
             Inr (Some \<lparr>rec_spirit = nthOpt unplayedSpirits (randomIndex u (length unplayedSpirits)),
                        reason = ''Never played''\<rparr>)
           else
             (let (oldestPlayedSpirit, oldestDate) = fold (oldestStep ts) cells (None, now) in
              case oldestPlayedSpirit of
                None \<Rightarrow> Inr None
              | Some s \<Rightarrow>
                  Inr (Some \<lparr>rec_spirit = Some s,
                             reason = ''Last played '' @ fmt (Some oldestDate)\<rparr>))))"
    by (simp add: recommendFor_def tierOf_def Let_def)
  then show ?thesis
    by (simp add: look un Let_def split: prod.splits option.splits)
qed

lemma tierCells_time:
  assumes "validDates ts ps" "sc \<in> set (tierCells ts ps p tier)"
  shows "cellTime ts (snd sc) = lastTime ts ps p (sp_spirit (fst sc))"
  using assms by (auto simp: tierCells_def cellTime_lastTime)

lemma lastTime_played:
  assumes "validDates ts ps" "occurrences ps p c \<noteq> 0"
  shows "lastTime ts ps p c \<noteq> None"
proof -
  let ?cell = "fold (bump ts) (datesOf ps p c) \<lparr>plays = 0, lastPlayed = None\<rparr>"
  have v: "list_all (validDate ts) (datesOf ps p c)" using assms(1) by (rule valid_datesOf)
  then have l: "isLatest ts (datesOf ps p c) (lastPlayed ?cell)" by (rule isLatest_fold_bump)
  from assms(2) have "datesOf ps p c \<noteq> []" using length_datesOf[of ps p c] by auto
  with l obtain d t where "lastPlayed ?cell = Some d" "d \<in> set (datesOf ps p c)" "ts d = Some t"
    by (cases "lastPlayed ?cell") (auto simp: isLatest_def)
  moreover from this v have "d \<noteq> []" by (auto simp: list_all_iff validDate_def)
  ultimately have "cellTime ts ?cell = Some t" by (simp add: cellTime_def)
  then show ?thesis using cellTime_lastTime[OF assms(1), of p c] by simp
qed

subsection \<open>The recommendation of one tier\<close>

lemma recommendFor_tier:
  assumes p: "p \<in> set (uniquePlayers ps)" and u: "0 \<le> u" "u < 1"
  shows "\<exists>r. recommendFor ts fmt now u spirits (tallyAll ts spirits (uniquePlayers ps) ps) p cx = Inr r
   \<and> (unplayedOf ps p (tierOf spirits cx) \<noteq> [] \<longrightarrow>
         (\<exists>s \<in> set (unplayedOf ps p (tierOf spirits cx)).
            r = Some \<lparr>rec_spirit = Some s, reason = ''Never played''\<rparr>))
   \<and> (tierOf spirits cx = [] \<longrightarrow> r = None)
   \<and> (validDates ts ps \<and> unplayedOf ps p (tierOf spirits cx) = []
        \<and> (\<exists>s \<in> set (tierOf spirits cx). lastTime ts ps p (sp_spirit s) < Some now) \<longrightarrow>
         (\<exists>ys s zs. tierOf spirits cx = ys @ s # zs
            \<and> r = Some \<lparr>rec_spirit = Some s,
                        reason = ''Last played '' @ fmt (lastTime ts ps p (sp_spirit s))\<rparr>
            \<and> (\<forall>y \<in> set ys. lastTime ts ps p (sp_spirit s) < lastTime ts ps p (sp_spirit y))
            \<and> (\<forall>z \<in> set zs. lastTime ts ps p (sp_spirit s) \<le> lastTime ts ps p (sp_spirit z))))
   \<and> (validDates ts ps \<and> unplayedOf ps p (tierOf spirits cx) = []
        \<and> (\<forall>s \<in> set (tierOf spirits cx). \<not> lastTime ts ps p (sp_spirit s) < Some now) \<longrightarrow>
         r = None)"
proof -
  let ?tier = "tierOf spirits cx"
  let ?un = "unplayedOf ps p ?tier"
  let ?cells = "tierCells ts ps p ?tier"
  let ?rec = "recommendFor ts fmt now u spirits (tallyAll ts spirits (uniquePlayers ps) ps) p cx"
  note cases = recommendFor_cases[OF p, of ts fmt now u spirits cx]
  from cases obtain r where r: "?rec = Inr r" by (auto split: option.splits if_splits)
  have never: "\<exists>s \<in> set ?un. r = Some \<lparr>rec_spirit = Some s, reason = ''Never played''\<rparr>"
    if ne: "?un \<noteq> []"
  proof -
    from nthOpt_random[OF u ne] obtain s where "s \<in> set ?un"
      "nthOpt ?un (randomIndex u (length ?un)) = Some s" by blast
    with ne cases r show ?thesis by auto
  qed
  have empty: "r = None" if "?tier = []"
    using that cases r by (simp add: unplayedOf_def tierCells_def)
  have time: "cellTime ts (snd sc) = lastTime ts ps p (sp_spirit (fst sc))"
    if "validDates ts ps" "sc \<in> set ?cells" for sc
    using that by (rule tierCells_time)
  have fst_cells: "map fst ?cells = ?tier" by (simp add: tierCells_def comp_def)
  have played: "\<forall>sc \<in> set ?cells. cellTime ts (snd sc) \<noteq> None"
    if valid: "validDates ts ps" and all: "?un = []"
  proof
    fix sc assume sc: "sc \<in> set ?cells"
    then have "fst sc \<in> set ?tier" using fst_cells by (metis image_eqI set_map)
    with all have "occurrences ps p (sp_spirit (fst sc)) \<noteq> 0"
      by (auto simp: unplayedOf_def filter_empty_conv)
    with valid have "lastTime ts ps p (sp_spirit (fst sc)) \<noteq> None" by (rule lastTime_played)
    with time[OF valid sc] show "cellTime ts (snd sc) \<noteq> None" by simp
  qed
  have oldest: "\<exists>ys s zs. ?tier = ys @ s # zs
            \<and> r = Some \<lparr>rec_spirit = Some s,
                        reason = ''Last played '' @ fmt (lastTime ts ps p (sp_spirit s))\<rparr>
            \<and> (\<forall>y \<in> set ys. lastTime ts ps p (sp_spirit s) < lastTime ts ps p (sp_spirit y))
            \<and> (\<forall>z \<in> set zs. lastTime ts ps p (sp_spirit s) \<le> lastTime ts ps p (sp_spirit z))"
    if valid: "validDates ts ps" and all: "?un = []"
      and past: "\<exists>s \<in> set ?tier. lastTime ts ps p (sp_spirit s) < Some now"
  proof -
    note time = time[OF valid]
    from fold_oldestStep[OF played[OF valid all], of "(None, now)"] show ?thesis
    proof (elim disjE conjE exE)
      assume "\<forall>sc \<in> set ?cells. Some (snd (None :: Spirit option, now)) \<le> cellTime ts (snd sc)"
      moreover from past obtain s where s: "s \<in> set ?tier" "lastTime ts ps p (sp_spirit s) < Some now"
        by blast
      then obtain sc where "sc \<in> set ?cells" "fst sc = s" using fst_cells
        by (metis (no_types, lifting) image_iff set_map)
      ultimately have "Some now \<le> lastTime ts ps p (sp_spirit s)" using time by fastforce
      with s show ?thesis by fastforce
    next
      fix ys sc zs t
      assume dec: "?cells = ys @ sc # zs" and t: "cellTime ts (snd sc) = Some t"
        and res: "fold (oldestStep ts) ?cells (None, now) = (Some (fst sc), t)"
        and before: "\<forall>y \<in> set ys. Some t < cellTime ts (snd y)"
        and after: "\<forall>z \<in> set zs. Some t \<le> cellTime ts (snd z)"
      from dec have mem: "set ys \<subseteq> set ?cells" "sc \<in> set ?cells" "set zs \<subseteq> set ?cells"
        by (metis Un_upper1 set_append, simp, metis Un_upper2 set_append set_subset_Cons subset_trans)
      from time[OF mem(2)] t have ts_s: "lastTime ts ps p (sp_spirit (fst sc)) = Some t" by simp
      from dec have "?tier = map fst ys @ fst sc # map fst zs"
        using fst_cells by (metis list.simps(9) map_append)
      moreover have "r = Some \<lparr>rec_spirit = Some (fst sc),
                             reason = ''Last played '' @ fmt (lastTime ts ps p (sp_spirit (fst sc)))\<rparr>"
        using cases r all res ts_s by simp
      moreover have "\<forall>y \<in> set (map fst ys). lastTime ts ps p (sp_spirit (fst sc)) < lastTime ts ps p (sp_spirit y)"
      proof
        fix y assume "y \<in> set (map fst ys)"
        then obtain yc where yc: "yc \<in> set ys" "y = fst yc" by auto
        with mem(1) have "cellTime ts (snd yc) = lastTime ts ps p (sp_spirit y)" using time by auto
        with before yc ts_s show "lastTime ts ps p (sp_spirit (fst sc)) < lastTime ts ps p (sp_spirit y)"
          by fastforce
      qed
      moreover have "\<forall>z \<in> set (map fst zs). lastTime ts ps p (sp_spirit (fst sc)) \<le> lastTime ts ps p (sp_spirit z)"
      proof
        fix z assume "z \<in> set (map fst zs)"
        then obtain zc where zc: "zc \<in> set zs" "z = fst zc" by auto
        with mem(3) have "cellTime ts (snd zc) = lastTime ts ps p (sp_spirit z)" using time by auto
        with after zc ts_s show "lastTime ts ps p (sp_spirit (fst sc)) \<le> lastTime ts ps p (sp_spirit z)"
          by fastforce
      qed
      ultimately show ?thesis by blast
    qed
  qed
  have none: "r = None"
    if valid: "validDates ts ps" and all: "?un = []"
      and future: "\<forall>s \<in> set ?tier. \<not> lastTime ts ps p (sp_spirit s) < Some now"
  proof -
    note time = time[OF valid]
    from fold_oldestStep[OF played[OF valid all], of "(None, now)"] show ?thesis
    proof (elim disjE conjE exE)
      assume "fold (oldestStep ts) ?cells (None, now) = (None, now)"
      with cases r all show ?thesis by simp
    next
      fix ys sc zs t
      assume dec: "?cells = ys @ sc # zs" and t: "cellTime ts (snd sc) = Some t"
        and lt: "t < snd (None :: Spirit option, now)"
      from dec have mem: "sc \<in> set ?cells" by simp
      then have "fst sc \<in> set ?tier" using fst_cells by (metis image_eqI set_map)
      moreover from time[OF mem] t have "lastTime ts ps p (sp_spirit (fst sc)) = Some t" by simp
      with lt have "lastTime ts ps p (sp_spirit (fst sc)) < Some now" by simp
      ultimately show ?thesis using future by blast
    qed
  qed
  from r never empty oldest none show ?thesis by blast
qed

subsection \<open>The dictionaries of recommendations\<close>

lemma tierRecommendations_map:
  assumes "\<forall>c \<in> set cs. \<exists>r. f c = Inr r"
  shows "\<exists>m'. tierRecommendations f cs m = Inr m'
     \<and> (\<forall>c. map_of m' c =
          (if c \<in> set cs then (case f c of Inr (Some r) \<Rightarrow> Some r | _ \<Rightarrow> map_of m c)
           else map_of m c))"
  using assms
proof (induction cs arbitrary: m)
  case Nil
  show ?case by simp
next
  case (Cons c0 cs)
  from Cons.prems obtain r0 where r0: "f c0 = Inr r0" by auto
  from Cons.prems have rest: "\<forall>c \<in> set cs. \<exists>r. f c = Inr r" by simp
  show ?case
  proof (cases r0)
    case None
    from Cons.IH[OF rest, of m] obtain m' where
      "tierRecommendations f cs m = Inr m'"
      "\<forall>c. map_of m' c =
          (if c \<in> set cs then (case f c of Inr (Some r) \<Rightarrow> Some r | _ \<Rightarrow> map_of m c)
           else map_of m c)"
      by blast
    with r0 None show ?thesis by (intro exI[of _ m']) auto
  next
    case (Some r)
    from Cons.IH[OF rest, of "AList.update c0 r m"] obtain m' where
      "tierRecommendations f cs (AList.update c0 r m) = Inr m'"
      "\<forall>c. map_of m' c =
          (if c \<in> set cs then (case f c of Inr (Some r') \<Rightarrow> Some r' | _ \<Rightarrow> map_of (AList.update c0 r m) c)
           else map_of (AList.update c0 r m) c)"
      by blast
    with r0 Some show ?thesis
      by (intro exI[of _ m']) (auto simp: AList.update_conv' split: sum.splits option.splits)
  qed
qed

lemma playerRecommendations_map:
  assumes "\<forall>p \<in> set ps. \<exists>m. tierRecommendations (f p) complexityLevels [] = Inr m"
  shows "\<exists>recs'. playerRecommendations f ps recs = Inr recs'
     \<and> (\<forall>p. map_of recs' p =
          (if p \<in> set ps
           then (case tierRecommendations (f p) complexityLevels [] of Inr m \<Rightarrow> Some m | Inl e \<Rightarrow> None)
           else map_of recs p))"
  using assms
proof (induction ps arbitrary: recs)
  case Nil
  show ?case by simp
next
  case (Cons p0 ps)
  from Cons.prems obtain m0 where m0: "tierRecommendations (f p0) complexityLevels [] = Inr m0" by auto
  from Cons.prems have rest: "\<forall>p \<in> set ps. \<exists>m. tierRecommendations (f p) complexityLevels [] = Inr m"
    by simp
  from Cons.IH[OF rest, of "AList.update p0 m0 recs"] obtain recs' where
    "playerRecommendations f ps (AList.update p0 m0 recs) = Inr recs'"
    "\<forall>p. map_of recs' p =
          (if p \<in> set ps
           then (case tierRecommendations (f p) complexityLevels [] of Inr m \<Rightarrow> Some m | Inl e \<Rightarrow> None)
           else map_of (AList.update p0 m0 recs) p)"
    by blast
  with m0 show ?case
    by (intro exI[of _ recs']) (auto simp: AList.update_conv')
qed

section \<open>Properties of the adversary recommendation\<close>

subsection \<open>The highest played level\<close>

lemma fst_scanLevel:
  "fst (scanLevel ts m i acc) = (if levelPlayed m i then max (fst acc) i else fst acc)"
  by (auto simp: scanLevel_def levelPlayed_def levelAt_def split: option.splits)

lemma fst_fold_scanLevel:
  "fst (fold (scanLevel ts m) is acc) = Max (insert (fst acc) (set (filter (levelPlayed m) is)))"
proof (induction "is" arbitrary: acc)
  case Nil
  show ?case by simp
next
  case (Cons i "is")
  show ?case
  proof (cases "levelPlayed m i")
    case True
    have "Max (insert (max (fst acc) i) (set (filter (levelPlayed m) is)))
          = Max (insert (fst acc) (insert i (set (filter (levelPlayed m) is))))"
      by (cases "set (filter (levelPlayed m) is) = {}") (simp_all add: max.assoc)
    with True show ?thesis by (simp add: Cons fst_scanLevel)
  next
    case False
    then show ?thesis by (simp add: Cons fst_scanLevel)
  qed
qed

lemma fst_scanLevels: "fst (scanLevels ts m) = highestPlayedLevel m"
  unfolding scanLevels_def highestPlayedLevel_def fst_fold_scanLevel by simp

lemma find_declared:
  "find (\<lambda>lvl. Level lvl = n) ls = Some l \<Longrightarrow> l \<in> set ls \<and> Level l = n"
  by (induction ls) (auto split: if_splits)

lemma find_undeclared:
  "(find (\<lambda>lvl. Level lvl = n) ls = None) = (\<forall>l \<in> set ls. Level l \<noteq> n)"
  by (induction ls) auto


subsection \<open>One level of the adversary statistics\<close>

lemma levelAt_record:
  "levelAt (map_of (recordAdversaryPlay ts play stats) a) l =
     (if a \<noteq> [] \<and> adversary play = Some a \<and> playLevel play = l
      then map_option (bump ts (date play)) (levelAt (map_of stats a) l)
      else levelAt (map_of stats a) l)"
  by (auto simp: recordAdversaryPlay_def levelAt_def AList.update_conv' Let_def
      split: option.splits)

lemma levelAt_fold_record:
  "levelAt (map_of (fold (recordAdversaryPlay ts) ps stats) a) l =
     map_option (fold (bump ts) (map date (playsAt ps a l))) (levelAt (map_of stats a) l)"
proof (induction ps arbitrary: stats)
  case Nil
  show ?case by (simp add: playsAt_def option.map_ident)
next
  case (Cons play ps)
  show ?case
    by (cases "levelAt (map_of stats a) l") (auto simp: Cons levelAt_record playsAt_def)
qed

lemma levelAt_init_zero:
  "levelAt (map_of (fold initAdversary adversaries []) a) l = Some st \<Longrightarrow>
   plays st = 0 \<and> lastPlayed st = None"
  using init_adversaries_zero[of adversaries "[]" a _ l st]
  by (auto simp: levelAt_def split: option.splits)

lemma valid_playsAt: "validDates ts ps \<Longrightarrow> list_all (validDate ts) (map date (playsAt ps a l))"
  by (auto simp: validDates_def list_all_iff playsAt_def)

lemma levelAt_build:
  assumes "levelAt (map_of (buildAdversaryStats ts adversaries ps) a) l = Some st"
  shows "plays st = length (playsAt ps a l)"
    and "validDates ts ps \<Longrightarrow> isLatest ts (map date (playsAt ps a l)) (lastPlayed st)"
proof -
  from assms obtain st0 where
    st0: "levelAt (map_of (fold initAdversary adversaries []) a) l = Some st0"
    and st: "st = fold (bump ts) (map date (playsAt ps a l)) st0"
    by (auto simp: buildAdversaryStats_def levelAt_fold_record)
  from levelAt_init_zero[OF st0] have z: "plays st0 = 0" "lastPlayed st0 = None" by simp_all
  show "plays st = length (playsAt ps a l)"
    by (simp add: st plays_fold_bump z)
  assume "validDates ts ps"
  then have "list_all (validDate ts) (map date (playsAt ps a l))" by (rule valid_playsAt)
  from lastPlayed_fold_bump[OF this, of "[]" st0] z
  show "isLatest ts (map date (playsAt ps a l)) (lastPlayed st)"
    by (simp add: st isLatest_def)
qed

lemma levelAt_build_present:
  "(levelAt (map_of (buildAdversaryStats ts adversaries ps) a) l = None)
   = (levelAt (map_of (fold initAdversary adversaries []) a) l = None)"
  by (simp add: buildAdversaryStats_def levelAt_fold_record)

subsection \<open>The most recent date across the levels\<close>

lemma isLatest_merge:
  assumes "isLatest ts D1 v" "list_all (validDate ts) D1"
    "isLatest ts D2 (Some lp)"
  shows "isLatest ts (D1 @ D2) (mergeLatest ts v lp)"
proof -
  from assms(3) obtain tl where lp: "lp \<in> set D2" "ts lp = Some tl"
    and mx2: "\<forall>d' \<in> set D2. \<exists>t'. ts d' = Some t' \<and> t' \<le> tl"
    by (auto simp: isLatest_def)
  show ?thesis
  proof (cases v)
    case None
    with assms(1) have "D1 = []" by (simp add: isLatest_def)
    with None assms(3) show ?thesis by (simp add: mergeLatest_def)
  next
    case (Some mr)
    with assms(1) obtain tm where mr: "mr \<in> set D1" "ts mr = Some tm"
      and mx1: "\<forall>d' \<in> set D1. \<exists>t'. ts d' = Some t' \<and> t' \<le> tm"
      by (auto simp: isLatest_def)
    from mr assms(2) have ne: "mr \<noteq> []" by (auto simp: list_all_iff validDate_def)
    show ?thesis
    proof (cases "tm < tl")
      case True
      then have "mergeLatest ts v lp = Some lp"
        using Some ne mr lp by (simp add: mergeLatest_def date_gt_def)
      moreover have "\<forall>d' \<in> set (D1 @ D2). \<exists>t'. ts d' = Some t' \<and> t' \<le> tl"
        using mx1 mx2 True by fastforce
      ultimately show ?thesis using lp by (simp add: isLatest_def)
    next
      case False
      then have "mergeLatest ts v lp = Some mr"
        using Some ne mr lp by (simp add: mergeLatest_def date_gt_def)
      moreover have "\<forall>d' \<in> set (D1 @ D2). \<exists>t'. ts d' = Some t' \<and> t' \<le> tm"
        using mx1 mx2 False by fastforce
      ultimately show ?thesis using mr by (simp add: isLatest_def)
    qed
  qed
qed

lemma snd_scanLevel:
  "snd (scanLevel ts m i acc) =
     (case levelAt m i of
        None \<Rightarrow> snd acc
      | Some st \<Rightarrow>
          if 0 < plays st then
            (case lastPlayed st of None \<Rightarrow> snd acc
             | Some lp \<Rightarrow> if lp = [] then snd acc else mergeLatest ts (snd acc) lp)
          else snd acc)"
  by (auto simp: scanLevel_def levelAt_def mergeLatest_def split: option.splits)

lemma snd_fold_scanLevel:
  assumes cells: "\<And>i st. levelAt m i = Some st \<Longrightarrow>
             plays st = length (P i) \<and> isLatest ts (map date (P i)) (lastPlayed st)"
    and valid: "\<And>i. list_all (validDate ts) (map date (P i))"
    and acc: "isLatest ts Ds (snd acc)" "list_all (validDate ts) Ds"
  shows "isLatest ts (Ds @ concat (map (\<lambda>i. map date (P i)) (filter (\<lambda>i. levelAt m i \<noteq> None) is)))
           (snd (fold (scanLevel ts m) is acc))"
  using acc
proof (induction "is" arbitrary: acc Ds)
  case Nil
  then show ?case by simp
next
  case (Cons i "is")
  let ?acc' = "scanLevel ts m i acc"
  let ?D' = "Ds @ (if levelAt m i \<noteq> None then map date (P i) else [])"
  have step: "isLatest ts ?D' (snd ?acc')"
  proof (cases "levelAt m i")
    case None
    with Cons.prems show ?thesis by (simp add: snd_scanLevel)
  next
    case (Some st)
    from cells[OF Some] have n: "plays st = length (P i)"
      and l: "isLatest ts (map date (P i)) (lastPlayed st)" by simp_all
    show ?thesis
    proof (cases "0 < plays st")
      case False
      with n have "P i = []" by simp
      with Some False Cons.prems show ?thesis by (simp add: snd_scanLevel)
    next
      case True
      with n have ne: "map date (P i) \<noteq> []" by auto
      with l obtain lp where lp: "lastPlayed st = Some lp" "lp \<in> set (map date (P i))"
        by (cases "lastPlayed st") (auto simp: isLatest_def)
      with valid[of i] have "lp \<noteq> []" by (auto simp: list_all_iff validDate_def)
      moreover from l lp Cons.prems
      have "isLatest ts (Ds @ map date (P i)) (mergeLatest ts (snd acc) lp)"
        by (intro isLatest_merge) simp_all
      ultimately show ?thesis using Some True lp by (simp add: snd_scanLevel)
    qed
  qed
  moreover have "list_all (validDate ts) ?D'" using Cons.prems(2) valid[of i] by simp
  ultimately have "isLatest ts (?D' @ concat (map (\<lambda>i. map date (P i)) (filter (\<lambda>i. levelAt m i \<noteq> None) is)))
           (snd (fold (scanLevel ts m) is ?acc'))"
    by (rule Cons.IH)
  then show ?case by (cases "levelAt m i") simp_all
qed

lemma set_concat_levels:
  "set (concat (map (\<lambda>i. map date (playsAt ps a i)) (filter Q is)))
     = date ` {play \<in> set ps. a \<noteq> [] \<and> adversary play = Some a \<and> playLevel play \<in> set is \<and> Q (playLevel play)}"
  by (auto simp: playsAt_def)

lemma set_countedPlays:
  "set (map date (countedPlays ps m a))
     = set (concat (map (\<lambda>i. map date (playsAt ps a i)) (filter (\<lambda>i. levelAt m i \<noteq> None) [0..6])))"
  unfolding set_concat_levels by (auto simp: countedPlays_def)

lemma isLatest_cong: "isLatest ts ds v \<Longrightarrow> set ds' = set ds \<Longrightarrow> isLatest ts ds' v"
  by (cases v) (auto simp: isLatest_def)

lemma rec_lastPlayed_scan:
  "rec_lastPlayed (recommendAdversary ts fmt stats a) = snd (scanLevels ts (map_of stats (Adversary a)))"
  by (simp add: recommendAdversary_def Let_def split: prod.splits)

lemma rec_lastPlayed_latest:
  assumes valid: "validDates ts ps"
  shows "isLatest ts
           (map date (countedPlays ps (map_of (buildAdversaryStats ts adversaries ps) (Adversary a)) (Adversary a)))
           (rec_lastPlayed (recommendAdversary ts fmt (buildAdversaryStats ts adversaries ps) a))"
proof -
  let ?m = "map_of (buildAdversaryStats ts adversaries ps) (Adversary a)"
  let ?P = "playsAt ps (Adversary a)"
  let ?is = "[0..6] :: int list"
  have cells: "plays st = length (?P i) \<and> isLatest ts (map date (?P i)) (lastPlayed st)"
    if "levelAt ?m i = Some st" for i st
    using levelAt_build[OF that] valid by simp
  have vP: "list_all (validDate ts) (map date (?P i))" for i
    using valid by (rule valid_playsAt)
  have a0: "isLatest ts [] (snd (- 1 :: int, None :: string option))" by (simp add: isLatest_def)
  have "isLatest ts ([] @ concat (map (\<lambda>i. map date (?P i)) (filter (\<lambda>i. levelAt ?m i \<noteq> None) ?is)))
           (snd (fold (scanLevel ts ?m) ?is (- 1, None)))"
    by (rule snd_fold_scanLevel[where P = ?P and m = ?m and Ds = "[]", OF cells vP a0]) simp_all
  then have latest: "isLatest ts (concat (map (\<lambda>i. map date (?P i)) (filter (\<lambda>i. levelAt ?m i \<noteq> None) ?is)))
           (rec_lastPlayed (recommendAdversary ts fmt (buildAdversaryStats ts adversaries ps) a))"
    by (simp add: rec_lastPlayed_scan scanLevels_def)
  have seteq: "set (map date (countedPlays ps ?m (Adversary a)))
      = set (concat (map (\<lambda>i. map date (?P i)) (filter (\<lambda>i. levelAt ?m i \<noteq> None) ?is)))"
    by (rule set_countedPlays)
  from latest seteq show ?thesis by (rule isLatest_cong)
qed

section \<open>Properties of the host sort\<close>

lemma set_insertBy: "set (insertBy cmp x ys) = insert x (set ys)"
  by (induction ys) auto

lemma mset_insertBy: "mset (insertBy cmp x ys) = add_mset x (mset ys)"
  by (induction ys) simp_all

lemma mset_sortBy: "mset (sortBy cmp xs) = mset xs"
  by (induction xs) (simp_all add: sortBy_def mset_insertBy)

lemma insertBy_insort_key:
  "\<forall>y \<in> set ys. cmp_le cmp x y = (k x \<le> k y) \<Longrightarrow> insertBy cmp x ys = insort_key k x ys"
  by (induction ys) auto

lemma sortBy_sort_key:
  "\<forall>x \<in> set xs. \<forall>y \<in> set xs. cmp_le cmp x y = (k x \<le> k y) \<Longrightarrow> sortBy cmp xs = sort_key k xs"
proof (induction xs)
  case Nil
  show ?case by (simp add: sortBy_def)
next
  case (Cons x xs)
  then have "sortBy cmp xs = sort_key k xs" by simp
  moreover have "\<forall>y \<in> set (sort_key k xs). cmp_le cmp x y = (k x \<le> k y)" using Cons.prems by simp
  ultimately show ?case by (simp add: sortBy_def insertBy_insort_key)
qed

lemma cmp_le_compareRecs:
  assumes "\<And>d. rec_lastPlayed a = Some d \<Longrightarrow> ts d \<noteq> None"
    "\<And>d. rec_lastPlayed b = Some d \<Longrightarrow> ts d \<noteq> None"
  shows "cmp_le (compareRecs ts) a b = (recKey ts a \<le> recKey ts b)"
  using assms
  by (cases "rec_lastPlayed a"; cases "rec_lastPlayed b")
     (auto simp: cmp_le_def compareRecs_def recKey_def split: option.splits)

subsection \<open>The comparator of the table\<close>

lemma split_no_sep: "c \<notin> set xs \<Longrightarrow> split c xs = [xs]"
  by (induction xs) (auto simp: Let_def)

lemma split_ne: "split c xs \<noteq> []"
  by (induction xs) (auto simp: Let_def)

lemma split_sep: "c \<notin> set xs \<Longrightarrow> split c (xs @ c # ys) = xs # split c ys"
proof (induction xs)
  case Nil
  show ?case by (simp add: Let_def)
next
  case (Cons x xs)
  then show ?case by (auto simp: Let_def)
qed

lemma split_player_key:
  assumes "CHR ''-'' \<notin> set p" "CHR ''-'' \<notin> set stat"
  shows "split CHR ''-'' (''player-'' @ p @ ''-'' @ stat) = [''player'', p, stat]"
proof -
  have "split CHR ''-'' (''player'' @ CHR ''-'' # (p @ CHR ''-'' # stat))
        = ''player'' # split CHR ''-'' (p @ CHR ''-'' # stat)"
    by (rule split_sep) simp
  also have "split CHR ''-'' (p @ CHR ''-'' # stat) = p # split CHR ''-'' stat"
    using assms(1) by (rule split_sep)
  also have "split CHR ''-'' stat = [stat]" using assms(2) by (rule split_no_sep)
  finally show ?thesis by simp
qed

lemma compare_plays:
  assumes "CHR ''-'' \<notin> set p"
  shows "comparePlayStats \<lparr>key = headerKey p ''plays'', direction = d\<rparr> a b
         = Some (ordered d (playsValue (Some p) a < playsValue (Some p) b)
                           (playsValue (Some p) b < playsValue (Some p) a))"
proof -
  have "split CHR ''-'' (headerKey p ''plays'') = [''player'', p, ''plays'']"
    unfolding headerKey_def using assms by (rule split_player_key) simp
  then show ?thesis
    by (simp add: comparePlayStats_def nthStr_def headerKey_def Let_def)
qed

lemma compare_lastPlayed:
  assumes "CHR ''-'' \<notin> set p"
  shows "comparePlayStats \<lparr>key = headerKey p ''lastPlayed'', direction = d\<rparr> a b
         = Some (ordered d (stringValue (Some p) (Some ''lastPlayed'') a < stringValue (Some p) (Some ''lastPlayed'') b)
                           (stringValue (Some p) (Some ''lastPlayed'') b < stringValue (Some p) (Some ''lastPlayed'') a))"
proof -
  have "split CHR ''-'' (headerKey p ''lastPlayed'') = [''player'', p, ''lastPlayed'']"
    unfolding headerKey_def using assms by (rule split_player_key) simp
  then show ?thesis
    by (simp add: comparePlayStats_def nthStr_def headerKey_def Let_def)
qed

lemma cmp_le_ordered_Asc:
  "cmp_le (\<lambda>a b. Some (ordered Asc (k a < k b) (k b < k a))) a b = (k a \<le> (k b :: 'a :: linorder))"
  by (auto simp: cmp_le_def ordered_def)

lemma cmp_le_ordered_Desc:
  shows "cmp_le (\<lambda>a b. Some (ordered Desc (k a < k b) (k b < k a))) a b = (k b \<le> (k a :: 'a :: linorder))"
  by (auto simp: cmp_le_def ordered_def)

lemma sortBy_cong: "(\<And>a b. cmp a b = cmp' a b) \<Longrightarrow> sortBy cmp xs = sortBy cmp' xs"
proof -
  assume "\<And>a b. cmp a b = cmp' a b"
  then have "cmp = cmp'" by (intro ext)
  then show ?thesis by simp
qed

lemma sorted_asc:
  "sortBy (\<lambda>a b. Some (ordered Asc (k a < k b) (k b < k a))) xs = sort_key (k :: 'a \<Rightarrow> 'b :: linorder) xs"
  by (rule sortBy_sort_key) (simp add: cmp_le_ordered_Asc)

lemma sorted_desc_nat:
  "sortBy (\<lambda>a b. Some (ordered Desc (k a < k b) (k b < k a))) xs = sort_key (\<lambda>a. - int (k a)) xs"
  by (rule sortBy_sort_key) (simp add: cmp_le_ordered_Desc)

lemma sorted_rev_neg:
  "sorted (map (\<lambda>a. - int (k a)) xs) \<Longrightarrow> sorted (rev (map k xs))"
  by (simp add: sorted_wrt_rev sorted_wrt_map flip: rev_map)

lemma desc_rev:
  "map k (sort_key (\<lambda>a. - int (k a)) xs) = rev (map k (sort_key k xs))"
proof -
  have "sorted (map (\<lambda>a. - int (k a)) (sort_key (\<lambda>a. - int (k a)) xs))" by (rule sorted_sort_key)
  then have srt: "sorted (rev (map k (sort_key (\<lambda>a. - int (k a)) xs)))" by (rule sorted_rev_neg)
  have "mset (rev (map k (sort_key (\<lambda>a. - int (k a)) xs))) = mset (map k xs)" by simp
  from this srt have "sort (map k xs) = rev (map k (sort_key (\<lambda>a. - int (k a)) xs))"
    by (rule properties_for_sort)
  moreover have "sort (map k xs) = map k (sort_key k xs)"
    by (rule properties_for_sort) simp_all
  ultimately have "rev (map k (sort_key k xs)) = rev (rev (map k (sort_key (\<lambda>a. - int (k a)) xs)))"
    by simp
  then show ?thesis by simp
qed

section \<open>Properties of the summary\<close>




subsection \<open>The rows of the play statistics\<close>









subsection \<open>The catalog behind the rows\<close>








section \<open>The claims\<close>

text \<open>
  Claim C1, as the code has it. Whenever the aggregation returns statistics, a known
  character \<open>c\<close> and a recognized participant \<open>p\<close> have a cell. Its \<open>plays\<close> is the number
  of times the pair \<open>(p, c)\<close> is listed in the participant lists of the log, which is the
  number of records containing the pair when no record lists a participant entry
  twice. Its \<open>lastPlayed\<close> is absent exactly when no record contains the pair and, when
  the dates of the log are well formed, it is the maximum date among the records
  containing the pair. On a permutation of the log for which the aggregation returns
  too, the count is the same, and for well-formed dates so is the time value of
  \<open>lastPlayed\<close>, and the stored date string as well when different date strings of the
  log denote different times.
\<close>

theorem playStats_cell:
  assumes stats: "playStats ts spirits ps = Inr stats"
    and c: "c \<in> sp_spirit ` set spirits"
    and p: "p \<in> set (uniquePlayers ps)"
  shows "\<exists>cell. cellAt stats c p = Some cell
           \<and> plays cell = occurrences ps p c
           \<and> (list_all (\<lambda>play. distinct (players play)) ps \<longrightarrow>
                plays cell = length (contributing ps p c))
           \<and> ((lastPlayed cell = None) = (contributing ps p c = []))
           \<and> (validDates ts ps \<longrightarrow> isLatest ts (map date (contributing ps p c)) (lastPlayed cell))
           \<and> (\<forall>ps' stats'. mset ps' = mset ps \<longrightarrow> playStats ts spirits ps' = Inr stats' \<longrightarrow>
                (\<exists>cell'. cellAt stats' c p = Some cell'
                   \<and> plays cell' = plays cell
                   \<and> (validDates ts ps \<longrightarrow>
                        map_option ts (lastPlayed cell') = map_option ts (lastPlayed cell)
                        \<and> (inj_on ts (date ` set ps) \<longrightarrow> lastPlayed cell' = lastPlayed cell))))"
proof -
  let ?z = "\<lparr>plays = 0, lastPlayed = None\<rparr> :: PlayerStats"
  let ?cell = "fold (bump ts) (datesOf ps p c) ?z"
  from playStats_Inr[OF stats] have eq: "stats = tallyAll ts spirits (uniquePlayers ps) ps" .
  have cell: "cellAt stats c p = Some ?cell"
    using c p by (simp add: eq cellAt_tallyAll)
  have cnt: "plays ?cell = occurrences ps p c"
    by (simp add: plays_fold_bump length_datesOf)
  have "(datesOf ps p c = []) = (contributing ps p c = [])"
    using set_datesOf[of ps p c] by (metis image_is_empty set_empty)
  then have absent: "(lastPlayed ?cell = None) = (contributing ps p c = [])"
    by (simp add: lastPlayed_fold_bump_None)
  have set_eq: "set (map date (contributing ps p c)) = set (datesOf ps p c)"
    by (simp add: set_datesOf)
  have isLatest_cong: "isLatest ts ds v \<Longrightarrow> set ds' = set ds \<Longrightarrow> isLatest ts ds' v" for ds ds' v
    by (cases v) (auto simp: isLatest_def)
  have latest0: "isLatest ts (datesOf ps p c) (lastPlayed ?cell)" if valid: "validDates ts ps"
    using valid by (intro isLatest_fold_bump valid_datesOf)
  have latest: "isLatest ts (map date (contributing ps p c)) (lastPlayed ?cell)"
    if valid: "validDates ts ps"
    using latest0[OF valid] set_eq by (rule isLatest_cong)
  have perm: "\<exists>cell'. cellAt stats' c p = Some cell'
                   \<and> plays cell' = plays ?cell
                   \<and> (validDates ts ps \<longrightarrow>
                        map_option ts (lastPlayed cell') = map_option ts (lastPlayed ?cell)
                        \<and> (inj_on ts (date ` set ps) \<longrightarrow> lastPlayed cell' = lastPlayed ?cell))"
    if eq': "mset ps' = mset ps" and stats': "playStats ts spirits ps' = Inr stats'" for ps' stats'
  proof -
    let ?cell' = "fold (bump ts) (datesOf ps' p c) ?z"
    have up: "uniquePlayers ps' = uniquePlayers ps" using eq' by (rule uniquePlayers_perm)
    from playStats_Inr[OF stats'] have e': "stats' = tallyAll ts spirits (uniquePlayers ps') ps'" .
    have cell': "cellAt stats' c p = Some ?cell'"
      using c p up by (simp add: e' cellAt_tallyAll)
    have ms: "mset (datesOf ps' p c) = mset (datesOf ps p c)" using eq' by (rule mset_datesOf)
    then have len: "length (datesOf ps' p c) = length (datesOf ps p c)" by (rule mset_eq_length)
    from ms have st: "set (datesOf ps' p c) = set (datesOf ps p c)" by (rule mset_eq_setD)
    have dates: "map_option ts (lastPlayed ?cell') = map_option ts (lastPlayed ?cell)
        \<and> (inj_on ts (date ` set ps) \<longrightarrow> lastPlayed ?cell' = lastPlayed ?cell)"
      if valid: "validDates ts ps"
    proof -
      have "set ps' = set ps" using eq' by (rule mset_eq_setD)
      then have valid': "validDates ts ps'" using valid by (simp add: validDates_def list_all_iff)
      have latest': "isLatest ts (datesOf ps' p c) (lastPlayed ?cell')"
        using valid' by (intro isLatest_fold_bump valid_datesOf)
      have tseq: "map_option ts (lastPlayed ?cell') = map_option ts (lastPlayed ?cell)"
        using latest' latest0[OF valid] st by (rule isLatest_unique)
      have inj: "lastPlayed ?cell' = lastPlayed ?cell" if inj: "inj_on ts (date ` set ps)"
      proof (cases "lastPlayed ?cell")
        case None
        with tseq show ?thesis by simp
      next
        case (Some d)
        with tseq obtain d' where d': "lastPlayed ?cell' = Some d'" "ts d' = ts d" by auto
        from Some latest0[OF valid] have "d \<in> set (datesOf ps p c)" by (simp add: isLatest_def)
        then have "d \<in> date ` set ps" by (auto simp: set_datesOf contributing_def)
        moreover from d' latest' st have "d' \<in> set (datesOf ps p c)" by (simp add: isLatest_def)
        then have "d' \<in> date ` set ps" by (auto simp: set_datesOf contributing_def)
        ultimately have "d' = d" using inj d'(2) by (auto dest: inj_onD)
        with Some d' show ?thesis by simp
      qed
      from tseq inj show ?thesis by simp
    qed
    show ?thesis using cell' len dates
      by (intro exI[of _ ?cell']) (simp add: plays_fold_bump)
  qed
  show ?thesis
    using cell cnt absent latest perm occurrences_distinct[of ps p c]
    by (intro exI[of _ ?cell]) simp
qed

theorem playStats_cell_witness:
  "''River'' \<in> sp_spirit ` set [ex_River, ex_Fangs]
   \<and> ''A'' \<in> set (uniquePlayers ex_log3)
   \<and> list_all (\<lambda>play. distinct (players play)) ex_log3
   \<and> validDates isoDate ex_log3
   \<and> mset (rev ex_log3) = mset ex_log3
   \<and> inj_on isoDate (date ` set ex_log3)
   \<and> (\<exists>stats cell stats' cell'.
         playStats isoDate [ex_River, ex_Fangs] ex_log3 = Inr stats
       \<and> cellAt stats ''River'' ''A'' = Some cell
       \<and> plays cell = 3 \<and> length (contributing ex_log3 ''A'' ''River'') = 3
       \<and> lastPlayed cell \<noteq> None
       \<and> isLatest isoDate (map date (contributing ex_log3 ''A'' ''River'')) (lastPlayed cell)
       \<and> playStats isoDate [ex_River, ex_Fangs] (rev ex_log3) = Inr stats'
       \<and> cellAt stats' ''River'' ''A'' = Some cell'
       \<and> plays cell' = plays cell \<and> lastPlayed cell' = lastPlayed cell)"
proof -
  let ?S = "tallyAll isoDate [ex_River, ex_Fangs] (uniquePlayers ex_log3) ex_log3"
  let ?S' = "tallyAll isoDate [ex_River, ex_Fangs] (uniquePlayers (rev ex_log3)) (rev ex_log3)"
  have s: "playStats isoDate [ex_River, ex_Fangs] ex_log3 = Inr ?S" by code_simp
  have s': "playStats isoDate [ex_River, ex_Fangs] (rev ex_log3) = Inr ?S'" by code_simp
  have h1: "validDates isoDate ex_log3" by code_simp
  have h2: "''River'' \<in> sp_spirit ` set [ex_River, ex_Fangs]" by (simp add: ex_River_def)
  have h3: "''A'' \<in> set (uniquePlayers ex_log3)" by code_simp
  have h4: "list_all (\<lambda>play. distinct (players play)) ex_log3" by code_simp
  have h5: "mset (rev ex_log3) = mset ex_log3" by simp
  have h6: "inj_on isoDate (date ` set ex_log3)"
    by (simp add: ex_log3_def ex_play_def isoDate_def digit_def daysInMonth_def daysFromCivil_def)
  have n: "occurrences ex_log3 ''A'' ''River'' = 3" by code_simp
  have ne: "contributing ex_log3 ''A'' ''River'' \<noteq> []" by code_simp
  let ?P = "\<lambda>cell. cellAt ?S ''River'' ''A'' = Some cell
           \<and> plays cell = occurrences ex_log3 ''A'' ''River''
           \<and> (list_all (\<lambda>play. distinct (players play)) ex_log3 \<longrightarrow>
                plays cell = length (contributing ex_log3 ''A'' ''River''))
           \<and> ((lastPlayed cell = None) = (contributing ex_log3 ''A'' ''River'' = []))
           \<and> (validDates isoDate ex_log3 \<longrightarrow>
                isLatest isoDate (map date (contributing ex_log3 ''A'' ''River'')) (lastPlayed cell))
           \<and> (\<forall>ps' stats'. mset ps' = mset ex_log3 \<longrightarrow>
                playStats isoDate [ex_River, ex_Fangs] ps' = Inr stats' \<longrightarrow>
                (\<exists>cell'. cellAt stats' ''River'' ''A'' = Some cell'
                   \<and> plays cell' = plays cell
                   \<and> (validDates isoDate ex_log3 \<longrightarrow>
                        map_option isoDate (lastPlayed cell') = map_option isoDate (lastPlayed cell)
                        \<and> (inj_on isoDate (date ` set ex_log3) \<longrightarrow>
                             lastPlayed cell' = lastPlayed cell))))"
  from playStats_cell[OF s h2 h3] obtain cell where P: "?P cell" ..
  note c = P[THEN conjunct1]
    and k = P[THEN conjunct2, THEN conjunct1]
    and d = P[THEN conjunct2, THEN conjunct2, THEN conjunct1]
    and a = P[THEN conjunct2, THEN conjunct2, THEN conjunct2, THEN conjunct1]
    and l = P[THEN conjunct2, THEN conjunct2, THEN conjunct2, THEN conjunct2, THEN conjunct1]
    and q = P[THEN conjunct2, THEN conjunct2, THEN conjunct2, THEN conjunct2, THEN conjunct2]
  from q[rule_format, OF h5 s'] h1 h6 obtain cell' where
    "cellAt ?S' ''River'' ''A'' = Some cell'"
    "plays cell' = plays cell" "lastPlayed cell' = lastPlayed cell"
    by blast
  with s s' c k d a l n ne h1 h4 have "\<exists>stats cell stats' cell'.
         playStats isoDate [ex_River, ex_Fangs] ex_log3 = Inr stats
       \<and> cellAt stats ''River'' ''A'' = Some cell
       \<and> plays cell = 3 \<and> length (contributing ex_log3 ''A'' ''River'') = 3
       \<and> lastPlayed cell \<noteq> None
       \<and> isLatest isoDate (map date (contributing ex_log3 ''A'' ''River'')) (lastPlayed cell)
       \<and> playStats isoDate [ex_River, ex_Fangs] (rev ex_log3) = Inr stats'
       \<and> cellAt stats' ''River'' ''A'' = Some cell'
       \<and> plays cell' = plays cell \<and> lastPlayed cell' = lastPlayed cell"
    by (intro exI[of _ ?S] exI[of _ cell] exI[of _ ?S'] exI[of _ cell']) simp
  with h1 h2 h3 h4 h5 h6 show ?thesis by blast
qed

text \<open>
  The count of C1 as it was stated, the number of records containing the pair, fails for
  a record that lists the same pair twice: the record is one, the count is 2.
\<close>

theorem playStats_count_counterexample:
  "playStats isoDate [ex_River] ex_twice
     = Inr [(''River'', \<lparr>ps_spirit = ex_River,
               playerStats = [(''A'', \<lparr>plays = 2, lastPlayed = Some ''2024-01-01''\<rparr>)]\<rparr>)]
   \<and> length (contributing ex_twice ''A'' ''River'') = 1"
  by code_simp

text \<open>
  Claim C2, as the code has it. On the statistics that the aggregation returns, and
  for draws of \<open>Math.random()\<close> in \<open>[0, 1)\<close>, \<open>getRecommendations\<close> returns a dictionary
  with one entry for each recognized participant \<open>p\<close>, which holds for each of the
  four tiers what follows and nothing for any other key. When some member of the tier
  has zero plays by \<open>p\<close>, the recommendation is one of these members, with the reason
  \<open>Never played\<close>. When the tier has no member, there is no recommendation. For a log
  whose dates are well formed: when every member has been played and the last play
  of at least one member is earlier than the current time, the recommendation is the
  first member, in catalog order, whose last play is the earliest, with the reason
  \<open>Last played\<close> followed by the host's rendering of that time; when every member
  has been played and no last play is earlier than the current time, there is no
  recommendation.
\<close>

theorem spirit_recommendation:
  assumes stats: "playStats ts spirits ps = Inr stats"
    and rnd: "\<forall>p cx. 0 \<le> rnd p cx \<and> rnd p cx < 1"
  shows "\<exists>recs. recommendations ts fmt now rnd spirits ps = Inr recs
     \<and> getRecommendations ts fmt now rnd spirits (uniquePlayers ps) stats = Inr recs
     \<and> (\<forall>p. p \<notin> set (uniquePlayers ps) \<longrightarrow> map_of recs p = None)
     \<and> (\<forall>p \<in> set (uniquePlayers ps). \<exists>m. map_of recs p = Some m
          \<and> (\<forall>cx. cx \<notin> set complexityLevels \<longrightarrow> map_of m cx = None)
          \<and> (\<forall>cx \<in> set complexityLevels.
                (unplayedOf ps p (tierOf spirits cx) \<noteq> [] \<longrightarrow>
                   (\<exists>s \<in> set (unplayedOf ps p (tierOf spirits cx)).
                      map_of m cx = Some \<lparr>rec_spirit = Some s, reason = ''Never played''\<rparr>))
              \<and> (tierOf spirits cx = [] \<longrightarrow> map_of m cx = None)
              \<and> (validDates ts ps \<and> unplayedOf ps p (tierOf spirits cx) = []
                   \<and> (\<exists>s \<in> set (tierOf spirits cx). lastTime ts ps p (sp_spirit s) < Some now) \<longrightarrow>
                   (\<exists>ys s zs. tierOf spirits cx = ys @ s # zs
                      \<and> map_of m cx
                          = Some \<lparr>rec_spirit = Some s,
                                  reason = ''Last played '' @ fmt (lastTime ts ps p (sp_spirit s))\<rparr>
                      \<and> (\<forall>y \<in> set ys. lastTime ts ps p (sp_spirit s) < lastTime ts ps p (sp_spirit y))
                      \<and> (\<forall>z \<in> set zs. lastTime ts ps p (sp_spirit s) \<le> lastTime ts ps p (sp_spirit z))))
              \<and> (validDates ts ps \<and> unplayedOf ps p (tierOf spirits cx) = []
                   \<and> (\<forall>s \<in> set (tierOf spirits cx). \<not> lastTime ts ps p (sp_spirit s) < Some now) \<longrightarrow>
                   map_of m cx = None)))"
proof -
  let ?ups = "uniquePlayers ps"
  let ?f = "\<lambda>p cx. recommendFor ts fmt now (rnd p cx) spirits stats p cx"
  from playStats_Inr[OF stats] have eq: "stats = tallyAll ts spirits ?ups ps" .
  have tier: "\<exists>r. ?f p cx = Inr r
   \<and> (unplayedOf ps p (tierOf spirits cx) \<noteq> [] \<longrightarrow>
         (\<exists>s \<in> set (unplayedOf ps p (tierOf spirits cx)).
            r = Some \<lparr>rec_spirit = Some s, reason = ''Never played''\<rparr>))
   \<and> (tierOf spirits cx = [] \<longrightarrow> r = None)
   \<and> (validDates ts ps \<and> unplayedOf ps p (tierOf spirits cx) = []
        \<and> (\<exists>s \<in> set (tierOf spirits cx). lastTime ts ps p (sp_spirit s) < Some now) \<longrightarrow>
         (\<exists>ys s zs. tierOf spirits cx = ys @ s # zs
            \<and> r = Some \<lparr>rec_spirit = Some s,
                        reason = ''Last played '' @ fmt (lastTime ts ps p (sp_spirit s))\<rparr>
            \<and> (\<forall>y \<in> set ys. lastTime ts ps p (sp_spirit s) < lastTime ts ps p (sp_spirit y))
            \<and> (\<forall>z \<in> set zs. lastTime ts ps p (sp_spirit s) \<le> lastTime ts ps p (sp_spirit z))))
   \<and> (validDates ts ps \<and> unplayedOf ps p (tierOf spirits cx) = []
        \<and> (\<forall>s \<in> set (tierOf spirits cx). \<not> lastTime ts ps p (sp_spirit s) < Some now) \<longrightarrow>
         r = None)"
    if p: "p \<in> set ?ups" for p cx
    unfolding eq using rnd by (intro recommendFor_tier p) simp_all
  have tiers: "\<exists>m. tierRecommendations (?f p) complexityLevels [] = Inr m
      \<and> (\<forall>cx. map_of m cx =
            (if cx \<in> set complexityLevels
             then (case ?f p cx of Inr (Some r) \<Rightarrow> Some r | _ \<Rightarrow> None) else None))"
    if p: "p \<in> set ?ups" for p
  proof -
    have "\<forall>c \<in> set complexityLevels. \<exists>r. ?f p c = Inr r" using tier[OF p] by blast
    from tierRecommendations_map[OF this, of "[]"] show ?thesis
      by (auto split: sum.splits option.splits)
  qed
  then have "\<forall>p \<in> set ?ups. \<exists>m. tierRecommendations (?f p) complexityLevels [] = Inr m" by blast
  from playerRecommendations_map[OF this, of "[]"] obtain recs where
    recs: "playerRecommendations ?f ?ups [] = Inr recs"
    and look: "\<forall>p. map_of recs p =
          (if p \<in> set ?ups
           then (case tierRecommendations (?f p) complexityLevels [] of Inr m \<Rightarrow> Some m | Inl e \<Rightarrow> None)
           else None)"
    by auto
  from recs have get: "getRecommendations ts fmt now rnd spirits ?ups stats = Inr recs"
    by (simp add: getRecommendations_def)
  with stats have top: "recommendations ts fmt now rnd spirits ps = Inr recs"
    by (simp add: recommendations_def)
  have out: "\<forall>p. p \<notin> set ?ups \<longrightarrow> map_of recs p = None" using look by simp
  have each: "\<exists>m. map_of recs p = Some m
          \<and> (\<forall>cx. cx \<notin> set complexityLevels \<longrightarrow> map_of m cx = None)
          \<and> (\<forall>cx \<in> set complexityLevels.
                (unplayedOf ps p (tierOf spirits cx) \<noteq> [] \<longrightarrow>
                   (\<exists>s \<in> set (unplayedOf ps p (tierOf spirits cx)).
                      map_of m cx = Some \<lparr>rec_spirit = Some s, reason = ''Never played''\<rparr>))
              \<and> (tierOf spirits cx = [] \<longrightarrow> map_of m cx = None)
              \<and> (validDates ts ps \<and> unplayedOf ps p (tierOf spirits cx) = []
                   \<and> (\<exists>s \<in> set (tierOf spirits cx). lastTime ts ps p (sp_spirit s) < Some now) \<longrightarrow>
                   (\<exists>ys s zs. tierOf spirits cx = ys @ s # zs
                      \<and> map_of m cx
                          = Some \<lparr>rec_spirit = Some s,
                                  reason = ''Last played '' @ fmt (lastTime ts ps p (sp_spirit s))\<rparr>
                      \<and> (\<forall>y \<in> set ys. lastTime ts ps p (sp_spirit s) < lastTime ts ps p (sp_spirit y))
                      \<and> (\<forall>z \<in> set zs. lastTime ts ps p (sp_spirit s) \<le> lastTime ts ps p (sp_spirit z))))
              \<and> (validDates ts ps \<and> unplayedOf ps p (tierOf spirits cx) = []
                   \<and> (\<forall>s \<in> set (tierOf spirits cx). \<not> lastTime ts ps p (sp_spirit s) < Some now) \<longrightarrow>
                   map_of m cx = None))"
    if p: "p \<in> set ?ups" for p
  proof -
    from tiers[OF p] obtain m where m: "tierRecommendations (?f p) complexityLevels [] = Inr m"
      and mm: "\<forall>cx. map_of m cx =
            (if cx \<in> set complexityLevels
             then (case ?f p cx of Inr (Some r) \<Rightarrow> Some r | _ \<Rightarrow> None) else None)"
      by blast
    from look p m have lp: "map_of recs p = Some m" by simp
    have other: "\<forall>cx. cx \<notin> set complexityLevels \<longrightarrow> map_of m cx = None" using mm by simp
    have val: "map_of m cx = r" if "cx \<in> set complexityLevels" "?f p cx = Inr r" for cx r
      using mm that by (cases r) simp_all
    have "(unplayedOf ps p (tierOf spirits cx) \<noteq> [] \<longrightarrow>
                   (\<exists>s \<in> set (unplayedOf ps p (tierOf spirits cx)).
                      map_of m cx = Some \<lparr>rec_spirit = Some s, reason = ''Never played''\<rparr>))
              \<and> (tierOf spirits cx = [] \<longrightarrow> map_of m cx = None)
              \<and> (validDates ts ps \<and> unplayedOf ps p (tierOf spirits cx) = []
                   \<and> (\<exists>s \<in> set (tierOf spirits cx). lastTime ts ps p (sp_spirit s) < Some now) \<longrightarrow>
                   (\<exists>ys s zs. tierOf spirits cx = ys @ s # zs
                      \<and> map_of m cx
                          = Some \<lparr>rec_spirit = Some s,
                                  reason = ''Last played '' @ fmt (lastTime ts ps p (sp_spirit s))\<rparr>
                      \<and> (\<forall>y \<in> set ys. lastTime ts ps p (sp_spirit s) < lastTime ts ps p (sp_spirit y))
                      \<and> (\<forall>z \<in> set zs. lastTime ts ps p (sp_spirit s) \<le> lastTime ts ps p (sp_spirit z))))
              \<and> (validDates ts ps \<and> unplayedOf ps p (tierOf spirits cx) = []
                   \<and> (\<forall>s \<in> set (tierOf spirits cx). \<not> lastTime ts ps p (sp_spirit s) < Some now) \<longrightarrow>
                   map_of m cx = None)"
      if cx: "cx \<in> set complexityLevels" for cx
    proof -
      from tier[OF p, of cx] obtain r where r: "?f p cx = Inr r"
        and props: "(unplayedOf ps p (tierOf spirits cx) \<noteq> [] \<longrightarrow>
         (\<exists>s \<in> set (unplayedOf ps p (tierOf spirits cx)).
            r = Some \<lparr>rec_spirit = Some s, reason = ''Never played''\<rparr>))
   \<and> (tierOf spirits cx = [] \<longrightarrow> r = None)
   \<and> (validDates ts ps \<and> unplayedOf ps p (tierOf spirits cx) = []
        \<and> (\<exists>s \<in> set (tierOf spirits cx). lastTime ts ps p (sp_spirit s) < Some now) \<longrightarrow>
         (\<exists>ys s zs. tierOf spirits cx = ys @ s # zs
            \<and> r = Some \<lparr>rec_spirit = Some s,
                        reason = ''Last played '' @ fmt (lastTime ts ps p (sp_spirit s))\<rparr>
            \<and> (\<forall>y \<in> set ys. lastTime ts ps p (sp_spirit s) < lastTime ts ps p (sp_spirit y))
            \<and> (\<forall>z \<in> set zs. lastTime ts ps p (sp_spirit s) \<le> lastTime ts ps p (sp_spirit z))))
   \<and> (validDates ts ps \<and> unplayedOf ps p (tierOf spirits cx) = []
        \<and> (\<forall>s \<in> set (tierOf spirits cx). \<not> lastTime ts ps p (sp_spirit s) < Some now) \<longrightarrow>
         r = None)"
        by blast
      from val[OF cx r] props show ?thesis by simp
    qed
    with lp other show ?thesis by blast
  qed
  from top get out each show ?thesis by blast
qed

theorem spirit_recommendation_witness:
  "validDates isoDate ex_mixed
   \<and> (\<forall>p cx. 0 \<le> ex_rnd p cx \<and> ex_rnd p cx < 1)
   \<and> ''A'' \<in> set (uniquePlayers ex_mixed)
   \<and> ''LOW'' \<in> set complexityLevels
   \<and> tierOf [ex_River, ex_Fangs] ''LOW'' = [ex_River, ex_Fangs]
   \<and> unplayedOf ex_mixed ''A'' (tierOf [ex_River, ex_Fangs] ''LOW'') = []
   \<and> lastTime isoDate ex_mixed ''A'' ''River'' < Some ex_early
   \<and> \<not> lastTime isoDate ex_mixed ''A'' ''Fangs'' < Some ex_early
   \<and> (\<exists>stats. playStats isoDate [ex_River, ex_Fangs] ex_mixed = Inr stats
        \<and> getRecommendations isoDate ex_fmt ex_early ex_rnd [ex_River, ex_Fangs]
              (uniquePlayers ex_mixed) stats
            = Inr [(''A'', [(''LOW'', \<lparr>rec_spirit = Some ex_River,
                                      reason = ''Last played day 19723''\<rparr>)])])
   \<and> recommendations isoDate ex_fmt ex_early ex_rnd [ex_River, ex_Fangs] ex_mixed
       = Inr [(''A'', [(''LOW'', \<lparr>rec_spirit = Some ex_River,
                                 reason = ''Last played day 19723''\<rparr>)])]
   \<and> (\<exists>ys s zs. tierOf [ex_River, ex_Fangs] ''LOW'' = ys @ s # zs
        \<and> map_of [(''LOW'', \<lparr>rec_spirit = Some ex_River, reason = ''Last played day 19723''\<rparr>)] ''LOW''
            = Some \<lparr>rec_spirit = Some s,
                    reason = ''Last played '' @ ex_fmt (lastTime isoDate ex_mixed ''A'' (sp_spirit s))\<rparr>
        \<and> (\<forall>y \<in> set ys. lastTime isoDate ex_mixed ''A'' (sp_spirit s)
                          < lastTime isoDate ex_mixed ''A'' (sp_spirit y))
        \<and> (\<forall>z \<in> set zs. lastTime isoDate ex_mixed ''A'' (sp_spirit s)
                          \<le> lastTime isoDate ex_mixed ''A'' (sp_spirit z)))"
proof -
  let ?cat = "[ex_River, ex_Fangs]"
  let ?S = "tallyAll isoDate ?cat (uniquePlayers ex_mixed) ex_mixed"
  let ?M = "[(''LOW'', \<lparr>rec_spirit = Some ex_River, reason = ''Last played day 19723''\<rparr>)]"
  let ?R = "[(''A'', ?M)]"
  have h1: "validDates isoDate ex_mixed" by code_simp
  have h2: "playStats isoDate ?cat ex_mixed = Inr ?S" by code_simp
  have h3: "\<forall>p cx. 0 \<le> ex_rnd p cx \<and> ex_rnd p cx < 1" by (simp add: ex_rnd_def)
  have pA: "''A'' \<in> set (uniquePlayers ex_mixed)" by code_simp
  have cL: "''LOW'' \<in> set complexityLevels" by (simp add: complexityLevels_def)
  have tL: "tierOf ?cat ''LOW'' = [ex_River, ex_Fangs]" by code_simp
  have uL: "unplayedOf ex_mixed ''A'' (tierOf ?cat ''LOW'') = []" by code_simp
  have lR: "lastTime isoDate ex_mixed ''A'' ''River'' < Some ex_early" by code_simp
  have lF: "\<not> lastTime isoDate ex_mixed ''A'' ''Fangs'' < Some ex_early" by code_simp
  have ev: "recommendations isoDate ex_fmt ex_early ex_rnd ?cat ex_mixed = Inr ?R" by code_simp
  have some: "\<exists>s \<in> set (tierOf ?cat ''LOW''). lastTime isoDate ex_mixed ''A'' (sp_spirit s) < Some ex_early"
    using lR unfolding tL by (simp add: ex_River_def)
  from spirit_recommendation[OF h2 h3, of ex_fmt ex_early] obtain recs where
    top: "recommendations isoDate ex_fmt ex_early ex_rnd ?cat ex_mixed = Inr recs"
    and get: "getRecommendations isoDate ex_fmt ex_early ex_rnd ?cat (uniquePlayers ex_mixed) ?S = Inr recs"
    and each: "\<forall>p \<in> set (uniquePlayers ex_mixed). \<exists>m. map_of recs p = Some m
          \<and> (\<forall>cx. cx \<notin> set complexityLevels \<longrightarrow> map_of m cx = None)
          \<and> (\<forall>cx \<in> set complexityLevels.
                (unplayedOf ex_mixed p (tierOf ?cat cx) \<noteq> [] \<longrightarrow>
                   (\<exists>s \<in> set (unplayedOf ex_mixed p (tierOf ?cat cx)).
                      map_of m cx = Some \<lparr>rec_spirit = Some s, reason = ''Never played''\<rparr>))
              \<and> (tierOf ?cat cx = [] \<longrightarrow> map_of m cx = None)
              \<and> (validDates isoDate ex_mixed \<and> unplayedOf ex_mixed p (tierOf ?cat cx) = []
                   \<and> (\<exists>s \<in> set (tierOf ?cat cx). lastTime isoDate ex_mixed p (sp_spirit s) < Some ex_early) \<longrightarrow>
                   (\<exists>ys s zs. tierOf ?cat cx = ys @ s # zs
                      \<and> map_of m cx
                          = Some \<lparr>rec_spirit = Some s,
                                  reason = ''Last played '' @ ex_fmt (lastTime isoDate ex_mixed p (sp_spirit s))\<rparr>
                      \<and> (\<forall>y \<in> set ys. lastTime isoDate ex_mixed p (sp_spirit s) < lastTime isoDate ex_mixed p (sp_spirit y))
                      \<and> (\<forall>z \<in> set zs. lastTime isoDate ex_mixed p (sp_spirit s) \<le> lastTime isoDate ex_mixed p (sp_spirit z))))
              \<and> (validDates isoDate ex_mixed \<and> unplayedOf ex_mixed p (tierOf ?cat cx) = []
                   \<and> (\<forall>s \<in> set (tierOf ?cat cx). \<not> lastTime isoDate ex_mixed p (sp_spirit s) < Some ex_early) \<longrightarrow>
                   map_of m cx = None))"
    by blast
  from top ev have recs: "recs = ?R" by simp
  from each[rule_format, OF pA] obtain m where m: "map_of recs ''A'' = Some m"
    and tiers: "\<forall>cx \<in> set complexityLevels.
                (unplayedOf ex_mixed ''A'' (tierOf ?cat cx) \<noteq> [] \<longrightarrow>
                   (\<exists>s \<in> set (unplayedOf ex_mixed ''A'' (tierOf ?cat cx)).
                      map_of m cx = Some \<lparr>rec_spirit = Some s, reason = ''Never played''\<rparr>))
              \<and> (tierOf ?cat cx = [] \<longrightarrow> map_of m cx = None)
              \<and> (validDates isoDate ex_mixed \<and> unplayedOf ex_mixed ''A'' (tierOf ?cat cx) = []
                   \<and> (\<exists>s \<in> set (tierOf ?cat cx). lastTime isoDate ex_mixed ''A'' (sp_spirit s) < Some ex_early) \<longrightarrow>
                   (\<exists>ys s zs. tierOf ?cat cx = ys @ s # zs
                      \<and> map_of m cx
                          = Some \<lparr>rec_spirit = Some s,
                                  reason = ''Last played '' @ ex_fmt (lastTime isoDate ex_mixed ''A'' (sp_spirit s))\<rparr>
                      \<and> (\<forall>y \<in> set ys. lastTime isoDate ex_mixed ''A'' (sp_spirit s) < lastTime isoDate ex_mixed ''A'' (sp_spirit y))
                      \<and> (\<forall>z \<in> set zs. lastTime isoDate ex_mixed ''A'' (sp_spirit s) \<le> lastTime isoDate ex_mixed ''A'' (sp_spirit z))))
              \<and> (validDates isoDate ex_mixed \<and> unplayedOf ex_mixed ''A'' (tierOf ?cat cx) = []
                   \<and> (\<forall>s \<in> set (tierOf ?cat cx). \<not> lastTime isoDate ex_mixed ''A'' (sp_spirit s) < Some ex_early) \<longrightarrow>
                   map_of m cx = None)"
    by blast
  from m recs have mM: "m = ?M" by simp
  from tiers[rule_format, OF cL] h1 uL some
  have old: "\<exists>ys s zs. tierOf ?cat ''LOW'' = ys @ s # zs
        \<and> map_of m ''LOW''
            = Some \<lparr>rec_spirit = Some s,
                    reason = ''Last played '' @ ex_fmt (lastTime isoDate ex_mixed ''A'' (sp_spirit s))\<rparr>
        \<and> (\<forall>y \<in> set ys. lastTime isoDate ex_mixed ''A'' (sp_spirit s)
                          < lastTime isoDate ex_mixed ''A'' (sp_spirit y))
        \<and> (\<forall>z \<in> set zs. lastTime isoDate ex_mixed ''A'' (sp_spirit s)
                          \<le> lastTime isoDate ex_mixed ''A'' (sp_spirit z))"
    by blast
  from get recs h2 have g: "\<exists>stats. playStats isoDate ?cat ex_mixed = Inr stats
        \<and> getRecommendations isoDate ex_fmt ex_early ex_rnd ?cat (uniquePlayers ex_mixed) stats = Inr ?R"
    by blast
  show ?thesis by (intro conjI h1 h3 pA cL tL uL lR lF g ev old[unfolded mM])
qed

text \<open>
  C2 as it was stated fails in two ways. The reasons are the strings \<open>Never played\<close> and
  \<open>Last played ...\<close>, not \<open>never played\<close> and \<open>last played ...\<close>: here \<open>A\<close> has played a
  spirit outside the catalog only, and then both characters of a tier. And a tier
  whose every member has been played gets no recommendation at all when no last play
  is earlier than the current time: here the one member of the tier was played on
  2024-03-01 and the current time is 2024-02-29, 23:00 UTC.
\<close>

theorem spirit_recommendation_counterexample:
  "recommendations isoDate ex_fmt ex_now ex_rnd [ex_Ocean] [ex_play ''2024-03-01'' [(''A'', ''River'')]]
     = Inr [(''A'', [(''HIGH'', \<lparr>rec_spirit = Some ex_Ocean, reason = ''Never played''\<rparr>)])]
   \<and> ''Never played'' \<noteq> ''never played''
   \<and> recommendations isoDate ex_fmt ex_now ex_rnd [ex_River, ex_Fangs] ex_mixed
     = Inr [(''A'', [(''LOW'', \<lparr>rec_spirit = Some ex_River, reason = ''Last played day 19723''\<rparr>)])]
   \<and> take 11 ''Last played day 19723'' \<noteq> ''last played''
   \<and> tierOf [ex_Ocean] ''HIGH'' = [ex_Ocean]
   \<and> occurrences ex_once ''A'' ''Ocean'' = 1
   \<and> recommendations isoDate ex_fmt ex_early ex_rnd [ex_Ocean] ex_once = Inr [(''A'', [])]"
  by code_simp

text \<open>
  Claim C3. \<open>getAdversaryRecommendation\<close> emits one recommendation for each entry of the
  adversary catalog and nothing else: its result is a rearrangement of the
  recommendations computed for the catalog entries. For the entry \<open>a\<close>, the recommended
  level is \<open>min (highestPlayedLevel + 1) 6\<close>, where \<open>highestPlayedLevel\<close> is the largest
  level of 0 to 6 present in the statistics of the adversary with at least one play,
  and \<open>-1\<close> when there is none, which gives level 0. The difficulty is the base
  difficulty at level 0, otherwise the difficulty of the first declared level entry
  with that number, and the base difficulty when no entry has that number.
\<close>

theorem next_level_and_difficulty:
  "mset (getAdversaryRecommendation ts fmt adversaries stats)
     = mset (map (recommendAdversary ts fmt stats) adversaries)
   \<and> length (getAdversaryRecommendation ts fmt adversaries stats) = length adversaries
   \<and> (\<forall>a \<in> set adversaries.
         recommendAdversary ts fmt stats a \<in> set (getAdversaryRecommendation ts fmt adversaries stats))
   \<and> (\<forall>r \<in> set (getAdversaryRecommendation ts fmt adversaries stats).
         \<exists>a \<in> set adversaries. r = recommendAdversary ts fmt stats a)
   \<and> rec_adversary (recommendAdversary ts fmt stats a) = Adversary a
   \<and> rec_level (recommendAdversary ts fmt stats a)
       = min (highestPlayedLevel (map_of stats (Adversary a)) + 1) 6
   \<and> (highestPlayedLevel (map_of stats (Adversary a)) = - 1 \<longrightarrow>
        rec_level (recommendAdversary ts fmt stats a) = 0)
   \<and> (rec_level (recommendAdversary ts fmt stats a) = 0 \<longrightarrow>
        rec_difficulty (recommendAdversary ts fmt stats a) = Base_Difficulty a)
   \<and> (rec_level (recommendAdversary ts fmt stats a) \<noteq> 0 \<longrightarrow>
        rec_difficulty (recommendAdversary ts fmt stats a)
          = (case find (\<lambda>l. Level l = rec_level (recommendAdversary ts fmt stats a)) (Levels a) of
               Some l \<Rightarrow> Difficulty l
             | None \<Rightarrow> Base_Difficulty a))
   \<and> ((\<forall>l \<in> set (Levels a). Level l \<noteq> rec_level (recommendAdversary ts fmt stats a)) \<longrightarrow>
        rec_difficulty (recommendAdversary ts fmt stats a) = Base_Difficulty a)"
proof -
  let ?out = "getAdversaryRecommendation ts fmt adversaries stats"
  have ms: "mset ?out = mset (map (recommendAdversary ts fmt stats) adversaries)"
    by (simp add: getAdversaryRecommendation_def mset_sortBy)
  from ms have len: "length ?out = length adversaries"
    using mset_eq_length by fastforce
  from ms have st: "set ?out = recommendAdversary ts fmt stats ` set adversaries"
    using mset_eq_setD by fastforce
  obtain h d where sc: "scanLevels ts (map_of stats (Adversary a)) = (h, d)"
    by (cases "scanLevels ts (map_of stats (Adversary a))")
  then have h: "h = highestPlayedLevel (map_of stats (Adversary a))"
    using fst_scanLevels[of ts "map_of stats (Adversary a)"] by simp
  have name: "rec_adversary (recommendAdversary ts fmt stats a) = Adversary a"
    by (simp add: recommendAdversary_def sc Let_def)
  have lvl: "rec_level (recommendAdversary ts fmt stats a) = min (h + 1) 6"
    by (simp add: recommendAdversary_def sc Let_def)
  have dif: "rec_difficulty (recommendAdversary ts fmt stats a)
      = (if min (h + 1) 6 = 0 then Base_Difficulty a
         else (case find (\<lambda>l. Level l = min (h + 1) 6) (Levels a) of
            Some l \<Rightarrow> Difficulty l | None \<Rightarrow> Base_Difficulty a))"
    by (simp add: recommendAdversary_def sc Let_def)
  have und: "rec_difficulty (recommendAdversary ts fmt stats a) = Base_Difficulty a"
    if "\<forall>l \<in> set (Levels a). Level l \<noteq> min (h + 1) 6"
    using that find_undeclared[of "min (h + 1) 6" "Levels a"] by (simp add: dif)
  have emit: "\<forall>a \<in> set adversaries. recommendAdversary ts fmt stats a \<in> set ?out"
    and only: "\<forall>r \<in> set ?out. \<exists>a \<in> set adversaries. r = recommendAdversary ts fmt stats a"
    unfolding st by auto
  show ?thesis using ms len emit only name lvl dif und h by simp
qed

theorem next_level_and_difficulty_witness:
  "highestPlayedLevel (map_of (buildAdversaryStats isoDate [ex_Prussia, ex_Sweden] []) ''Prussia'') = - 1
   \<and> map (\<lambda>r. (rec_adversary r, rec_level r, rec_difficulty r))
         (getAdversaryRecommendation isoDate ex_fmt [ex_Prussia, ex_Sweden]
            (buildAdversaryStats isoDate [ex_Prussia, ex_Sweden] []))
       = [(''Prussia'', 0, 1), (''Sweden'', 0, 1)]
   \<and> highestPlayedLevel (map_of (buildAdversaryStats isoDate [ex_Prussia, ex_Sweden] ex_advlog) ''Prussia'') = 1
   \<and> highestPlayedLevel (map_of (buildAdversaryStats isoDate [ex_Prussia, ex_Sweden] ex_advlog) ''Sweden'') = 1
   \<and> list_all (\<lambda>l. Level l \<noteq> 2) (Levels ex_Sweden)
   \<and> map (\<lambda>r. (rec_adversary r, rec_level r, rec_difficulty r))
         (getAdversaryRecommendation isoDate ex_fmt [ex_Prussia, ex_Sweden]
            (buildAdversaryStats isoDate [ex_Prussia, ex_Sweden] ex_advlog))
       = [(''Sweden'', 2, 1), (''Prussia'', 2, 4)]
   \<and> length (getAdversaryRecommendation isoDate ex_fmt [ex_Prussia, ex_Sweden]
         (buildAdversaryStats isoDate [ex_Prussia, ex_Sweden] ex_advlog)) = 2
   \<and> list_ex (\<lambda>r. rec_adversary r = ''Prussia'' \<and> rec_level r = 2 \<and> rec_difficulty r = 4)
         (getAdversaryRecommendation isoDate ex_fmt [ex_Prussia, ex_Sweden]
            (buildAdversaryStats isoDate [ex_Prussia, ex_Sweden] ex_advlog))
   \<and> list_ex (\<lambda>r. rec_adversary r = ''Sweden'' \<and> rec_level r = 2 \<and> rec_difficulty r = 1)
         (getAdversaryRecommendation isoDate ex_fmt [ex_Prussia, ex_Sweden]
            (buildAdversaryStats isoDate [ex_Prussia, ex_Sweden] ex_advlog))
   \<and> rec_level (recommendAdversary isoDate ex_fmt
         (buildAdversaryStats isoDate [ex_Prussia, ex_Sweden] []) ex_Prussia) = 0
   \<and> rec_difficulty (recommendAdversary isoDate ex_fmt
         (buildAdversaryStats isoDate [ex_Prussia, ex_Sweden] []) ex_Prussia) = 1"
proof -
  let ?E = "buildAdversaryStats isoDate [ex_Prussia, ex_Sweden] []"
  let ?S = "buildAdversaryStats isoDate [ex_Prussia, ex_Sweden] ex_advlog"
  let ?out = "getAdversaryRecommendation isoDate ex_fmt [ex_Prussia, ex_Sweden] ?S"
  have nP: "Adversary ex_Prussia = ''Prussia''" and nS: "Adversary ex_Sweden = ''Sweden''"
    and bP: "Base_Difficulty ex_Prussia = 1" and bS: "Base_Difficulty ex_Sweden = 1"
    by (simp_all add: ex_Prussia_def ex_Sweden_def ex_adversary_def)
  have h0: "highestPlayedLevel (map_of ?E ''Prussia'') = - 1" by code_simp
  have h1: "highestPlayedLevel (map_of ?S ''Prussia'') = 1" by code_simp
  have h2: "highestPlayedLevel (map_of ?S ''Sweden'') = 1" by code_simp
  have f: "find (\<lambda>l. Level l = 2) (Levels ex_Prussia) = Some (ex_level 2 4)"
    by (simp add: ex_Prussia_def ex_adversary_def ex_level_def)
  have u: "list_all (\<lambda>l. Level l \<noteq> 2) (Levels ex_Sweden)"
    by (simp add: ex_Sweden_def ex_adversary_def ex_level_def)
  have e0: "map (\<lambda>r. (rec_adversary r, rec_level r, rec_difficulty r))
         (getAdversaryRecommendation isoDate ex_fmt [ex_Prussia, ex_Sweden] ?E)
       = [(''Prussia'', 0, 1), (''Sweden'', 0, 1)]" by code_simp
  have e1: "map (\<lambda>r. (rec_adversary r, rec_level r, rec_difficulty r)) ?out
       = [(''Sweden'', 2, 1), (''Prussia'', 2, 4)]" by code_simp
  note a = next_level_and_difficulty[of isoDate ex_fmt "[ex_Prussia, ex_Sweden]" ?E ex_Prussia]
  note b = next_level_and_difficulty[of isoDate ex_fmt "[ex_Prussia, ex_Sweden]" ?S ex_Prussia]
  note c = next_level_and_difficulty[of isoDate ex_fmt "[ex_Prussia, ex_Sweden]" ?S ex_Sweden]
  from a h0 have a1: "rec_level (recommendAdversary isoDate ex_fmt ?E ex_Prussia) = 0"
    by (simp add: nP)
  with a have a2: "rec_difficulty (recommendAdversary isoDate ex_fmt ?E ex_Prussia) = 1"
    by (simp add: bP)
  from b have len: "length ?out = 2" by simp
  from b h1 have b1: "rec_level (recommendAdversary isoDate ex_fmt ?S ex_Prussia) = 2"
    by (simp add: nP)
  with b f have b2: "rec_difficulty (recommendAdversary isoDate ex_fmt ?S ex_Prussia) = 4"
    by (simp add: ex_level_def)
  from b have b0: "rec_adversary (recommendAdversary isoDate ex_fmt ?S ex_Prussia) = ''Prussia''"
    by (simp add: nP)
  from b have bin: "recommendAdversary isoDate ex_fmt ?S ex_Prussia \<in> set ?out" by simp
  from c h2 have c1: "rec_level (recommendAdversary isoDate ex_fmt ?S ex_Sweden) = 2"
    by (simp add: nS)
  with c u have c2: "rec_difficulty (recommendAdversary isoDate ex_fmt ?S ex_Sweden) = 1"
    by (simp add: bS list_all_iff)
  from c have c0: "rec_adversary (recommendAdversary isoDate ex_fmt ?S ex_Sweden) = ''Sweden''"
    by (simp add: nS)
  from c have cin: "recommendAdversary isoDate ex_fmt ?S ex_Sweden \<in> set ?out" by simp
  from bin b0 b1 b2
  have exP: "list_ex (\<lambda>r. rec_adversary r = ''Prussia'' \<and> rec_level r = 2 \<and> rec_difficulty r = 4) ?out"
    unfolding list_ex_iff by blast
  from cin c0 c1 c2
  have exS: "list_ex (\<lambda>r. rec_adversary r = ''Sweden'' \<and> rec_level r = 2 \<and> rec_difficulty r = 1) ?out"
    unfolding list_ex_iff by blast
  show ?thesis by (intro conjI h0 e0 h1 h2 u e1 len exP exS a1 a2)
qed

text \<open>
  Claim C4. For a log whose dates are well formed, the list of adversary
  recommendations holds one recommendation per catalog entry; no adversary with a
  last-played date stands before one without; the adversaries without one are in
  catalog order; the others are in ascending order of the time of their last-played
  date. The last-played date of a recommendation is the maximum date among the plays
  counted for the adversary at a level of 0 to 6 present in its statistics, and is
  absent exactly when there is no such play.
\<close>

theorem adversary_recommendation_order:
  assumes valid: "validDates ts ps"
  shows "mset (getAdversaryRecommendation ts fmt adversaries (buildAdversaryStats ts adversaries ps))
           = mset (map (recommendAdversary ts fmt (buildAdversaryStats ts adversaries ps)) adversaries)
   \<and> sorted_wrt (\<lambda>x y. rec_lastPlayed y = None \<longrightarrow> rec_lastPlayed x = None)
         (getAdversaryRecommendation ts fmt adversaries (buildAdversaryStats ts adversaries ps))
   \<and> filter (\<lambda>r. rec_lastPlayed r = None)
         (getAdversaryRecommendation ts fmt adversaries (buildAdversaryStats ts adversaries ps))
       = filter (\<lambda>r. rec_lastPlayed r = None)
           (map (recommendAdversary ts fmt (buildAdversaryStats ts adversaries ps)) adversaries)
   \<and> sorted_wrt (\<lambda>x y. \<forall>dx dy. rec_lastPlayed x = Some dx \<longrightarrow> rec_lastPlayed y = Some dy \<longrightarrow>
                     (\<exists>tx ty. ts dx = Some tx \<and> ts dy = Some ty \<and> tx \<le> ty))
         (getAdversaryRecommendation ts fmt adversaries (buildAdversaryStats ts adversaries ps))
   \<and> (\<forall>a \<in> set adversaries.
         isLatest ts
           (map date (countedPlays ps (map_of (buildAdversaryStats ts adversaries ps) (Adversary a)) (Adversary a)))
           (rec_lastPlayed (recommendAdversary ts fmt (buildAdversaryStats ts adversaries ps) a)))"
proof -
  let ?stats = "buildAdversaryStats ts adversaries ps"
  let ?recs = "map (recommendAdversary ts fmt ?stats) adversaries"
  let ?out = "getAdversaryRecommendation ts fmt adversaries ?stats"
  have latest: "isLatest ts (map date (countedPlays ps (map_of ?stats (Adversary a)) (Adversary a)))
           (rec_lastPlayed (recommendAdversary ts fmt ?stats a))" for a
    using valid by (rule rec_lastPlayed_latest)
  have parse: "ts d \<noteq> None" if "r \<in> set ?recs" "rec_lastPlayed r = Some d" for r d
  proof -
    from that(1) obtain a where "r = recommendAdversary ts fmt ?stats a" by auto
    with latest[of a] that(2) show ?thesis by (auto simp: isLatest_def)
  qed
  have "\<forall>x \<in> set ?recs. \<forall>y \<in> set ?recs. cmp_le (compareRecs ts) x y = (recKey ts x \<le> recKey ts y)"
    using parse by (intro ballI cmp_le_compareRecs) blast+
  then have out: "?out = sort_key (recKey ts) ?recs"
    unfolding getAdversaryRecommendation_def by (rule sortBy_sort_key)
  have m: "mset ?out = mset ?recs" by (simp add: out)
  then have set_out: "set ?out = set ?recs" by (rule mset_eq_setD)
  have srt: "sorted_wrt (\<lambda>x y. recKey ts x \<le> recKey ts y) ?out"
    using sorted_sort_key[of "recKey ts" ?recs] by (simp add: out sorted_wrt_map)
  have key_None: "(recKey ts r = None) = (rec_lastPlayed r = None)" if "r \<in> set ?recs" for r
    using parse[OF that] by (cases "rec_lastPlayed r") (auto simp: recKey_def)
  have never_first: "sorted_wrt (\<lambda>x y. rec_lastPlayed y = None \<longrightarrow> rec_lastPlayed x = None) ?out"
  proof (rule sorted_wrt_mono_rel[OF _ srt])
    fix x y assume "x \<in> set ?out" "y \<in> set ?out" "recKey ts x \<le> recKey ts y"
    then show "rec_lastPlayed y = None \<longrightarrow> rec_lastPlayed x = None"
      using key_None[of x] key_None[of y] set_out by (cases "recKey ts x") auto
  qed
  have stable: "filter (\<lambda>r. rec_lastPlayed r = None) ?out = filter (\<lambda>r. rec_lastPlayed r = None) ?recs"
  proof -
    have "filter (\<lambda>r. rec_lastPlayed r = None) ?out = filter (\<lambda>r. recKey ts r = None) ?out"
      using key_None set_out by (intro filter_cong) auto
    also have "\<dots> = filter (\<lambda>r. recKey ts r = None) ?recs"
      unfolding out by (rule sort_key_stable)
    also have "\<dots> = filter (\<lambda>r. rec_lastPlayed r = None) ?recs"
      using key_None by (intro filter_cong) auto
    finally show ?thesis .
  qed
  have by_date: "sorted_wrt (\<lambda>x y. \<forall>dx dy. rec_lastPlayed x = Some dx \<longrightarrow> rec_lastPlayed y = Some dy \<longrightarrow>
                     (\<exists>tx ty. ts dx = Some tx \<and> ts dy = Some ty \<and> tx \<le> ty)) ?out"
  proof (rule sorted_wrt_mono_rel[OF _ srt])
    fix x y assume xy: "x \<in> set ?out" "y \<in> set ?out" "recKey ts x \<le> recKey ts y"
    show "\<forall>dx dy. rec_lastPlayed x = Some dx \<longrightarrow> rec_lastPlayed y = Some dy \<longrightarrow>
                     (\<exists>tx ty. ts dx = Some tx \<and> ts dy = Some ty \<and> tx \<le> ty)"
    proof (intro allI impI)
      fix dx dy assume d: "rec_lastPlayed x = Some dx" "rec_lastPlayed y = Some dy"
      with xy set_out parse[of x dx] parse[of y dy]
      obtain tx ty where "ts dx = Some tx" "ts dy = Some ty" by auto
      with d xy(3) show "\<exists>tx ty. ts dx = Some tx \<and> ts dy = Some ty \<and> tx \<le> ty"
        by (simp add: recKey_def)
    qed
  qed
  from m never_first stable by_date latest show ?thesis by blast
qed

theorem adversary_recommendation_order_witness:
  "validDates isoDate ex_advlog
   \<and> map rec_adversary (getAdversaryRecommendation isoDate ex_fmt ex_advs
         (buildAdversaryStats isoDate ex_advs ex_advlog)) = [''France'', ''Sweden'', ''Prussia'']
   \<and> map rec_lastPlayed (getAdversaryRecommendation isoDate ex_fmt ex_advs
         (buildAdversaryStats isoDate ex_advs ex_advlog))
       = [None, Some ''2024-01-20'', Some ''2024-02-10'']
   \<and> sorted_wrt (\<lambda>x y. rec_lastPlayed y = None \<longrightarrow> rec_lastPlayed x = None)
         (getAdversaryRecommendation isoDate ex_fmt ex_advs (buildAdversaryStats isoDate ex_advs ex_advlog))
   \<and> filter (\<lambda>r. rec_lastPlayed r = None)
         (getAdversaryRecommendation isoDate ex_fmt ex_advs (buildAdversaryStats isoDate ex_advs ex_advlog))
       = filter (\<lambda>r. rec_lastPlayed r = None)
           (map (recommendAdversary isoDate ex_fmt (buildAdversaryStats isoDate ex_advs ex_advlog)) ex_advs)
   \<and> ex_Sweden \<in> set ex_advs
   \<and> isLatest isoDate
         (map date (countedPlays ex_advlog
            (map_of (buildAdversaryStats isoDate ex_advs ex_advlog) (Adversary ex_Sweden)) (Adversary ex_Sweden)))
         (rec_lastPlayed (recommendAdversary isoDate ex_fmt (buildAdversaryStats isoDate ex_advs ex_advlog) ex_Sweden))"
proof -
  have h: "validDates isoDate ex_advlog" by code_simp
  have e1: "map rec_adversary (getAdversaryRecommendation isoDate ex_fmt ex_advs
         (buildAdversaryStats isoDate ex_advs ex_advlog)) = [''France'', ''Sweden'', ''Prussia'']"
    by code_simp
  have e2: "map rec_lastPlayed (getAdversaryRecommendation isoDate ex_fmt ex_advs
         (buildAdversaryStats isoDate ex_advs ex_advlog))
       = [None, Some ''2024-01-20'', Some ''2024-02-10'']"
    by code_simp
  have s: "ex_Sweden \<in> set ex_advs" by (simp add: ex_advs_def)
  from adversary_recommendation_order[OF h, of ex_fmt ex_advs] h e1 e2 s
  show ?thesis by blast
qed

text \<open>
  Claim C5. In the statistics that the aggregation returns, every character of the
  catalog has a cell for every recognized participant, and a pair that no play
  record contains has \<open>plays = 0\<close> and no \<open>lastPlayed\<close>.
\<close>

theorem playStats_default_cell:
  assumes stats: "playStats ts spirits ps = Inr stats"
    and c: "c \<in> sp_spirit ` set spirits"
    and p: "p \<in> set (uniquePlayers ps)"
  shows "\<exists>cell. cellAt stats c p = Some cell
           \<and> (contributing ps p c = [] \<longrightarrow> plays cell = 0 \<and> lastPlayed cell = None)"
proof -
  from stats have eq: "stats = tallyAll ts spirits (uniquePlayers ps) ps"
    by (simp add: playStats_Inr)
  have "datesOf ps p c = []" if "contributing ps p c = []"
    using set_datesOf[of ps p c] that by simp
  then show ?thesis
    using c p by (auto simp: eq cellAt_tallyAll)
qed

theorem playStats_default_cell_witness:
  "playStats isoDate [ex_River, ex_Fangs] ex_log3
     = Inr [(''River'', \<lparr>ps_spirit = ex_River,
               playerStats = [(''A'', \<lparr>plays = 3, lastPlayed = Some ''2024-03-15''\<rparr>),
                              (''E'', \<lparr>plays = 0, lastPlayed = None\<rparr>)]\<rparr>),
            (''Fangs'', \<lparr>ps_spirit = ex_Fangs,
               playerStats = [(''A'', \<lparr>plays = 0, lastPlayed = None\<rparr>),
                              (''E'', \<lparr>plays = 1, lastPlayed = Some ''2024-03-15''\<rparr>)]\<rparr>)]
   \<and> ''Fangs'' \<in> sp_spirit ` set [ex_River, ex_Fangs]
   \<and> ''A'' \<in> set (uniquePlayers ex_log3)
   \<and> contributing ex_log3 ''A'' ''Fangs'' = []
   \<and> (\<exists>stats. playStats isoDate [ex_River, ex_Fangs] ex_log3 = Inr stats
         \<and> cellAt stats ''Fangs'' ''A'' = Some \<lparr>plays = 0, lastPlayed = None\<rparr>)"
proof -
  let ?S = "[(''River'', \<lparr>ps_spirit = ex_River,
               playerStats = [(''A'', \<lparr>plays = 3, lastPlayed = Some ''2024-03-15''\<rparr>),
                              (''E'', \<lparr>plays = 0, lastPlayed = None\<rparr>)]\<rparr>),
            (''Fangs'', \<lparr>ps_spirit = ex_Fangs,
               playerStats = [(''A'', \<lparr>plays = 0, lastPlayed = None\<rparr>),
                              (''E'', \<lparr>plays = 1, lastPlayed = Some ''2024-03-15''\<rparr>)]\<rparr>)]"
  have h0: "playStats isoDate [ex_River, ex_Fangs] ex_log3 = Inr ?S" by code_simp
  have h1: "''Fangs'' \<in> sp_spirit ` set [ex_River, ex_Fangs]" by (simp add: ex_Fangs_def)
  have h2: "''A'' \<in> set (uniquePlayers ex_log3)" by code_simp
  have h3: "contributing ex_log3 ''A'' ''Fangs'' = []" by code_simp
  from playStats_default_cell[OF h0 h1 h2] h3 obtain cell where
    "cellAt ?S ''Fangs'' ''A'' = Some cell" "plays cell = 0" "lastPlayed cell = None"
    by blast
  then have "cellAt ?S ''Fangs'' ''A'' = Some \<lparr>plays = 0, lastPlayed = None\<rparr>" by (cases cell) simp
  with h0 h1 h2 h3 show ?thesis by blast
qed

text \<open>
  Claim C6 at a failing input. The catalog holds the one character \<open>River\<close>, and the
  log one record, in which the recognized participant \<open>A\<close> plays a character named
  \<open>constructor\<close>, absent from the catalog. The guard \<open>stats[spirit] && ...\<close> finds the
  function that every object inherits under that name, and the aggregation throws a
  \<open>TypeError\<close>, both with the recognized participants given and with those derived
  from the log.
\<close>

theorem unknown_spirit_throws:
  "buildPlayStats isoDate [ex_River] [''A''] [ex_play ''2024-01-01'' [(''A'', ''constructor'')]]
     = Inl TypeError
   \<and> playStats isoDate [ex_River] [ex_play ''2024-01-01'' [(''A'', ''constructor'')]] = Inl TypeError
   \<and> ''constructor'' \<notin> sp_spirit ` set [ex_River]"
  by code_simp

text \<open>
  What the aggregation does tolerate. Added to a log that is safe for the catalog, a
  play record all of whose participant entries are safe and name a character outside
  the catalog or a participant outside the recognized set leaves the play statistics
  as they are; at the top level, where the recognized set is derived from the log,
  such a record changes no cell of a recognized participant. The adversary aggregation
  has no failing branch: a record without an adversary, or with one outside the
  adversary catalog, leaves the adversary statistics as they are. Empty catalogs give
  empty statistics, for the characters on a safe log, and an empty log gives
  statistics whose cells are all zero plays and no date.
\<close>

theorem unknown_references_ignored:
  "(safeSpirits spirits (xs @ ys)
      \<and> (\<forall>pl \<in> set (players r). safeEntry spirits pl
            \<and> (spirit pl \<notin> sp_spirit ` set spirits \<or> player pl \<notin> set ups)) \<longrightarrow>
      (\<exists>s. buildPlayStats ts spirits ups (xs @ r # ys) = Inr s
          \<and> buildPlayStats ts spirits ups (xs @ ys) = Inr s))
   \<and> (safeSpirits spirits (xs @ ys)
      \<and> (\<forall>pl \<in> set (players r). safeEntry spirits pl
            \<and> (spirit pl \<notin> sp_spirit ` set spirits \<or> player pl \<notin> {''A'', ''E''})) \<longrightarrow>
        (\<forall>c p. p \<in> set (uniquePlayers (xs @ ys)) \<longrightarrow>
           (\<exists>s s'. playStats ts spirits (xs @ r # ys) = Inr s
               \<and> playStats ts spirits (xs @ ys) = Inr s' \<and> cellAt s c p = cellAt s' c p)))
   \<and> ((case adversary r of None \<Rightarrow> True | Some a \<Rightarrow> a \<notin> Adversary ` set adversaries) \<longrightarrow>
        buildAdversaryStats ts adversaries (xs @ r # ys) = buildAdversaryStats ts adversaries (xs @ ys))
   \<and> (safeSpirits [] ps \<longrightarrow> buildPlayStats ts [] ups ps = Inr [])
   \<and> buildAdversaryStats ts [] ps = []
   \<and> (\<exists>s. buildPlayStats ts spirits ups [] = Inr s
        \<and> cellAt s c p = (if c \<in> sp_spirit ` set spirits \<and> p \<in> set ups
                          then Some \<lparr>plays = 0, lastPlayed = None\<rparr> else None))
   \<and> (\<forall>a m l st. map_of (buildAdversaryStats ts adversaries []) a = Some m \<longrightarrow>
          map_of m l = Some st \<longrightarrow> plays st = 0 \<and> lastPlayed st = None)"
proof -
  have same: "\<exists>s. buildPlayStats ts spirits ups (xs @ r # ys) = Inr s
          \<and> buildPlayStats ts spirits ups (xs @ ys) = Inr s"
    if safe: "safeSpirits spirits (xs @ ys)"
      and r: "\<forall>pl \<in> set (players r). safeEntry spirits pl
        \<and> (spirit pl \<notin> sp_spirit ` set spirits \<or> player pl \<notin> set ups)"
  proof -
    from safe r have "safeSpirits spirits (xs @ r # ys)"
      by (simp add: safeSpirits_insert list_all_iff)
    moreover from r have "tallyAll ts spirits ups (xs @ r # ys) = tallyAll ts spirits ups (xs @ ys)"
      by (intro tallyAll_unknown) simp
    ultimately show ?thesis using safe by (simp add: buildPlayStats_safe)
  qed
  have cells: "\<exists>s s'. playStats ts spirits (xs @ r # ys) = Inr s
               \<and> playStats ts spirits (xs @ ys) = Inr s' \<and> cellAt s c p = cellAt s' c p"
    if safe: "safeSpirits spirits (xs @ ys)"
      and r: "\<forall>pl \<in> set (players r). safeEntry spirits pl
        \<and> (spirit pl \<notin> sp_spirit ` set spirits \<or> player pl \<notin> {''A'', ''E''})"
      and p: "p \<in> set (uniquePlayers (xs @ ys))" for c p
  proof -
    let ?s = "tallyAll ts spirits (uniquePlayers (xs @ r # ys)) (xs @ r # ys)"
    let ?s' = "tallyAll ts spirits (uniquePlayers (xs @ ys)) (xs @ ys)"
    from safe have e': "playStats ts spirits (xs @ ys) = Inr ?s'" by (rule playStats_safe)
    from safe r have "safeSpirits spirits (xs @ r # ys)"
      by (simp add: safeSpirits_insert list_all_iff)
    then have e: "playStats ts spirits (xs @ r # ys) = Inr ?s" by (rule playStats_safe)
    have "cellAt ?s c p = cellAt ?s' c p"
    proof (cases "c \<in> sp_spirit ` set spirits")
      case False
      then show ?thesis by (simp add: cellAt_tallyAll)
    next
      case True
      from p have "p = ''A'' \<or> p = ''E''" by (auto simp: set_uniquePlayers)
      with r True have "pair p c \<notin> set (players r)" by (auto simp: pair_def)
      then have "datesOf (xs @ r # ys) p c = datesOf (xs @ ys) p c"
        by (simp add: datesOf_append datesOf_Cons[of r ys] datesOf_single_empty)
      with True p uniquePlayers_mono[OF p, of r] show ?thesis
        by (simp add: cellAt_tallyAll)
    qed
    with e e' show ?thesis by simp
  qed
  have adv: "buildAdversaryStats ts adversaries (xs @ r # ys) = buildAdversaryStats ts adversaries (xs @ ys)"
    if "case adversary r of None \<Rightarrow> True | Some a \<Rightarrow> a \<notin> Adversary ` set adversaries"
    using that by (intro buildAdversaryStats_skip recordAdversaryPlay_unknown)
  have zero: "plays st = 0 \<and> lastPlayed st = None"
    if "map_of (buildAdversaryStats ts adversaries []) a = Some m" "map_of m l = Some st" for a m l st
    using that init_adversaries_zero[of adversaries "[]" a m l st] by (simp add: buildAdversaryStats_def)
  have "safeSpirits spirits []" by (simp add: safeSpirits_def)
  then have empty: "\<exists>s. buildPlayStats ts spirits ups [] = Inr s
        \<and> cellAt s c p = (if c \<in> sp_spirit ` set spirits \<and> p \<in> set ups
                          then Some \<lparr>plays = 0, lastPlayed = None\<rparr> else None)"
    by (simp add: buildPlayStats_safe cellAt_tallyAll datesOf_def entries_def)
  have none: "buildPlayStats ts [] ups ps = Inr []" if "safeSpirits [] ps"
    using that by (simp add: buildPlayStats_safe tallyAll_no_spirits)
  from same cells adv zero empty none buildAdversaryStats_no_adversaries[of ts ps]
  show ?thesis by blast
qed

theorem unknown_references_ignored_witness:
  "safeSpirits [ex_River, ex_Fangs] (ex_log3 @ ex_twice)
   \<and> list_all (\<lambda>pl. safeEntry [ex_River, ex_Fangs] pl
         \<and> (spirit pl \<notin> sp_spirit ` set [ex_River, ex_Fangs] \<or> player pl \<notin> set [''A'', ''E'']))
       (players (ex_play ''2024-05-05'' [(''A'', ''Unknown''), (''Z'', ''River'')]))
   \<and> (\<exists>s. buildPlayStats isoDate [ex_River, ex_Fangs] [''A'', ''E'']
             (ex_log3 @ ex_play ''2024-05-05'' [(''A'', ''Unknown''), (''Z'', ''River'')] # ex_twice) = Inr s
        \<and> buildPlayStats isoDate [ex_River, ex_Fangs] [''A'', ''E''] (ex_log3 @ ex_twice) = Inr s)
   \<and> ''E'' \<in> set (uniquePlayers (ex_log3 @ ex_twice))
   \<and> (\<exists>s s'. playStats isoDate [ex_River, ex_Fangs]
            (ex_log3 @ ex_play ''2024-05-05'' [(''A'', ''Unknown''), (''Z'', ''River'')] # ex_twice) = Inr s
        \<and> playStats isoDate [ex_River, ex_Fangs] (ex_log3 @ ex_twice) = Inr s'
        \<and> cellAt s ''Fangs'' ''E'' = cellAt s' ''Fangs'' ''E'')
   \<and> ''France'' \<notin> Adversary ` set [ex_Prussia, ex_Sweden]
   \<and> buildAdversaryStats isoDate [ex_Prussia, ex_Sweden]
         ([ex_against ''2024-01-01'' ''Prussia'' (Some 1)] @ ex_against ''2024-02-02'' ''France'' (Some 1) # [])
       = buildAdversaryStats isoDate [ex_Prussia, ex_Sweden]
         ([ex_against ''2024-01-01'' ''Prussia'' (Some 1)] @ [])
   \<and> safeSpirits [] ex_log3
   \<and> buildPlayStats isoDate [] [''A'', ''E''] ex_log3 = Inr []
   \<and> buildAdversaryStats isoDate [] [ex_against ''2024-01-01'' ''Prussia'' (Some 1)] = []"
proof -
  let ?r = "ex_play ''2024-05-05'' [(''A'', ''Unknown''), (''Z'', ''River'')]"
  let ?q = "ex_against ''2024-02-02'' ''France'' (Some 1)"
  let ?cat = "[ex_River, ex_Fangs]"
  let ?advs = "[ex_Prussia, ex_Sweden]"
  let ?xs = "[ex_against ''2024-01-01'' ''Prussia'' (Some 1)]"
  note inst = unknown_references_ignored[where r = ?r and spirits = ?cat and ups = "[''A'', ''E'']"
      and ts = isoDate and xs = ex_log3 and ys = ex_twice]
  note inst_adv = unknown_references_ignored[where r = ?q and adversaries = ?advs
      and ts = isoDate and xs = ?xs and ys = "[]"]
  note inst_empty = unknown_references_ignored[where ups = "[''A'', ''E'']"
      and ts = isoDate and ps = ex_log3]
  note inst_empty_adv = unknown_references_ignored[where ts = isoDate and ps = ?xs]
  have pls: "players ?r = [pair ''A'' ''Unknown'', pair ''Z'' ''River'']"
    by (simp add: ex_play_def pair_def)
  have names: "sp_spirit ` set ?cat = {''River'', ''Fangs''}"
    by (auto simp: ex_River_def ex_Fangs_def)
  have h0: "safeSpirits ?cat (ex_log3 @ ex_twice)" by code_simp
  have h1: "\<forall>pl \<in> set (players ?r). safeEntry ?cat pl
       \<and> (spirit pl \<notin> sp_spirit ` set ?cat \<or> player pl \<notin> set [''A'', ''E''])"
    unfolding pls names safeEntry_def by (simp add: pair_def inheritedKeys_def)
  have h2: "\<forall>pl \<in> set (players ?r). safeEntry ?cat pl
       \<and> (spirit pl \<notin> sp_spirit ` set ?cat \<or> player pl \<notin> {''A'', ''E''})"
    unfolding pls names safeEntry_def by (simp add: pair_def inheritedKeys_def)
  have h3: "''E'' \<in> set (uniquePlayers (ex_log3 @ ex_twice))" by code_simp
  have h4: "''France'' \<notin> Adversary ` set ?advs"
    by (simp add: ex_Prussia_def ex_Sweden_def ex_adversary_def)
  then have h5: "case adversary ?q of None \<Rightarrow> True | Some a \<Rightarrow> a \<notin> Adversary ` set ?advs"
    by (simp add: ex_against_def)
  have h6: "safeSpirits [] ex_log3" by code_simp
  from inst h0 h1 have g1: "\<exists>s. buildPlayStats isoDate ?cat [''A'', ''E''] (ex_log3 @ ?r # ex_twice) = Inr s
        \<and> buildPlayStats isoDate ?cat [''A'', ''E''] (ex_log3 @ ex_twice) = Inr s" by blast
  from inst h0 h2 h3 have g2: "\<exists>s s'. playStats isoDate ?cat (ex_log3 @ ?r # ex_twice) = Inr s
        \<and> playStats isoDate ?cat (ex_log3 @ ex_twice) = Inr s'
        \<and> cellAt s ''Fangs'' ''E'' = cellAt s' ''Fangs'' ''E''" by blast
  from inst_adv h5 have g3: "buildAdversaryStats isoDate ?advs (?xs @ ?q # [])
       = buildAdversaryStats isoDate ?advs (?xs @ [])" by blast
  from inst_empty h6 have g4: "buildPlayStats isoDate [] [''A'', ''E''] ex_log3 = Inr []" by blast
  from inst_empty_adv have g5: "buildAdversaryStats isoDate [] ?xs = []" by blast
  from h1 have h1': "list_all (\<lambda>pl. safeEntry ?cat pl
         \<and> (spirit pl \<notin> sp_spirit ` set ?cat \<or> player pl \<notin> set [''A'', ''E''])) (players ?r)"
    by (simp add: list_all_iff)
  from h0 h1' g1 h3 g2 h4 g3 h6 g4 g5 show ?thesis by blast
qed




text \<open>
  Claim C8. For a recognized participant \<open>p\<close>, the comparator of the key
  \<open>player-p-plays\<close> compares the play counts of \<open>p\<close>, a missing cell counting 0, and
  the comparator of \<open>player-p-lastPlayed\<close> compares the last-played date strings, a
  missing cell or date counting as the empty string. The sorted rows are a
  permutation of the rows that \<open>Object.values\<close> enumerates; ascending by \<open>plays\<close> they
  are in non-decreasing order of count, and descending their counts are the reverse of
  the ascending ones; ascending by \<open>lastPlayed\<close> no row with a date stands before a row
  without one. \<open>handleSort\<close> starts a key ascending, turns ascending into descending,
  and applied twice to an ascending key gives ascending again.
\<close>

theorem sort_projection:
  assumes rp: "p \<in> set (uniquePlayers ps)"
  shows "comparePlayStats \<lparr>key = headerKey p ''plays'', direction = d\<rparr> a b
           = Some (ordered d (playsValue (Some p) a < playsValue (Some p) b)
                             (playsValue (Some p) b < playsValue (Some p) a))
   \<and> comparePlayStats \<lparr>key = headerKey p ''lastPlayed'', direction = d\<rparr> a b
           = Some (ordered d
                (stringValue (Some p) (Some ''lastPlayed'') a < stringValue (Some p) (Some ''lastPlayed'') b)
                (stringValue (Some p) (Some ''lastPlayed'') b < stringValue (Some p) (Some ''lastPlayed'') a))
   \<and> playsValue (Some p) a = (case map_of (playerStats a) p of None \<Rightarrow> 0 | Some c \<Rightarrow> plays c)
   \<and> stringValue (Some p) (Some ''lastPlayed'') a
         = (case map_of (playerStats a) p of
              None \<Rightarrow> []
            | Some c \<Rightarrow> (case lastPlayed c of None \<Rightarrow> [] | Some dt \<Rightarrow> dt))
   \<and> mset (sortedPlayStats (Some \<lparr>key = headerKey p ''plays'', direction = d\<rparr>) stats) = mset (objectValues stats)
   \<and> sorted (map (playsValue (Some p))
         (sortedPlayStats (Some \<lparr>key = headerKey p ''plays'', direction = Asc\<rparr>) stats))
   \<and> map (playsValue (Some p))
         (sortedPlayStats (Some \<lparr>key = headerKey p ''plays'', direction = Desc\<rparr>) stats)
       = rev (map (playsValue (Some p))
           (sortedPlayStats (Some \<lparr>key = headerKey p ''plays'', direction = Asc\<rparr>) stats))
   \<and> sorted (map (stringValue (Some p) (Some ''lastPlayed''))
         (sortedPlayStats (Some \<lparr>key = headerKey p ''lastPlayed'', direction = Asc\<rparr>) stats))
   \<and> sorted_wrt (\<lambda>x y. stringValue (Some p) (Some ''lastPlayed'') y = [] \<longrightarrow>
                        stringValue (Some p) (Some ''lastPlayed'') x = [])
         (sortedPlayStats (Some \<lparr>key = headerKey p ''lastPlayed'', direction = Asc\<rparr>) stats)
   \<and> handleSort k None = Some \<lparr>key = k, direction = Asc\<rparr>
   \<and> handleSort k (Some \<lparr>key = k, direction = Asc\<rparr>) = Some \<lparr>key = k, direction = Desc\<rparr>
   \<and> handleSort k (handleSort k (Some \<lparr>key = k, direction = Asc\<rparr>)) = Some \<lparr>key = k, direction = Asc\<rparr>"
proof -
  from rp have "p = ''A'' \<or> p = ''E''" by (simp add: set_uniquePlayers)
  then have p: "CHR ''-'' \<notin> set p" by auto
  let ?n = "playsValue (Some p)" and ?s = "stringValue (Some p) (Some ''lastPlayed'')"
  let ?rows = "objectValues stats"
  have cp: "comparePlayStats \<lparr>key = headerKey p ''plays'', direction = dir\<rparr>
      = (\<lambda>a b. Some (ordered dir (?n a < ?n b) (?n b < ?n a)))" for dir
    by (intro ext) (rule compare_plays[OF p])
  have cs: "comparePlayStats \<lparr>key = headerKey p ''lastPlayed'', direction = dir\<rparr>
      = (\<lambda>a b. Some (ordered dir (?s a < ?s b) (?s b < ?s a)))" for dir
    by (intro ext) (rule compare_lastPlayed[OF p])
  have asc: "sortedPlayStats (Some \<lparr>key = headerKey p ''plays'', direction = Asc\<rparr>) stats = sort_key ?n ?rows"
    by (simp add: sortedPlayStats_def cp sorted_asc)
  have desc: "sortedPlayStats (Some \<lparr>key = headerKey p ''plays'', direction = Desc\<rparr>) stats
      = sort_key (\<lambda>a. - int (?n a)) ?rows"
    by (simp add: sortedPlayStats_def cp sorted_desc_nat)
  have str: "sortedPlayStats (Some \<lparr>key = headerKey p ''lastPlayed'', direction = Asc\<rparr>) stats = sort_key ?s ?rows"
    by (simp add: sortedPlayStats_def cs sorted_asc)
  have perm: "mset (sortedPlayStats (Some \<lparr>key = headerKey p ''plays'', direction = d\<rparr>) stats) = mset ?rows"
    by (cases d) (simp_all add: asc desc)
  have s1: "sorted (map ?n (sort_key ?n ?rows))" by (rule sorted_sort_key)
  have rv: "map ?n (sort_key (\<lambda>a. - int (?n a)) ?rows) = rev (map ?n (sort_key ?n ?rows))"
    by (rule desc_rev)
  have s2: "sorted (map ?s (sort_key ?s ?rows))" by (rule sorted_sort_key)
  then have "sorted_wrt (\<lambda>x y. ?s x \<le> ?s y) (sort_key ?s ?rows)" by (simp add: sorted_wrt_map)
  then have s3: "sorted_wrt (\<lambda>x y. ?s y = [] \<longrightarrow> ?s x = []) (sort_key ?s ?rows)"
    by (rule sorted_wrt_mono_rel[rotated]) auto
  have h: "handleSort k None = Some \<lparr>key = k, direction = Asc\<rparr>"
    "handleSort k (Some \<lparr>key = k, direction = Asc\<rparr>) = Some \<lparr>key = k, direction = Desc\<rparr>"
    "handleSort k (handleSort k (Some \<lparr>key = k, direction = Asc\<rparr>)) = Some \<lparr>key = k, direction = Asc\<rparr>"
    by (simp_all add: handleSort_def)
  have v: "?n a = (case map_of (playerStats a) p of None \<Rightarrow> 0 | Some c \<Rightarrow> plays c)"
    "?s a = (case map_of (playerStats a) p of None \<Rightarrow> []
             | Some c \<Rightarrow> (case lastPlayed c of None \<Rightarrow> [] | Some dt \<Rightarrow> dt))"
    by (simp_all add: playsValue_def stringValue_def split: option.splits)
  show ?thesis
    using compare_plays[OF p, of d a b] compare_lastPlayed[OF p, of d a b] v perm s1 rv s2 s3 h
    unfolding asc desc str by simp
qed

theorem sort_projection_witness:
  "''A'' \<in> set (uniquePlayers ex_log021)
   \<and> (\<exists>stats. playStats isoDate ex_cat3 ex_log021 = Inr stats
        \<and> map (playsValue (Some ''A'')) (objectValues stats) = [0, 2, 1]
        \<and> map (playsValue (Some ''A''))
              (sortedPlayStats (Some \<lparr>key = ''player-A-plays'', direction = Asc\<rparr>) stats) = [0, 1, 2]
        \<and> map (playsValue (Some ''A''))
              (sortedPlayStats (Some \<lparr>key = ''player-A-plays'', direction = Desc\<rparr>) stats) = [2, 1, 0]
        \<and> map (stringValue (Some ''A'') (Some ''lastPlayed''))
              (sortedPlayStats (Some \<lparr>key = ''player-A-lastPlayed'', direction = Asc\<rparr>) stats)
            = ['''', ''2024-02-01'', ''2024-03-01''])
   \<and> handleSort ''player-A-plays'' (handleSort ''player-A-plays'' (handleSort ''player-A-plays'' None))
       = Some \<lparr>key = ''player-A-plays'', direction = Asc\<rparr>"
proof -
  let ?S = "tallyAll isoDate ex_cat3 (uniquePlayers ex_log021) ex_log021"
  have "safeSpirits ex_cat3 ex_log021" by code_simp
  then have e: "playStats isoDate ex_cat3 ex_log021 = Inr ?S" by (rule playStats_safe)
  have k: "headerKey ''A'' ''plays'' = ''player-A-plays''" "headerKey ''A'' ''lastPlayed'' = ''player-A-lastPlayed''"
    by (simp_all add: headerKey_def)
  have h: "''A'' \<in> set (uniquePlayers ex_log021)" by code_simp
  have v: "map (playsValue (Some ''A'')) (objectValues ?S) = [0, 2, 1]" by code_simp
  have a: "map (playsValue (Some ''A''))
         (sortedPlayStats (Some \<lparr>key = ''player-A-plays'', direction = Asc\<rparr>) ?S) = [0, 1, 2]"
    by code_simp
  have l: "map (stringValue (Some ''A'') (Some ''lastPlayed''))
         (sortedPlayStats (Some \<lparr>key = ''player-A-lastPlayed'', direction = Asc\<rparr>) ?S)
       = ['''', ''2024-02-01'', ''2024-03-01'']"
    by code_simp
  note t = sort_projection[OF h, where stats = ?S and k = "''player-A-plays''", unfolded k]
  from t a have d: "map (playsValue (Some ''A''))
         (sortedPlayStats (Some \<lparr>key = ''player-A-plays'', direction = Desc\<rparr>) ?S) = [2, 1, 0]"
    by simp
  from t have h1: "handleSort ''player-A-plays'' None = Some \<lparr>key = ''player-A-plays'', direction = Asc\<rparr>"
    and h2: "handleSort ''player-A-plays'' (handleSort ''player-A-plays'' (Some \<lparr>key = ''player-A-plays'', direction = Asc\<rparr>))
       = Some \<lparr>key = ''player-A-plays'', direction = Asc\<rparr>"
    by blast+
  have hs: "handleSort ''player-A-plays'' (handleSort ''player-A-plays'' (handleSort ''player-A-plays'' None))
       = Some \<lparr>key = ''player-A-plays'', direction = Asc\<rparr>"
    unfolding h1 h2 ..
  have "\<exists>stats. playStats isoDate ex_cat3 ex_log021 = Inr stats
        \<and> map (playsValue (Some ''A'')) (objectValues stats) = [0, 2, 1]
        \<and> map (playsValue (Some ''A''))
              (sortedPlayStats (Some \<lparr>key = ''player-A-plays'', direction = Asc\<rparr>) stats) = [0, 1, 2]
        \<and> map (playsValue (Some ''A''))
              (sortedPlayStats (Some \<lparr>key = ''player-A-plays'', direction = Desc\<rparr>) stats) = [2, 1, 0]
        \<and> map (stringValue (Some ''A'') (Some ''lastPlayed''))
              (sortedPlayStats (Some \<lparr>key = ''player-A-lastPlayed'', direction = Asc\<rparr>) stats)
            = ['''', ''2024-02-01'', ''2024-03-01'']"
    by (rule exI[of _ ?S]) (intro conjI e v a d l)
  with h hs show ?thesis by (intro conjI)
qed

text \<open>
  Claim C9 at a failing input. \<open>getRecommendations\<close> reads the current time: for the
  catalog of one spirit, played once by \<open>A\<close> on 2024-03-01, a run at 2024-02-29, 23:00
  UTC emits no recommendation for \<open>A\<close>, and a run at 2025-01-01 recommends the spirit.
  The two runs have the same log, catalog and random draws.
\<close>

theorem recommendations_depend_on_clock:
  "recommendations isoDate ex_fmt ex_early ex_rnd [ex_Ocean] ex_once = Inr [(''A'', [])]
   \<and> recommendations isoDate ex_fmt ex_now ex_rnd [ex_Ocean] ex_once
     = Inr [(''A'', [(''HIGH'', \<lparr>rec_spirit = Some ex_Ocean, reason = ''Last played day 19783''\<rparr>)])]"
  by code_simp

text \<open>
  Claim C10. A play record whose adversary is in the catalog and whose level (0 when
  absent) is neither 0 nor a level that a catalog entry of that name declares leaves
  the adversary statistics as they are: the entry of that adversary holds exactly
  level 0 and the levels declared by a catalog entry of its name.
\<close>

theorem undeclared_level_ignored:
  assumes "adversary r = Some a" and "a \<in> Adversary ` set adversaries"
    and "playLevel r \<noteq> 0"
    and "\<forall>adv \<in> set adversaries. Adversary adv = a \<longrightarrow> playLevel r \<notin> Level ` set (Levels adv)"
  shows "buildAdversaryStats ts adversaries (xs @ r # ys) = buildAdversaryStats ts adversaries (xs @ ys)
         \<and> (\<exists>adv \<in> set adversaries. \<exists>m. Adversary adv = a
              \<and> map_of (buildAdversaryStats ts adversaries (xs @ r # ys)) a = Some m
              \<and> fst ` set m = insert 0 (Level ` set (Levels adv)))"
proof -
  have eq: "buildAdversaryStats ts adversaries (xs @ r # ys) = buildAdversaryStats ts adversaries (xs @ ys)"
    using assms(1,3,4) by (intro buildAdversaryStats_skip recordAdversaryPlay_undeclared)
  have keys: "advKeys adversaries (buildAdversaryStats ts adversaries (xs @ r # ys))"
    by (rule advKeys_build)
  with assms(2) obtain m where "map_of (buildAdversaryStats ts adversaries (xs @ r # ys)) a = Some m"
    unfolding advKeys_def by blast
  with keys have "\<exists>adv \<in> set adversaries. \<exists>m. Adversary adv = a
              \<and> map_of (buildAdversaryStats ts adversaries (xs @ r # ys)) a = Some m
              \<and> fst ` set m = insert 0 (Level ` set (Levels adv))"
    unfolding advKeys_def by (auto simp: dom_map_of_conv_image_fst)
  with eq show ?thesis by blast
qed

theorem undeclared_level_ignored_witness:
  "adversary (ex_against ''2024-02-02'' ''Prussia'' (Some 5)) = Some ''Prussia''
   \<and> ''Prussia'' \<in> Adversary ` set [ex_Prussia, ex_Sweden]
   \<and> playLevel (ex_against ''2024-02-02'' ''Prussia'' (Some 5)) = 5
   \<and> 5 \<notin> Level ` set (Levels ex_Prussia)
   \<and> buildAdversaryStats isoDate [ex_Prussia, ex_Sweden]
         ([ex_against ''2024-01-01'' ''Prussia'' (Some 1)]
           @ ex_against ''2024-02-02'' ''Prussia'' (Some 5) # [ex_against ''2024-03-03'' ''Sweden'' None])
       = buildAdversaryStats isoDate [ex_Prussia, ex_Sweden]
         ([ex_against ''2024-01-01'' ''Prussia'' (Some 1)] @ [ex_against ''2024-03-03'' ''Sweden'' None])"
proof -
  let ?r = "ex_against ''2024-02-02'' ''Prussia'' (Some 5)"
  have h1: "adversary ?r = Some ''Prussia''" by (simp add: ex_against_def)
  have h2: "''Prussia'' \<in> Adversary ` set [ex_Prussia, ex_Sweden]"
    by (simp add: ex_Prussia_def ex_adversary_def)
  have h3: "playLevel ?r = 5" by (simp add: ex_against_def playLevel_def)
  then have h3': "playLevel ?r \<noteq> 0" by simp
  have h4: "5 \<notin> Level ` set (Levels ex_Prussia)"
    by (simp add: ex_Prussia_def ex_adversary_def ex_level_def)
  have h4': "\<forall>adv \<in> set [ex_Prussia, ex_Sweden].
       Adversary adv = ''Prussia'' \<longrightarrow> playLevel ?r \<notin> Level ` set (Levels adv)"
    using h3 h4 by (simp add: ex_Sweden_def ex_adversary_def)
  from undeclared_level_ignored[OF h1 h2 h3' h4', of isoDate
      "[ex_against ''2024-01-01'' ''Prussia'' (Some 1)]" "[ex_against ''2024-03-03'' ''Sweden'' None]"]
  show ?thesis using h1 h2 h3 h4 by blast
qed

end
